(* ===== verification/Prelude.thy ===== *)
theory Prelude imports Complex_Main "HOL-Library.Word" begin

text \<open>
  Shared vocabulary of the PlayPG development: the fixed-width integers of the C++ code, the
  faults a C++ statement can end in, sequencing of fallible computations, C strings, and the
  generic lemmas every component uses.
\<close>

section \<open>Machine integers\<close>

type_synonym u8 = "8 word"
type_synonym u16 = "16 word"
type_synonym u32 = "32 word"
type_synonym u64 = "64 word"

section \<open>Faults\<close>

text \<open>
  A statement of the code either completes or ends in one of these faults: a failed \<open>assert\<close> or
  \<open>REQUIRE\<close>, a violated precondition of rapidjson (a missing member or a value of another type,
  which its accessors assert against), a null or dangling pointer that is dereferenced, an index
  outside a vector, a conversion or an addition that is undefined for its operands, an exception
  of the object-relational mapper, a cast of an option that was not given. Nothing in the code catches any of them.
\<close>

datatype fault =
    AssertFailed
  | RequireFailed
  | JsonPrecondition
  | NullDeref
  | DanglingPointer
  | OutOfBounds
  | UndefinedConversion
  | SignedOverflow
  | DbException
  | BadOptionCast

type_synonym 'a res = "fault + 'a"

named_theorems res_simps \<open>evaluation of fallible computations\<close>
named_theorems inv_intros \<open>one invariant lemma per operation\<close>

definition andThen :: "'a res \<Rightarrow> ('a \<Rightarrow> 'b res) \<Rightarrow> 'b res" where
  "andThen m f = (case m of Inl e \<Rightarrow> Inl e | Inr x \<Rightarrow> f x)"

lemma andThen_Inl [simp, res_simps]: "andThen (Inl e) f = Inl e"
  by (simp add: andThen_def)

lemma andThen_Inr [simp, res_simps]: "andThen (Inr x) f = f x"
  by (simp add: andThen_def)

lemma andThen_eq_Inr: "andThen m f = Inr y \<longleftrightarrow> (\<exists>x. m = Inr x \<and> f x = Inr y)"
  by (cases m) auto

lemma andThen_eq_Inl: "andThen m f = Inl e \<longleftrightarrow> m = Inl e \<or> (\<exists>x. m = Inr x \<and> f x = Inl e)"
  by (cases m) auto

lemma andThen_cong [fundef_cong]:
  "m = m' \<Longrightarrow> (\<And>x. m' = Inr x \<Longrightarrow> f x = f' x) \<Longrightarrow> andThen m f = andThen m' f'"
  by (cases m') auto

text \<open>A function applied to the result.\<close>

definition mapRes :: "('a \<Rightarrow> 'b) \<Rightarrow> 'a res \<Rightarrow> 'b res" where
  "mapRes f m = andThen m (\<lambda>x. Inr (f x))"

lemma mapRes_simps [simp]: "mapRes f (Inl e) = Inl e" "mapRes f (Inr x) = Inr (f x)"
  by (simp_all add: mapRes_def)

lemma mapRes_andThen: "mapRes f (andThen m g) = andThen m (\<lambda>x. mapRes f (g x))"
  by (cases m) simp_all

lemma mapRes_if: "mapRes f (if b then x else y) = (if b then mapRes f x else mapRes f y)"
  by simp

lemma andThen_mapRes: "andThen (mapRes f m) g = andThen m (\<lambda>x. g (f x))"
  by (cases m) simp_all

text \<open>The value of a present object; \<^const>\<open>None\<close> is the null pointer or an empty optional.\<close>

definition deref :: "fault \<Rightarrow> 'a option \<Rightarrow> 'a res" where
  "deref e x = (case x of None \<Rightarrow> Inl e | Some y \<Rightarrow> Inr y)"

lemma deref_simps [simp, res_simps]: "deref e None = Inl e" "deref e (Some x) = Inr x"
  by (simp_all add: deref_def)

lemma deref_eq_Inr: "deref e x = Inr y \<longleftrightarrow> x = Some y"
  by (cases x) auto

text \<open>A loop body run over the elements of a range, stopping at the first fault.\<close>

fun foldR :: "('a \<Rightarrow> 's \<Rightarrow> 's res) \<Rightarrow> 'a list \<Rightarrow> 's \<Rightarrow> 's res" where
  "foldR f [] s = Inr s"
| "foldR f (x # xs) s = andThen (f x s) (foldR f xs)"

fun mapR :: "('a \<Rightarrow> 'b res) \<Rightarrow> 'a list \<Rightarrow> 'b list res" where
  "mapR f [] = Inr []"
| "mapR f (x # xs) = andThen (f x) (\<lambda>y. andThen (mapR f xs) (\<lambda>ys. Inr (y # ys)))"

lemma foldR_append [simp]: "foldR f (xs @ ys) s = andThen (foldR f xs s) (foldR f ys)"
proof (induction xs arbitrary: s)
  case (Cons x xs)
  then show ?case by (cases "f x s") auto
qed simp

lemma foldR_invariant:
  assumes "foldR f xs s = Inr s'" and "P s"
    and "\<And>x s s'. x \<in> set xs \<Longrightarrow> P s \<Longrightarrow> f x s = Inr s' \<Longrightarrow> P s'"
  shows "P s'"
  using assms
proof (induction xs arbitrary: s)
  case (Cons x xs)
  from Cons.prems(1) obtain t where t: "f x s = Inr t" and rest: "foldR f xs t = Inr s'"
    by (auto simp: andThen_eq_Inr)
  have "P t" using Cons.prems(2,3) t by auto
  with rest Cons show ?case by auto
qed simp

lemma foldR_total:
  assumes "\<And>x s. x \<in> set xs \<Longrightarrow> f x s = Inr (g x s)"
  shows "foldR f xs s = Inr (fold g xs s)"
  using assms by (induction xs arbitrary: s) auto

lemma mapR_total:
  assumes "\<And>x. x \<in> set xs \<Longrightarrow> f x = Inr (g x)"
  shows "mapR f xs = Inr (map g xs)"
  using assms by (induction xs) auto

lemma mapR_length: "mapR f xs = Inr ys \<Longrightarrow> length ys = length xs"
  by (induction xs arbitrary: ys) (auto simp: andThen_eq_Inr)

section \<open>C strings\<close>

text \<open>
  \<open>std::string::c_str()\<close> passed to a function that takes a \<open>const char *\<close>, and a \<open>const char *\<close>
  turned back into a \<open>std::string\<close>, both stop at the first NUL.
\<close>

definition c_str :: "string \<Rightarrow> string" where
  "c_str s = takeWhile (\<lambda>c. c \<noteq> CHR 0x00) s"

definition nul_free :: "string \<Rightarrow> bool" where
  "nul_free s = list_all (\<lambda>c. c \<noteq> CHR 0x00) s"

lemma c_str_nul_free [simp]: "nul_free s \<Longrightarrow> c_str s = s"
  by (simp add: c_str_def nul_free_def takeWhile_eq_all_conv list_all_iff)

lemma nul_free_c_str [simp]: "nul_free (c_str s)"
  by (auto simp: c_str_def nul_free_def list_all_iff dest: set_takeWhileD)

lemma nul_free_Cons [simp]: "nul_free (c # s) \<longleftrightarrow> c \<noteq> CHR 0x00 \<and> nul_free s"
  by (simp add: nul_free_def)

lemma nul_free_Nil [simp]: "nul_free []"
  by (simp add: nul_free_def)

lemma c_str_idem [simp]: "c_str (c_str s) = c_str s"
  by simp

lemma length_c_str_le: "length (c_str s) \<le> length s"
  by (simp add: c_str_def length_takeWhile_le)

section \<open>Words\<close>

lemma unat_of_nat_small [simp]:
  "n < 2 ^ LENGTH('a) \<Longrightarrow> unat (of_nat n :: 'a::len word) = n"
  by (simp add: unat_of_nat)

lemma u8_unat_lt [simp]: "unat (b :: u8) < 256"
  using unsigned_less [of b] by simp

lemma u8_div16_lt [simp]: "unat (b :: u8) div 16 < 16"
  using u8_unat_lt [of b] by linarith

end
