(* ===== verification/Tmx.thy ===== *)
theory Tmx imports Prelude begin

text \<open>
  A parsed tile map of the library tmxparser, as far as the program looks into it: the sizes, the
  properties of the map, its tile layers and the properties of single tiles. A string property
  that is not set is the empty string; an integer property that is not set is the default asked
  for; a cell without a tile has tileset index -1; a tile that the tileset does not list is absent.
\<close>

record tmx_layer =
  tl_name :: string
  tl_visible :: bool
  tl_stringProperty :: "string \<Rightarrow> string"
  tl_tilesetIndex :: "int \<Rightarrow> int \<Rightarrow> int"
  tl_tileId :: "int \<Rightarrow> int \<Rightarrow> int"

record tmx_map =
  tm_filename :: string
  tm_filehash :: string
  tm_width :: int
  tm_height :: int
  tm_tileWidth :: int
  tm_tileHeight :: int
  tm_stringProperty :: "string \<Rightarrow> string"
  tm_intProperty :: "string \<Rightarrow> int \<Rightarrow> int"
  tm_tileLayers :: "tmx_layer list"
  tm_tile :: "int \<Rightarrow> int \<Rightarrow> (string \<Rightarrow> string) option"

end
