(* ===== verification/OdbTypes.thy ===== *)
theory OdbTypes imports Prelude begin

text \<open>
  The persistent classes of src/ODB: accounts, characters, locations (maps) and races, with their
  constructors. The object-relational mapper that stores them is a parameter (see Platform).
\<close>

section \<open>Player\<close>

text \<open>A \<open>ptime\<close> is seconds since an epoch; \<^const>\<open>None\<close> is the default \<open>not_a_date_time\<close>.\<close>

record player =
  pl_id :: u64
  pl_username :: string
  pl_password :: string
  pl_salt :: string
  pl_languageID :: u64
  pl_locked :: bool
  pl_joinDate :: "int option"
  pl_lastLogin :: "int option"

definition Player_new :: "string \<Rightarrow> string \<Rightarrow> string \<Rightarrow> player" where
  "Player_new username' password' salt' =
     \<lparr>pl_id = 0, pl_username = username', pl_password = password', pl_salt = salt',
      pl_languageID = 1, pl_locked = False, pl_joinDate = None, pl_lastLogin = None\<rparr>"

section \<open>Character\<close>

record chara =
  ch_id :: u64
  ch_playerID :: u64
  ch_name :: string
  ch_raceID :: u64
  ch_locationID :: u64
  ch_maxHP :: u64
  ch_currentHP :: u64
  ch_strength :: u64
  ch_intelligence :: u64

text \<open>The 64-bit integers of the class are kept as words; the signed ones are read with \<^const>\<open>sint\<close>.\<close>

definition Character_new :: "string \<Rightarrow> u64 \<Rightarrow> u64 \<Rightarrow> u64 \<Rightarrow> chara" where
  "Character_new name' maxHP' strength' intelligence' =
     \<lparr>ch_id = 0, ch_playerID = 0, ch_name = name', ch_raceID = 0, ch_locationID = 0,
      ch_maxHP = maxHP', ch_currentHP = maxHP', ch_strength = strength',
      ch_intelligence = intelligence'\<rparr>"

section \<open>Location\<close>

record location =
  lo_id :: u64
  lo_locationName :: string
  lo_knownFileName :: string
  lo_knownMD5Hash :: string
  lo_version :: u32

definition Location_new :: "string \<Rightarrow> string \<Rightarrow> string \<Rightarrow> u32 \<Rightarrow> location" where
  "Location_new locationName' knownFileName' knownMD5Hash' version' =
     \<lparr>lo_id = 0, lo_locationName = locationName', lo_knownFileName = knownFileName',
      lo_knownMD5Hash = knownMD5Hash', lo_version = version'\<rparr>"

section \<open>Race\<close>

record race =
  ra_id :: u64
  ra_raceName :: string

definition Race_new :: "string \<Rightarrow> race" where
  "Race_new raceName' = \<lparr>ra_id = 0, ra_raceName = raceName'\<rparr>"

lemma Location_new_simps [simp]:
  "lo_id (Location_new n f h v) = 0" "lo_locationName (Location_new n f h v) = n"
  "lo_knownFileName (Location_new n f h v) = f" "lo_knownMD5Hash (Location_new n f h v) = h"
  "lo_version (Location_new n f h v) = v"
  by (simp_all add: Location_new_def)

lemma Player_new_simps [simp]:
  "pl_username (Player_new u p s) = u" "pl_password (Player_new u p s) = p"
  "pl_salt (Player_new u p s) = s" "\<not> pl_locked (Player_new u p s)"
  by (simp_all add: Player_new_def)

end
