(* ===== verification/Platform.thy ===== *)
theory Platform imports OdbTypes Tmx begin

text \<open>
  The libraries under PlayPG, as parameters. Their code is not part of the repository, so each is
  a group of functions that the definitions of this development take as an argument: the byte
  buffers and sockets of APG, the JSON writer and parser of rapidjson, the primitives of OpenSSL,
  the database behind ODB, the map parser, the file system, the clock and the random source. What a property relies on of them is a
  named hypothesis, defined at the end of this theory.
\<close>

section \<open>JSON values and writer events\<close>

datatype json =
    JNull
  | JBool bool
  | JInt int
  | JDouble
  | JString string
  | JArray "json list"
  | JObject "(string \<times> json) list"

text \<open>The calls a serialiser makes on \<open>rapidjson::Writer\<close>, in order.\<close>

datatype jevent =
    StartObject | EndObject | StartArray | EndArray
  | WString string | WBool bool | WInt int

text \<open>\<open>writer->String(s.c_str())\<close>, \<open>writer->Int(i)\<close> of an \<open>int\<close>, \<open>writer->Int64(i)\<close> of an \<open>int64_t\<close>.\<close>

definition wString :: "string \<Rightarrow> jevent" where "wString s = WString (c_str s)"
definition wInt :: "u32 \<Rightarrow> jevent" where "wInt i = WInt (sint i)"
definition wInt64 :: "u64 \<Rightarrow> jevent" where "wInt64 i = WInt (sint i)"

text \<open>The events that write a value.\<close>

fun events_of :: "json \<Rightarrow> jevent list"
  and member_events :: "string \<times> json \<Rightarrow> jevent list" where
  "events_of JNull = []"
| "events_of JDouble = []"
| "events_of (JBool b) = [WBool b]"
| "events_of (JInt i) = [WInt i]"
| "events_of (JString s) = [WString s]"
| "events_of (JArray vs) = StartArray # concat (map events_of vs) @ [EndArray]"
| "events_of (JObject ms) = StartObject # concat (map member_events ms) @ [EndObject]"
| "member_events (k, v) = WString k # events_of v"

text \<open>
  The accessors of a parsed value assert that the member exists and has the type asked for; a
  string read as a C string stops at a NUL.
\<close>

definition jMember :: "json \<Rightarrow> string \<Rightarrow> json res" where
  "jMember j k =
     (case j of JObject ms \<Rightarrow> deref JsonPrecondition (map_of ms k) | _ \<Rightarrow> Inl JsonPrecondition)"

definition jGetString :: "json \<Rightarrow> string res" where
  "jGetString j = (case j of JString s \<Rightarrow> Inr (c_str s) | _ \<Rightarrow> Inl JsonPrecondition)"

definition jGetBool :: "json \<Rightarrow> bool res" where
  "jGetBool j = (case j of JBool b \<Rightarrow> Inr b | _ \<Rightarrow> Inl JsonPrecondition)"

definition jGetInt :: "json \<Rightarrow> u32 res" where
  "jGetInt j =
     (case j of JInt i \<Rightarrow> if - (2 ^ 31) \<le> i \<and> i < 2 ^ 31 then Inr (of_int i) else Inl JsonPrecondition
      | _ \<Rightarrow> Inl JsonPrecondition)"

definition jGetInt64 :: "json \<Rightarrow> u64 res" where
  "jGetInt64 j =
     (case j of JInt i \<Rightarrow> if - (2 ^ 63) \<le> i \<and> i < 2 ^ 63 then Inr (of_int i) else Inl JsonPrecondition
      | _ \<Rightarrow> Inl JsonPrecondition)"

definition jArray :: "json \<Rightarrow> json list res" where
  "jArray j = (case j of JArray vs \<Rightarrow> Inr vs | _ \<Rightarrow> Inl AssertFailed)"

section \<open>The platform\<close>

text \<open>
  Buffers are \<^typ>\<open>'b\<close>, sockets \<^typ>\<open>'s\<close> (with their incoming and outgoing data, and whatever the peer
  will do), OpenSSL keys \<^typ>\<open>'k\<close>, and the rest of the world (database, clock, random source) \<^typ>\<open>'w\<close>.
  \<open>js_parse\<close> gives \<open>JNull\<close> for text that is no JSON. A size argument that the code leaves out is
  \<^const>\<open>None\<close>.
\<close>

record 'b buffer_api =
  bb_new :: 'b
  bb_putShort :: "u16 \<Rightarrow> 'b \<Rightarrow> 'b"
  bb_putLong :: "u64 \<Rightarrow> 'b \<Rightarrow> 'b"
  bb_putString :: "string \<Rightarrow> 'b \<Rightarrow> 'b"
  js_render :: "jevent list \<Rightarrow> string"
  js_parse :: "string \<Rightarrow> json"

record ('b, 's) socket_api = "'b buffer_api" +
  so_hasError :: "'s \<Rightarrow> bool"
  so_setError :: "'s \<Rightarrow> 's"
  so_isConnected :: "'s \<Rightarrow> bool"
  so_connect :: "'s \<Rightarrow> 's"
  so_disconnect :: "'s \<Rightarrow> 's"
  so_hasActivity :: "'s \<Rightarrow> bool \<times> 's"
  so_waitForActivity :: "nat option \<Rightarrow> 's \<Rightarrow> bool \<times> 's"
  so_recv :: "nat option \<Rightarrow> 's \<Rightarrow> int \<times> 's"
  so_send :: "'s \<Rightarrow> int \<times> 's"
  so_clear :: "'s \<Rightarrow> 's"
  so_put :: "'b \<Rightarrow> 's \<Rightarrow> 's"
  so_putShort :: "u16 \<Rightarrow> 's \<Rightarrow> 's"
  so_getShort :: "'s \<Rightarrow> u16 \<times> 's"
  so_getLong :: "'s \<Rightarrow> u64 \<times> 's"
  so_getStringByLength :: "u16 \<Rightarrow> 's \<Rightarrow> string \<times> 's"

text \<open>
  \<open>Version\<close> is generated by the build. A query or update of the database takes the world and gives
  the world after it; \<open>db_load_player\<close> is \<^const>\<open>None\<close> where ODB throws \<open>object_not_persistent\<close>.
  \<open>db_persist_location\<close> gives the new row's id. An OpenSSL operation that reports an error is \<^const>\<open>None\<close>,
  and so is a file that cannot be opened or a map that cannot be parsed. A key is read into a pointer, which the call
  may set: reading may leave the object, replace it, or free it and set the pointer to null. \<open>fs_list\<close> gives the entries of a directory, each path with its extension. An MD5 digest is 16 bytes, most significant first.
\<close>

record ('b, 's, 'k, 'w) platform = "('b, 's) socket_api" +
  Version_versionString :: string
  Version_gitHash :: string
  ssl_MD5 :: "string \<Rightarrow> 128 word"
  ssl_PBKDF2_SHA256 :: "string \<Rightarrow> u8 list \<Rightarrow> u32 \<Rightarrow> nat \<Rightarrow> u8 list"
  ssl_RAND_bytes :: "nat \<Rightarrow> 'w \<Rightarrow> u8 list option \<times> 'w"
  ssl_RSA_new :: "'k option"
  ssl_PEM_read_public :: "string \<Rightarrow> 'k option"
  ssl_PEM_read_private_into :: "string \<Rightarrow> 'k option \<Rightarrow> 'k option"
  ssl_PEM_read_public_into :: "string \<Rightarrow> 'k option \<Rightarrow> 'k option"
  ssl_generate_key :: "nat \<Rightarrow> nat \<Rightarrow> 'w \<Rightarrow> 'k option \<times> 'w"
  ssl_PEM_write_private :: "'k \<Rightarrow> string"
  ssl_PEM_write_public :: "'k \<Rightarrow> string"
  ssl_RSA_size :: "'k \<Rightarrow> nat"
  ssl_public_encrypt :: "'k \<Rightarrow> string \<Rightarrow> 'w \<Rightarrow> u8 list option \<times> 'w"
  ssl_private_decrypt :: "'k \<Rightarrow> u8 list \<Rightarrow> string option"
  ssl_private_encrypt :: "'k \<Rightarrow> string \<Rightarrow> u8 list option"
  ssl_public_decrypt :: "'k \<Rightarrow> u8 list \<Rightarrow> string option"
  fs_read :: "string \<Rightarrow> 'w \<Rightarrow> string option"
  fs_write :: "string \<Rightarrow> string \<Rightarrow> 'w \<Rightarrow> 'w"
  fs_exists :: "string \<Rightarrow> 'w \<Rightarrow> bool"
  fs_is_directory :: "string \<Rightarrow> 'w \<Rightarrow> bool"
  fs_list :: "string \<Rightarrow> 'w \<Rightarrow> (string \<times> string) list"
  tmx_parse :: "string \<Rightarrow> 'w \<Rightarrow> tmx_map option"
  rnd_getDiceRoll :: "'w \<Rightarrow> u64 \<times> 'w"
  clock_universal :: "'w \<Rightarrow> int \<times> 'w"
  db_begin :: "'w \<Rightarrow> 'w"
  db_commit :: "'w \<Rightarrow> 'w"
  db_rollback :: "'w \<Rightarrow> 'w"
  db_players_by_username :: "string \<Rightarrow> 'w \<Rightarrow> player list \<times> 'w"
  db_player_count :: "'w \<Rightarrow> nat \<times> 'w"
  db_load_player :: "u64 \<Rightarrow> 'w \<Rightarrow> player option \<times> 'w"
  db_update_player :: "player \<Rightarrow> 'w \<Rightarrow> 'w"
  db_persist_player :: "player \<Rightarrow> 'w \<Rightarrow> 'w"
  db_characters_of_player :: "u64 \<Rightarrow> 'w \<Rightarrow> chara list \<times> 'w"
  db_characters_of_player_with_id :: "u64 \<Rightarrow> u64 \<Rightarrow> 'w \<Rightarrow> chara list \<times> 'w"
  db_locations_by_name :: "string \<Rightarrow> 'w \<Rightarrow> location list \<times> 'w"
  db_persist_location :: "location \<Rightarrow> 'w \<Rightarrow> u64 \<times> 'w"
  db_update_location :: "location \<Rightarrow> 'w \<Rightarrow> 'w"

section \<open>What is assumed of the libraries\<close>

text \<open>
  A JSON text is what the writer produced for a value, taken as a C string. \<open>reads_back E v\<close>: the
  parser inverts the writer on \<open>v\<close>.
\<close>

definition json_text :: "('b, 'm) buffer_api_scheme \<Rightarrow> json \<Rightarrow> string" where
  "json_text E v = c_str (js_render E (events_of v))"

definition reads_back :: "('b, 'm) buffer_api_scheme \<Rightarrow> json \<Rightarrow> bool" where
  "reads_back E v = (js_parse E (json_text E v) = v)"

text \<open>
  Byte buffers and sockets are first in, first out: \<open>content\<close> is what has been put into a buffer,
  \<open>unread\<close> what a socket's reader has not taken yet, \<open>s16\<close> the bytes of a short. A value is read back
  where its bytes come next.
\<close>

definition fifo_put :: "('b, 'm) buffer_api_scheme \<Rightarrow> ('b \<Rightarrow> string) \<Rightarrow> (u16 \<Rightarrow> string) \<Rightarrow> bool" where
  "fifo_put E content s16 =
     (content (bb_new E) = [] \<and>
      (\<forall>w b. content (bb_putShort E w b) = content b @ s16 w) \<and>
      (\<forall>x b. content (bb_putString E x b) = content b @ x))"

definition fifo_get :: "('b, 's, 'm) socket_api_scheme \<Rightarrow> ('s \<Rightarrow> string) \<Rightarrow> (u16 \<Rightarrow> string) \<Rightarrow> bool" where
  "fifo_get E unread s16 =
     ((\<forall>s w r. unread s = s16 w @ r \<longrightarrow> fst (so_getShort E s) = w \<and> unread (snd (so_getShort E s)) = r) \<and>
      (\<forall>s n x r. unread s = x @ r \<and> length x = unat n \<longrightarrow>
         fst (so_getStringByLength E n s) = x \<and> unread (snd (so_getStringByLength E n s)) = r))"

text \<open>
  \<open>sent\<close> is what has been sent on a socket so far. Where it is connected, clearing it, putting a buffer and
  sending adds the buffer's content to that; nothing else does.
\<close>

definition wire :: "('b, 's, 'm) socket_api_scheme \<Rightarrow> ('b \<Rightarrow> string) \<Rightarrow> ('s \<Rightarrow> string) \<Rightarrow> bool" where
  "wire E content sent =
     ((\<forall>s b. so_isConnected E s \<longrightarrow>
         sent (snd (so_send E (so_put E b (so_clear E s)))) = sent s @ content b) \<and>
      (\<forall>s t. sent (snd (so_waitForActivity E t s)) = sent s \<and> sent (snd (so_recv E t s)) = sent s) \<and>
      (\<forall>s n. sent (snd (so_getStringByLength E n s)) = sent s) \<and>
      (\<forall>s. sent (snd (so_getShort E s)) = sent s \<and> sent (so_clear E s) = sent s \<and> sent (so_disconnect E s) = sent s))"

end
