(* ===== verification/CxxStd.thy ===== *)
theory CxxStd imports Prelude begin

text \<open>
  The parts of the C++ standard library the program computes with: hexadecimal and decimal
  output, \<open>strtoul\<close> in base 16, \<open>std::unordered_map\<close> with \<open>emplace\<close>, \<open>find\<close> and \<open>erase\<close>, and
  \<open>std::vector\<close> with the validity of pointers to its elements.
\<close>

section \<open>Hexadecimal output\<close>

definition hex_char :: "bool \<Rightarrow> nat \<Rightarrow> char" where
  "hex_char upper n =
     (if n < 10 then char_of (48 + n) else if upper then char_of (55 + n) else char_of (87 + n))"

text \<open>
  \<open>ss << std::hex << std::setw(2) << std::setfill('0') << n\<close> for a value below 256, with or
  without \<open>std::uppercase\<close>.
\<close>

definition put_hex2 :: "bool \<Rightarrow> nat \<Rightarrow> string" where
  "put_hex2 upper n = [hex_char upper (n div 16), hex_char upper (n mod 16)]"

section \<open>strtoul in base 16\<close>

definition hex_value :: "char \<Rightarrow> nat option" where
  "hex_value c =
     (let n = of_char c :: nat in
      if 48 \<le> n \<and> n \<le> 57 then Some (n - 48)
      else if 65 \<le> n \<and> n \<le> 70 then Some (n - 55)
      else if 97 \<le> n \<and> n \<le> 102 then Some (n - 87)
      else None)"

definition is_space :: "char \<Rightarrow> bool" where
  "is_space c = (let n = of_char c :: nat in n = 32 \<or> (9 \<le> n \<and> n \<le> 13))"

fun hex_digits_value :: "string \<Rightarrow> nat \<Rightarrow> nat" where
  "hex_digits_value [] acc = acc"
| "hex_digits_value (c # cs) acc =
     (case hex_value c of None \<Rightarrow> acc | Some d \<Rightarrow> hex_digits_value cs (acc * 16 + d))"

fun strip_sign :: "string \<Rightarrow> bool \<times> string" where
  "strip_sign [] = (False, [])"
| "strip_sign (c # cs) =
     (if c = CHR ''-'' then (True, cs) else if c = CHR ''+'' then (False, cs) else (False, c # cs))"

fun strip_0x :: "string \<Rightarrow> string" where
  "strip_0x (a # x # d # cs) =
     (if a = CHR ''0'' \<and> (x = CHR ''x'' \<or> x = CHR ''X'') \<and> hex_value d \<noteq> None then d # cs
      else a # x # d # cs)"
| "strip_0x s = s"

text \<open>
  Leading white space, one sign, an optional \<open>0x\<close> in front of a digit, then the digits; no
  digits give 0, a value out of range gives \<open>ULONG_MAX\<close>, a minus sign negates in the unsigned
  type.
\<close>

definition strtoul16 :: "string \<Rightarrow> u64" where
  "strtoul16 s =
     (let (neg, body) = strip_sign (dropWhile is_space (c_str s));
          n = hex_digits_value (strip_0x body) 0
      in if 2 ^ 64 \<le> n then - 1 else if neg then - of_nat n else of_nat n)"

lemma hex_value_hex_char [simp]: "n < 16 \<Longrightarrow> hex_value (hex_char u n) = Some n"
  by (auto simp: hex_value_def hex_char_def Let_def)

lemma hex_char_ne:
  assumes "n < 16"
  shows "hex_char u n \<noteq> CHR 0x00" "\<not> is_space (hex_char u n)"
    "hex_char u n \<noteq> CHR ''-''" "hex_char u n \<noteq> CHR ''+''"
    "hex_char u n \<noteq> CHR ''x''" "hex_char u n \<noteq> CHR ''X''"
proof -
  have v: "hex_value (hex_char u n) = Some n" using assms by simp
  show "hex_char u n \<noteq> CHR 0x00" "hex_char u n \<noteq> CHR ''-''" "hex_char u n \<noteq> CHR ''+''"
    "hex_char u n \<noteq> CHR ''x''" "hex_char u n \<noteq> CHR ''X''"
    using v by (auto simp: hex_value_def)
  show "\<not> is_space (hex_char u n)"
    using v by (auto simp: hex_value_def is_space_def Let_def split: if_splits)
qed

lemma strtoul16_put_hex2:
  assumes "n < 256"
  shows "strtoul16 (put_hex2 u n) = of_nat n"
proof -
  have hi: "n div 16 < 16" and lo: "n mod 16 < 16" using assms by auto
  note ne = hex_char_ne [OF hi, of u] hex_char_ne [OF lo, of u]
  have digits: "hex_digits_value [hex_char u (n div 16), hex_char u (n mod 16)] 0 = n"
    using hi lo by simp
  have "c_str (put_hex2 u n) = put_hex2 u n"
    using ne by (simp add: put_hex2_def c_str_def)
  then show ?thesis
    using ne digits assms by (simp add: strtoul16_def put_hex2_def Let_def)
qed

section \<open>Decimal output\<close>

text \<open>\<open>std::to_string\<close> of an unsigned value.\<close>

fun dec_string :: "nat \<Rightarrow> string" where
  "dec_string n =
     (if n < 10 then [char_of (48 + n)] else dec_string (n div 10) @ [char_of (48 + n mod 10)])"

declare dec_string.simps [simp del]

definition is_digit :: "char \<Rightarrow> bool" where
  "is_digit c = (48 \<le> (of_char c :: nat) \<and> (of_char c :: nat) \<le> 57)"

lemma dec_string_digits: "list_all is_digit (dec_string n)"
proof (induction n rule: dec_string.induct)
  case (1 n)
  have d: "is_digit (char_of (48 + m))" if "m < 10" for m :: nat
    using that by (simp add: is_digit_def)
  show ?case
  proof (cases "n < 10")
    case True
    then show ?thesis using d by (subst dec_string.simps) simp
  next
    case False
    then show ?thesis using 1 d by (subst dec_string.simps) simp
  qed
qed

lemma dec_string_ne [simp]: "dec_string n \<noteq> []"
  by (subst dec_string.simps) simp

section \<open>std::unordered_map\<close>

definition um_find :: "('k \<rightharpoonup> 'v) \<Rightarrow> 'k \<Rightarrow> 'v option" where
  "um_find m k = m k"

text \<open>\<open>emplace\<close> leaves an entry that is already there.\<close>

definition um_emplace :: "'k \<Rightarrow> 'v \<Rightarrow> ('k \<rightharpoonup> 'v) \<Rightarrow> ('k \<rightharpoonup> 'v)" where
  "um_emplace k v m = (if m k = None then m(k \<mapsto> v) else m)"

definition um_erase :: "'k \<Rightarrow> ('k \<rightharpoonup> 'v) \<Rightarrow> ('k \<rightharpoonup> 'v)" where
  "um_erase k m = m(k := None)"

text \<open>
  The interface the servers rely on when they index sessions, maps and map servers by name: a
  lookup finds the first value emplaced under a key since the key was last erased.
\<close>

locale emplace_index =
  fixes lookup :: "'m \<Rightarrow> 'k \<Rightarrow> 'v option"
    and emplace :: "'k \<Rightarrow> 'v \<Rightarrow> 'm \<Rightarrow> 'm"
    and erase :: "'k \<Rightarrow> 'm \<Rightarrow> 'm"
  assumes lookup_emplace:
      "lookup (emplace k v m) k' = (if k' = k \<and> lookup m k = None then Some v else lookup m k')"
    and lookup_erase: "lookup (erase k m) k' = (if k' = k then None else lookup m k')"
begin

lemma keeps_old: "lookup m k = Some v \<Longrightarrow> lookup (emplace k' v' m) k = Some v"
  by (auto simp: lookup_emplace)

lemma adds_new: "lookup m k = None \<Longrightarrow> lookup (emplace k v m) k = Some v"
  by (simp add: lookup_emplace)

lemma lookup_emplace_many:
  "lookup (fold (\<lambda>(k, v). emplace k v) kvs m) k =
     (case lookup m k of Some v \<Rightarrow> Some v | None \<Rightarrow> map_of kvs k)"
proof (induction kvs arbitrary: m)
  case (Cons kv kvs)
  then show ?case
    by (cases kv) (auto simp: lookup_emplace split: option.split)
qed (simp split: option.split)

lemma present_after_many:
  "k \<in> fst ` set kvs \<Longrightarrow> lookup (fold (\<lambda>(k, v). emplace k v) kvs m) k \<noteq> None"
  by (cases "map_of kvs k") (simp_all add: lookup_emplace_many map_of_eq_None_iff split: option.split)

end

interpretation um: emplace_index um_find um_emplace um_erase
  by unfold_locales (auto simp: um_find_def um_emplace_def um_erase_def)

section \<open>std::vector and pointers to its elements\<close>

text \<open>
  A vector is its elements, its capacity and the number of the allocation that holds them. A
  pointer to an element is that number and an index: it is valid while the vector has not been
  reallocated. \<open>emplace_back\<close> on a full vector moves the elements to a larger allocation.
\<close>

record 'a vec =
  v_elems :: "'a list"
  v_cap :: nat
  v_gen :: nat

type_synonym vec_ptr = "nat \<times> nat"

definition vec_empty :: "'a vec" where
  "vec_empty = \<lparr>v_elems = [], v_cap = 0, v_gen = 0\<rparr>"

definition vec_reserve :: "nat \<Rightarrow> 'a vec \<Rightarrow> 'a vec" where
  "vec_reserve n v = (if v_cap v < n then v\<lparr>v_cap := n, v_gen := Suc (v_gen v)\<rparr> else v)"

definition vec_emplace_back :: "'a \<Rightarrow> 'a vec \<Rightarrow> 'a vec" where
  "vec_emplace_back x v =
     (if length (v_elems v) < v_cap v then v\<lparr>v_elems := v_elems v @ [x]\<rparr>
      else \<lparr>v_elems = v_elems v @ [x], v_cap = max (Suc (v_cap v)) (2 * v_cap v),
            v_gen = Suc (v_gen v)\<rparr>)"

definition vec_back_ptr :: "'a vec \<Rightarrow> vec_ptr" where
  "vec_back_ptr v = (v_gen v, length (v_elems v) - 1)"

definition vec_valid :: "'a vec \<Rightarrow> vec_ptr \<Rightarrow> bool" where
  "vec_valid v p = (fst p = v_gen v \<and> snd p < length (v_elems v))"

definition vec_deref :: "'a vec \<Rightarrow> vec_ptr \<Rightarrow> 'a res" where
  "vec_deref v p = (if vec_valid v p then Inr (v_elems v ! snd p) else Inl DanglingPointer)"

lemma vec_elems_emplace_back [simp]: "v_elems (vec_emplace_back x v) = v_elems v @ [x]"
  by (simp add: vec_emplace_back_def)

lemma vec_elems_reserve [simp]: "v_elems (vec_reserve n v) = v_elems v"
  by (simp add: vec_reserve_def)

lemma vec_cap_reserve: "n \<le> v_cap (vec_reserve n v)"
  by (simp add: vec_reserve_def)

lemma vec_valid_back [simp]: "vec_valid (vec_emplace_back x v) (vec_back_ptr (vec_emplace_back x v))"
  by (simp add: vec_valid_def vec_back_ptr_def)

lemma vec_deref_back: "vec_deref (vec_emplace_back x v) (vec_back_ptr (vec_emplace_back x v)) = Inr x"
  by (simp add: vec_deref_def) (simp add: vec_back_ptr_def)

text \<open>Within the reserved capacity every pointer stays valid and still points to its element.\<close>

lemma vec_emplace_back_within_cap:
  assumes "length (v_elems v) < v_cap v" "vec_valid v p"
  shows "vec_valid (vec_emplace_back x v) p" "vec_deref (vec_emplace_back x v) p = vec_deref v p"
  using assms by (auto simp: vec_emplace_back_def vec_valid_def vec_deref_def nth_append)

lemma vec_emplace_back_full:
  "\<not> length (v_elems v) < v_cap v \<Longrightarrow> vec_valid v p \<Longrightarrow> vec_deref (vec_emplace_back x v) p = Inl DanglingPointer"
  by (auto simp: vec_emplace_back_def vec_valid_def vec_deref_def)

end
