(* ===== verification/ByteUtil.thy ===== *)
theory ByteUtil imports CxxStd begin

text \<open>
  Bytes as hexadecimal text: \<open>ByteArrayUtil\<close> (src/util/Util.cpp), which writes passwords into
  JSON and digests into session keys, and the conversions of \<open>SHACrypto\<close>
  (include/net/crypto/SHACrypto.hpp, src/net/crypto/SHACrypto.cpp), which write salts and password
  hashes into the database. Both meet the interface \<open>byte_text\<close>.
\<close>

section \<open>ByteArrayUtil\<close>

text \<open>One pass of the loop body: \<open>static_cast<uint16_t>(c) & 0xFF\<close>, two lower-case digits.\<close>

fun byteVectorToString :: "u8 list \<Rightarrow> string" where
  "byteVectorToString [] = []"
| "byteVectorToString (c # vec) =
     put_hex2 False (unat (and (ucast c :: u16) 0xFF)) @ byteVectorToString vec"

text \<open>
  \<open>byteArrayToString(array, count)\<close> reads \<open>count\<close> bytes from a raw pointer; the array is the bytes
  that may be read from it.
\<close>

definition byteArrayToString :: "u8 list \<Rightarrow> nat \<Rightarrow> string res" where
  "byteArrayToString arr count =
     (if count \<le> length arr
      then Inr (concat (map (\<lambda>i. put_hex2 False (unat (and (ucast (arr ! i) :: u16) 0xFF))) [0..<count]))
      else Inl OutOfBounds)"

text \<open>The loop over \<open>i = 0, 2, 4, ...\<close>; \<open>str.substr(i, 2)\<close> has one character at an odd end.\<close>

fun hexPairs :: "string \<Rightarrow> u8 list" where
  "hexPairs [] = []"
| "hexPairs [a] = [ucast (and (strtoul16 [a]) 0xFF)]"
| "hexPairs (a # b # s) = ucast (and (strtoul16 [a, b]) 0xFF) # hexPairs s"

definition hexStringToByteVector :: "string \<Rightarrow> u8 list res" where
  "hexStringToByteVector str =
     (if length str mod 2 = 0 then Inr (hexPairs str) else Inl AssertFailed)"

section \<open>The conversions of SHACrypto\<close>

fun bytesToString :: "u8 list \<Rightarrow> string" where
  "bytesToString [] = []"
| "bytesToString (b # bs) = put_hex2 True (unat b) @ bytesToString bs"

definition DIGEST_BYTES :: nat where
  "DIGEST_BYTES = 32"

definition DEFAULT_SALT_BYTES :: nat where
  "DEFAULT_SALT_BYTES = 16"

definition sha256ToString :: "u8 list \<Rightarrow> string" where
  "sha256ToString sha256 = bytesToString sha256"

definition saltToString :: "u8 list \<Rightarrow> string" where
  "saltToString salt = bytesToString salt"

definition hexByteAt :: "string \<Rightarrow> nat \<Rightarrow> u8" where
  "hexByteAt str i = ucast (strtoul16 (take 2 (drop (i * 2) str)))"

text \<open>A string that is too short is logged and gives the array as it was allocated, \<open>uninit\<close>.\<close>

definition stringToSHA256 :: "u8 list \<Rightarrow> string \<Rightarrow> u8 list" where
  "stringToSHA256 uninit str =
     (if length str < DIGEST_BYTES * 2 then uninit else map (hexByteAt str) [0..<DIGEST_BYTES])"

definition stringToSalt :: "string \<Rightarrow> u8 list" where
  "stringToSalt str =
     (if length str mod 2 \<noteq> 0 then [] else map (hexByteAt str) [0..<length str div 2])"

section \<open>Bytes as text\<close>

locale byte_text =
  fixes render :: "u8 list \<Rightarrow> string"
    and read :: "string \<Rightarrow> u8 list res"
  assumes read_render: "read (render bs) = Inr bs"
    and length_render: "length (render bs) = 2 * length bs"
    and nul_free_render: "nul_free (render bs)"
begin

lemma render_eq_iff: "render bs = render cs \<longleftrightarrow> bs = cs"
  using read_render sum.inject(2) by metis

lemma read_c_str: "read (c_str (render bs)) = Inr bs"
  by (simp add: nul_free_render read_render)

lemma render_Nil_iff: "render bs = [] \<longleftrightarrow> bs = []"
  using length_render [of bs] by auto

end

lemma mask_byte_u16 [simp]: "unat (and (ucast (c :: u8) :: u16) 0xFF) = unat c"
proof -
  have "and (ucast c :: u16) (mask 8) = ucast c"
    by (simp flip: take_bit_eq_mask) (rule bit_word_eqI, auto simp: bit_simps dest: bit_imp_le_length)
  then have "and (ucast c :: u16) 0xFF = of_nat (unat c)"
    by (simp add: mask_eq_exp_minus_1)
  moreover have "unat c < 65536" using u8_unat_lt [of c] by linarith
  moreover have "unat (of_nat (unat c) :: u16) = unat c mod 2 ^ 16"
    by (subst unat_of_nat) simp
  ultimately show ?thesis by (simp del: of_nat_unat)
qed

lemma ucast_u64_byte: "n < 256 \<Longrightarrow> (ucast (of_nat n :: u64) :: u8) = of_nat n"
  by (simp add: unsigned_of_nat take_bit_nat_eq_self)

lemma low_byte_of_nat:
  assumes "n < 256"
  shows "(ucast (and (of_nat n :: u64) 0xFF) :: u8) = of_nat n"
proof -
  have "and (of_nat n :: u64) (mask 8) = of_nat n"
    using assms by (simp flip: take_bit_eq_mask add: take_bit_eq_mod mod_word_less word_less_nat_alt)
  then show ?thesis
    using assms by (simp add: mask_eq_exp_minus_1 ucast_u64_byte)
qed

lemma hex_byte_back [simp]:
  "(ucast (and (strtoul16 (put_hex2 u (unat (c :: u8)))) 0xFF) :: u8) = c"
  "(ucast (strtoul16 (put_hex2 u (unat (c :: u8)))) :: u8) = c"
proof -
  have eq: "strtoul16 (put_hex2 u (unat c)) = of_nat (unat c)"
    by (rule strtoul16_put_hex2) simp
  show "(ucast (and (strtoul16 (put_hex2 u (unat c))) 0xFF) :: u8) = c"
    by (subst eq, subst low_byte_of_nat) simp_all
  show "(ucast (strtoul16 (put_hex2 u (unat c))) :: u8) = c"
    by (subst eq, subst ucast_u64_byte) simp_all
qed

lemma length_put_hex2 [simp]: "length (put_hex2 u n) = 2"
  by (simp add: put_hex2_def)

lemma nul_free_put_hex2: "n < 256 \<Longrightarrow> nul_free (put_hex2 u n)"
  using hex_char_ne(1) [of "n div 16" u] hex_char_ne(1) [of "n mod 16" u]
  by (simp add: put_hex2_def nul_free_def)

lemma nul_free_append [simp]: "nul_free (s @ t) \<longleftrightarrow> nul_free s \<and> nul_free t"
  by (simp add: nul_free_def)

lemma length_byteVectorToString: "length (byteVectorToString bs) = 2 * length bs"
  by (induction bs) auto

lemma hexPairs_put_hex2 [simp]: "hexPairs (put_hex2 u (unat c) @ s) = c # hexPairs s"
  using hex_byte_back(1) [of u c] by (simp add: put_hex2_def)

lemma hexPairs_byteVectorToString: "hexPairs (byteVectorToString bs) = bs"
  by (induction bs) auto

interpretation bau: byte_text byteVectorToString hexStringToByteVector
proof
  fix bs
  show "hexStringToByteVector (byteVectorToString bs) = Inr bs"
    by (simp add: hexStringToByteVector_def length_byteVectorToString hexPairs_byteVectorToString)
  show "length (byteVectorToString bs) = 2 * length bs"
    by (rule length_byteVectorToString)
  show "nul_free (byteVectorToString bs)"
    by (induction bs) (auto simp: nul_free_put_hex2)
qed

lemma length_bytesToString: "length (bytesToString bs) = 2 * length bs"
  by (induction bs) auto

lemma hexByteAt_append_even: "length pre = 2 * k \<Longrightarrow> hexByteAt (pre @ s) (k + i) = hexByteAt s i"
  by (simp add: hexByteAt_def)

lemma hexBytes_bytesToString: "map (hexByteAt (bytesToString bs)) [0..<length bs] = bs"
proof (induction bs)
  case (Cons b bs)
  have "map (hexByteAt (bytesToString (b # bs))) [0..<length (b # bs)]
        = hexByteAt (bytesToString (b # bs)) 0 #
          map (\<lambda>i. hexByteAt (put_hex2 True (unat b) @ bytesToString bs) (1 + i)) [0..<length bs]"
    by (simp add: upt_conv_Cons map_Suc_upt [symmetric] comp_def del: upt_Suc)
  also have "\<dots> = b # map (hexByteAt (bytesToString bs)) [0..<length bs]"
    by (subst hexByteAt_append_even) (simp_all add: hexByteAt_def)
  finally show ?case using Cons by simp
qed simp

interpretation salt: byte_text saltToString "\<lambda>s. Inr (stringToSalt s)"
proof
  fix bs
  show "Inr (stringToSalt (saltToString bs)) = Inr bs"
    by (simp add: stringToSalt_def saltToString_def length_bytesToString hexBytes_bytesToString)
  show "length (saltToString bs) = 2 * length bs"
    by (simp add: saltToString_def length_bytesToString)
  show "nul_free (saltToString bs)"
    unfolding saltToString_def by (induction bs) (auto simp: nul_free_put_hex2)
qed

end
