(* ===== verification/Crypto.thy ===== *)
theory Crypto imports Platform ByteUtil begin

text \<open>
  \<open>SHACrypto\<close> and \<open>RSACrypto\<close> (include/net/crypto, src/net/crypto) over the primitives of OpenSSL.
  A key pair that could not be loaded is a null pointer; the OpenSSL calls dereference it. Errors
  that the code only logs leave no trace in the model.
\<close>

section \<open>MD5 digests\<close>

definition md5_bytes :: "128 word \<Rightarrow> u8 list" where
  "md5_bytes d = map (\<lambda>i. ucast (drop_bit (8 * (15 - i)) d)) [0..<16]"

lemma length_md5_bytes [simp]: "length (md5_bytes d) = 16"
  by (simp add: md5_bytes_def)

section \<open>SHACrypto\<close>

record sha_crypto =
  iterationCount :: u64

text \<open>The iteration count is an \<open>int\<close> for OpenSSL.\<close>

definition hashPasswordSHA256 ::
  "('b, 's, 'k, 'w, 'm) platform_scheme \<Rightarrow> sha_crypto \<Rightarrow> string \<Rightarrow> u8 list \<Rightarrow> u8 list" where
  "hashPasswordSHA256 E h password salt =
     ssl_PBKDF2_SHA256 E password salt (ucast (iterationCount h)) DIGEST_BYTES"

definition generateSalt :: "('b, 's, 'k, 'w, 'm) platform_scheme \<Rightarrow> nat \<Rightarrow> 'w \<Rightarrow> u8 list \<times> 'w" where
  "generateSalt E bytes w =
     (case ssl_RAND_bytes E bytes w of
        (None, w') \<Rightarrow> ([], w')
      | (Some buffer, w') \<Rightarrow> (buffer, w'))"

section \<open>RSACrypto\<close>

record 'k rsa_crypto =
  rc_privateKey :: string
  rc_publicKey :: string
  rc_keyPair :: "'k option"
  rc_pubKeyLength :: nat
  rc_priKeyLength :: nat
  rc_hasPubKey :: bool
  rc_hasPriKey :: bool

definition KEY_LENGTH :: nat where "KEY_LENGTH = 4096"
definition KEY_EXPONENT :: nat where "KEY_EXPONENT = 3"

text \<open>From a public key in PEM form; the buffer given to OpenSSL ends at a NUL.\<close>

definition RSACrypto_public ::
  "('b, 's, 'k, 'w, 'm) platform_scheme \<Rightarrow> string \<Rightarrow> 'k rsa_crypto" where
  "RSACrypto_public E publicKey =
     \<lparr>rc_privateKey = [], rc_publicKey = publicKey,
      rc_keyPair = ssl_PEM_read_public E (c_str publicKey),
      rc_pubKeyLength = length publicKey, rc_priKeyLength = 0,
      rc_hasPubKey = True, rc_hasPriKey = False\<rparr>"

text \<open>
  From both keys. \<open>RSA_check_key\<close> dereferences the key, so an object that reading has freed ends the program; a
  pair that only fails the check is logged and kept.
\<close>

definition RSACrypto_pair ::
  "('b, 's, 'k, 'w, 'm) platform_scheme \<Rightarrow> string \<Rightarrow> string \<Rightarrow> 'k rsa_crypto res" where
  "RSACrypto_pair E pubKey priKey =
     (let rsa = ssl_PEM_read_public_into E pubKey (ssl_PEM_read_private_into E priKey (ssl_RSA_new E)) in
      andThen (deref NullDeref rsa) (\<lambda>_.
      Inr \<lparr>rc_privateKey = priKey, rc_publicKey = pubKey, rc_keyPair = rsa,
           rc_pubKeyLength = length pubKey, rc_priKeyLength = length priKey,
           rc_hasPubKey = True, rc_hasPriKey = True\<rparr>))"

text \<open>A fresh pair.\<close>

definition RSACrypto_generate ::
  "('b, 's, 'k, 'w, 'm) platform_scheme \<Rightarrow> 'w \<Rightarrow> ('k rsa_crypto \<times> 'w) res" where
  "RSACrypto_generate E w =
     (let (key, w') = ssl_generate_key E KEY_LENGTH KEY_EXPONENT w in
      andThen (deref NullDeref key) (\<lambda>k.
      let pri = ssl_PEM_write_private E k; pub = ssl_PEM_write_public E k in
      Inr (\<lparr>rc_privateKey = pri, rc_publicKey = pub, rc_keyPair = Some k,
            rc_pubKeyLength = length pub, rc_priKeyLength = length pri,
            rc_hasPubKey = True, rc_hasPriKey = True\<rparr>, w')))"

text \<open>The result is the whole zero-initialised buffer of \<open>RSA_size\<close> bytes.\<close>

definition rsa_buffer :: "nat \<Rightarrow> u8 list \<Rightarrow> u8 list" where
  "rsa_buffer bufSize out = take bufSize (out @ replicate bufSize 0)"

definition encryptStringPublic ::
  "('b, 's, 'k, 'w, 'm) platform_scheme \<Rightarrow> 'k rsa_crypto \<Rightarrow> string \<Rightarrow> 'w \<Rightarrow> (u8 list \<times> 'w) res" where
  "encryptStringPublic E c str w =
     andThen (deref NullDeref (rc_keyPair c)) (\<lambda>key.
     if \<not> rc_hasPubKey c then Inr ([], w)
     else (case ssl_public_encrypt E key str w of
         (None, w') \<Rightarrow> Inr ([], w')
       | (Some out, w') \<Rightarrow> Inr (rsa_buffer (ssl_RSA_size E key) out, w')))"

definition decryptStringPrivate ::
  "('b, 's, 'k, 'w, 'm) platform_scheme \<Rightarrow> 'k rsa_crypto \<Rightarrow> u8 list \<Rightarrow> string res" where
  "decryptStringPrivate E c encStr =
     (if \<not> rc_hasPriKey c then Inr []
      else andThen (deref NullDeref (rc_keyPair c)) (\<lambda>key.
        case ssl_private_decrypt E key encStr of None \<Rightarrow> Inr [] | Some str \<Rightarrow> Inr str))"

definition signStringPrivate ::
  "('b, 's, 'k, 'w, 'm) platform_scheme \<Rightarrow> 'k rsa_crypto \<Rightarrow> string \<Rightarrow> u8 list res" where
  "signStringPrivate E c str =
     andThen (deref NullDeref (rc_keyPair c)) (\<lambda>key.
     if \<not> rc_hasPriKey c then Inr []
     else (case ssl_private_encrypt E key str of
         None \<Rightarrow> Inr []
       | Some out \<Rightarrow> Inr (rsa_buffer (ssl_RSA_size E key) out)))"

definition unsignStringPublic ::
  "('b, 's, 'k, 'w, 'm) platform_scheme \<Rightarrow> 'k rsa_crypto \<Rightarrow> u8 list \<Rightarrow> string res" where
  "unsignStringPublic E c encStr =
     (if \<not> rc_hasPubKey c then Inr []
      else andThen (deref NullDeref (rc_keyPair c)) (\<lambda>key.
        case ssl_public_decrypt E key encStr of None \<Rightarrow> Inr [] | Some str \<Rightarrow> Inr str))"

definition verifyStringPublic ::
  "('b, 's, 'k, 'w, 'm) platform_scheme \<Rightarrow> 'k rsa_crypto \<Rightarrow> u8 list \<Rightarrow> string \<Rightarrow> bool res" where
  "verifyStringPublic E c vec expected =
     andThen (unsignStringPublic E c vec) (\<lambda>deSignedString. Inr (deSignedString = expected))"

definition writePublicKeyFile ::
  "('b, 's, 'k, 'w, 'm) platform_scheme \<Rightarrow> 'k rsa_crypto \<Rightarrow> string \<Rightarrow> 'w \<Rightarrow> 'w" where
  "writePublicKeyFile E c filename w = fs_write E filename (rc_publicKey c) w"

definition writePrivateKeyFile ::
  "('b, 's, 'k, 'w, 'm) platform_scheme \<Rightarrow> 'k rsa_crypto \<Rightarrow> string \<Rightarrow> 'w \<Rightarrow> 'w" where
  "writePrivateKeyFile E c filename w = fs_write E filename (rc_privateKey c) w"

definition fromFiles ::
  "('b, 's, 'k, 'w, 'm) platform_scheme \<Rightarrow> string \<Rightarrow> string \<Rightarrow> 'w \<Rightarrow> 'k rsa_crypto option res" where
  "fromFiles E pubKeyFile priKeyFile w =
     (case fs_read E pubKeyFile w of
        None \<Rightarrow> Inr None
      | Some publicKey \<Rightarrow>
          (case fs_read E priKeyFile w of
             None \<Rightarrow> Inr None
           | Some privateKey \<Rightarrow> mapRes Some (RSACrypto_pair E publicKey privateKey)))"

section \<open>Facts\<close>

text \<open>An object built from both keys or from files can be used without a null dereference.\<close>

definition usable :: "'k rsa_crypto \<Rightarrow> bool" where
  "usable c = (rc_keyPair c \<noteq> None)"

lemma usable_pair: "RSACrypto_pair E pub pri = Inr c \<Longrightarrow> usable c"
  by (auto simp: usable_def RSACrypto_pair_def andThen_eq_Inr deref_eq_Inr Let_def)

lemma RSACrypto_pair_Inl: "RSACrypto_pair E pub pri = Inl e \<Longrightarrow> e = NullDeref"
  by (auto simp: RSACrypto_pair_def andThen_eq_Inl deref_def Let_def split: option.splits)

lemma usable_fromFiles: "fromFiles E p q w = Inr (Some c) \<Longrightarrow> usable c"
  by (auto simp: fromFiles_def mapRes_def andThen_eq_Inr dest: usable_pair split: option.splits)

lemma fromFiles_Inl: "fromFiles E p q w = Inl e \<Longrightarrow> e = NullDeref"
  by (auto simp: fromFiles_def mapRes_def andThen_eq_Inl dest: RSACrypto_pair_Inl split: option.splits)

lemma usable_generate: "RSACrypto_generate E w = Inr (c, w') \<Longrightarrow> usable c"
  by (auto simp: RSACrypto_generate_def usable_def andThen_eq_Inr Let_def split: prod.splits)

lemma decrypt_total: "usable c \<Longrightarrow> \<exists>s. decryptStringPrivate E c v = Inr s"
  by (auto simp: decryptStringPrivate_def usable_def split: option.splits)

lemma encrypt_total: "usable c \<Longrightarrow> \<exists>r. encryptStringPublic E c s w = Inr r"
  by (auto simp: encryptStringPublic_def usable_def split: option.splits prod.splits)

lemma length_rsa_buffer [simp]: "length (rsa_buffer n out) = n"
  by (simp add: rsa_buffer_def)

lemma rsa_buffer_exact: "length out = n \<Longrightarrow> rsa_buffer n out = out"
  by (simp add: rsa_buffer_def)

end
