(* ===== verification/PlayerSession.thy ===== *)
theory PlayerSession imports Crypto begin

text \<open>
  A logged-in player (include/net/PlayerSession.hpp, src/net/PlayerSession.cpp): its identity, its
  socket and a session key, the MD5 of the user name and a random number as lower-case
  hexadecimal text.
\<close>

definition generateSessionKey ::
  "('b, 's, 'k, 'w, 'm) platform_scheme \<Rightarrow> string \<Rightarrow> u64 \<Rightarrow> string res" where
  "generateSessionKey E username key =
     (let combinedString = username @ dec_string (unat key);
          buffer = md5_bytes (ssl_MD5 E combinedString)
      in byteArrayToString buffer 16)"

record 's player_session =
  ps_playerID :: u64
  ps_username :: string
  ps_sessionKey :: string
  ps_characterID :: u64
  ps_guid :: u64
  ps_socket :: 's
  ps_authenticated :: bool

text \<open>
  The constructor; the static \<open>nextGUID\<close> is passed in and given back incremented, and the random
  roll changes the world.
\<close>

definition PlayerSession_new ::
  "('b, 's, 'k, 'w, 'm) platform_scheme \<Rightarrow> u64 \<Rightarrow> string \<Rightarrow> 's \<Rightarrow> u64 \<Rightarrow> 'w
     \<Rightarrow> ('s player_session \<times> u64 \<times> 'w) res" where
  "PlayerSession_new E playerID username socket nextGUID w =
     (let (roll, w') = rnd_getDiceRoll E w in
      andThen (generateSessionKey E username roll) (\<lambda>sessionKey.
      Inr (\<lparr>ps_playerID = playerID, ps_username = username, ps_sessionKey = sessionKey,
             ps_characterID = 0, ps_guid = nextGUID, ps_socket = socket, ps_authenticated = False\<rparr>,
           nextGUID + 1, w')))"

lemma byteArrayToString_whole: "byteArrayToString bs (length bs) = Inr (byteVectorToString bs)"
proof -
  have "map (\<lambda>i. put_hex2 False (unat (and (ucast (bs ! i) :: u16) 0xFF))) [0..<length bs]
        = map (\<lambda>b. put_hex2 False (unat b)) bs"
    by (rule nth_equalityI) simp_all
  moreover have "concat (map (\<lambda>b. put_hex2 False (unat b)) cs) = byteVectorToString cs" for cs :: "u8 list"
    by (induction cs) simp_all
  ultimately show ?thesis by (simp add: byteArrayToString_def)
qed

lemma generateSessionKey_eq:
  "generateSessionKey E u k =
     Inr (byteVectorToString (md5_bytes (ssl_MD5 E (u @ dec_string (unat k)))))"
  using byteArrayToString_whole [of "md5_bytes (ssl_MD5 E (u @ dec_string (unat k)))"]
  by (simp add: generateSessionKey_def Let_def)

lemma PlayerSession_new_total:
  "\<exists>s w'. PlayerSession_new E p u so g w = Inr (s, g + 1, w')
     \<and> ps_username s = u \<and> ps_playerID s = p \<and> ps_socket s = so \<and> ps_guid s = g
     \<and> ps_characterID s = 0"
  by (simp add: PlayerSession_new_def generateSessionKey_eq split: prod.split)

end
