(* ===== verification/Floats.thy ===== *)
theory Floats imports Prelude "HOL-Library.Log_Nat" begin

text \<open>
  Single-precision arithmetic of the client. A float is the rational it stands for; every
  operation rounds its exact result to 24 significant bits, ties to even. Coordinates stay far
  from overflow and from subnormal numbers, which are not modelled.
\<close>

definition pow2 :: "int \<Rightarrow> rat" where
  "pow2 e = (if 0 \<le> e then 2 ^ nat e else 1 / 2 ^ nat (- e))"

text \<open>The exponent: the power of two at or below a positive rational.\<close>

definition exponent :: "rat \<Rightarrow> int" where
  "exponent q =
     (let (a, b) = quotient_of q; e = bitlen a - bitlen b in if pow2 e \<le> q then e else e - 1)"

definition round_even :: "rat \<Rightarrow> int" where
  "round_even q =
     (let f = \<lfloor>q\<rfloor>; r = q - of_int f
      in if r < 1 / 2 then f else if r > 1 / 2 then f + 1 else if even f then f else f + 1)"

definition fl :: "rat \<Rightarrow> rat" where
  "fl q =
     (if q = 0 then 0
      else let u = pow2 (exponent \<bar>q\<bar> - 23) in of_int (round_even (q / u)) * u)"

text \<open>
  \<open>static_cast<uint32_t>(q)\<close> drops the fraction; it is undefined unless the integer part is a
  \<open>uint32_t\<close>.
\<close>

definition to_u32 :: "rat \<Rightarrow> u32 res" where
  "to_u32 q = (if - 1 < q \<and> q < 2 ^ 32 then Inr (of_int (if 0 \<le> q then \<lfloor>q\<rfloor> else 0)) else Inl UndefinedConversion)"

lemma pow2_pos [simp]: "0 < pow2 e"
  by (simp add: pow2_def)

lemma round_even_int [simp]: "round_even (of_int n) = n"
  by (simp add: round_even_def)

lemma fl_exact: "q / pow2 (exponent \<bar>q\<bar> - 23) = of_int n \<Longrightarrow> fl q = q"
proof -
  assume n: "q / pow2 (exponent \<bar>q\<bar> - 23) = of_int n"
  then have "of_int n * pow2 (exponent \<bar>q\<bar> - 23) = q"
    using pow2_pos [of "exponent \<bar>q\<bar> - 23"] by (simp add: field_simps)
  then show ?thesis by (simp add: fl_def Let_def n)
qed

lemma exponent_int:
  assumes "0 < n"
  shows "exponent (of_int n) = bitlen n - 1"
proof -
  have "quotient_of (rat_of_int n) = (n, 1)" by (simp add: quotient_of_int)
  moreover have "bitlen 1 = 1" by (simp add: bitlen_alt_def)
  moreover have "0 \<le> bitlen n - 1" using assms by (simp add: bitlen_alt_def)
  moreover have "2 ^ nat (bitlen n - 1) \<le> n" using bitlen_bounds [OF assms] by simp
  then have "rat_of_int (2 ^ nat (bitlen n - 1)) \<le> rat_of_int n" by (simp only: of_int_le_iff)
  ultimately show ?thesis
    by (simp add: exponent_def pow2_def)
qed

text \<open>The integers up to two to the 24 are floats.\<close>

lemma fl_int:
  assumes "\<bar>n\<bar> < 2 ^ 24"
  shows "fl (of_int n) = of_int n"
proof (cases "n = 0")
  case False
  let ?e = "bitlen \<bar>n\<bar> - 1"
  have "0 < \<bar>n\<bar>" using False by simp
  then have e: "exponent \<bar>rat_of_int n\<bar> = ?e"
    using exponent_int [of "\<bar>n\<bar>"] by simp
  have "2 ^ nat ?e \<le> \<bar>n\<bar>" using bitlen_bounds [OF \<open>0 < \<bar>n\<bar>\<close>] by simp
  then have "(2::int) ^ nat ?e < 2 ^ 24" using assms by linarith
  then have "nat ?e < 24" by (rule power_less_imp_less_exp [rotated]) simp
  then have "?e - 23 \<le> 0" by simp
  then have "1 / pow2 (?e - 23) = of_int (2 ^ nat (23 - ?e))"
    by (cases "?e = 23") (simp_all add: pow2_def)
  then have "rat_of_int n / pow2 (?e - 23) = of_int (n * 2 ^ nat (23 - ?e))"
    by (metis (no_types) of_int_mult times_divide_eq_right mult.right_neutral)
  then show ?thesis by (intro fl_exact [where n = "n * 2 ^ nat (23 - ?e)"]) (simp only: e)
qed (simp add: fl_def)

lemma to_u32_int: "0 \<le> n \<Longrightarrow> n < 2 ^ 32 \<Longrightarrow> to_u32 (of_int n) = Inr (of_int n)"
proof -
  assume n: "0 \<le> n" "n < 2 ^ 32"
  then have "rat_of_int n < of_int (2 ^ 32)" by (simp only: of_int_less_iff)
  moreover have "- 1 < rat_of_int n" using n(1) by (simp add: less_le_trans [of _ 0])
  ultimately show ?thesis using n by (simp add: to_u32_def)
qed

end
