(* ===== verification/Packets.thy ===== *)
theory Packets imports Platform begin

text \<open>
  Opcodes (include/net/Opcodes.hpp), the packet base classes (include/net/Packet.hpp), the packets
  with no or a plain payload, and the frame all JSON packets share: a short with the opcode, a
  short with the length of the text, the text. The interface \<open>json_packet\<close> states what a packet's
  serialiser owes; its lemmas carry a packet through a buffer, a socket and the parser.
\<close>

section \<open>Opcodes\<close>

datatype ClientOpcode =
    LOGIN_AUTHENTICATION_IDENTITY | VERSION_MISMATCH | REQUEST_CHARACTERS | CHARACTER_SELECT | MOVE

fun client_opcode :: "ClientOpcode \<Rightarrow> u16" where
  "client_opcode LOGIN_AUTHENTICATION_IDENTITY = 0x0001"
| "client_opcode VERSION_MISMATCH = 0x0002"
| "client_opcode REQUEST_CHARACTERS = 0x0003"
| "client_opcode CHARACTER_SELECT = 0x0004"
| "client_opcode MOVE = 0x000A"

datatype ServerOpcode =
    LOGIN_AUTHENTICATION_CHALLENGE | LOGIN_AUTHENTICATION_RESPONSE
  | MAP_SERVER_REGISTRATION_REQUEST | MAP_SERVER_REGISTRATION_RESPONSE
  | MAP_SERVER_MAP_LIST | MAP_SERVER_NOT_NEEDED | MAP_SERVER_ACK
  | MAP_SERVER_CONNECTION_INSTRUCTIONS | PLAYER_CHARACTERS | NO_MAP_SERVER_ERROR
  | SERVER_PUBKEY | MALFORMED_PACKET

fun server_opcode :: "ServerOpcode \<Rightarrow> u16" where
  "server_opcode LOGIN_AUTHENTICATION_CHALLENGE = 0xFFFE"
| "server_opcode LOGIN_AUTHENTICATION_RESPONSE = 0xFFFD"
| "server_opcode MAP_SERVER_REGISTRATION_REQUEST = 0xFFFC"
| "server_opcode MAP_SERVER_REGISTRATION_RESPONSE = 0xFFFB"
| "server_opcode MAP_SERVER_MAP_LIST = 0xFFFA"
| "server_opcode MAP_SERVER_NOT_NEEDED = 0xFFF9"
| "server_opcode MAP_SERVER_ACK = 0xFFF8"
| "server_opcode MAP_SERVER_CONNECTION_INSTRUCTIONS = 0xFFF7"
| "server_opcode PLAYER_CHARACTERS = 0xFFF6"
| "server_opcode NO_MAP_SERVER_ERROR = 0xFFF5"
| "server_opcode SERVER_PUBKEY = 0xFFF4"
| "server_opcode MALFORMED_PACKET = 0xFFF3"

text \<open>The two enumerations share their underlying type; a received short is compared with both.\<close>

lemma opcodes_injective:
  "client_opcode a = client_opcode b \<longleftrightarrow> a = b" "server_opcode c = server_opcode d \<longleftrightarrow> c = d"
  "client_opcode a \<noteq> server_opcode c"
  by ((cases a; cases b; simp), (cases c; cases d; simp), (cases a; cases c; simp))

section \<open>Packets\<close>

datatype PacketType = CLIENT | SERVER

fun packet_type :: "PacketType \<Rightarrow> u8" where
  "packet_type CLIENT = 0x00"
| "packet_type SERVER = 0x01"

record 'b packet =
  pk_opcode :: u16
  pk_type :: PacketType
  pk_buffer :: 'b

definition Packet_new :: "('b, 'm) buffer_api_scheme \<Rightarrow> u16 \<Rightarrow> PacketType \<Rightarrow> 'b packet" where
  "Packet_new E opcode type =
     \<lparr>pk_opcode = opcode, pk_type = type, pk_buffer = bb_putShort E opcode (bb_new E)\<rparr>"

definition ServerPacket_new :: "('b, 'm) buffer_api_scheme \<Rightarrow> ServerOpcode \<Rightarrow> 'b packet" where
  "ServerPacket_new E opcode = Packet_new E (server_opcode opcode) SERVER"

definition ClientPacket_new :: "('b, 'm) buffer_api_scheme \<Rightarrow> ClientOpcode \<Rightarrow> 'b packet" where
  "ClientPacket_new E opcode = Packet_new E (client_opcode opcode) CLIENT"

text \<open>\<open>buffer.putShort(n)\<close> and \<open>buffer.putString(s)\<close> of a packet under construction.\<close>

definition pkShort :: "('b, 'm) buffer_api_scheme \<Rightarrow> u16 \<Rightarrow> 'b packet \<Rightarrow> 'b packet" where
  "pkShort E w p = p\<lparr>pk_buffer := bb_putShort E w (pk_buffer p)\<rparr>"

definition pkLong :: "('b, 'm) buffer_api_scheme \<Rightarrow> u64 \<Rightarrow> 'b packet \<Rightarrow> 'b packet" where
  "pkLong E w p = p\<lparr>pk_buffer := bb_putLong E w (pk_buffer p)\<rparr>"

definition pkString :: "('b, 'm) buffer_api_scheme \<Rightarrow> string \<Rightarrow> 'b packet \<Rightarrow> 'b packet" where
  "pkString E s p = p\<lparr>pk_buffer := bb_putString E s (pk_buffer p)\<rparr>"

text \<open>
  A string with its length in front: \<open>putShort(static_cast<uint16_t>(s.size())); putString(s)\<close>. The
  length wraps at 65536.
\<close>

definition pkSized :: "('b, 'm) buffer_api_scheme \<Rightarrow> string \<Rightarrow> 'b packet \<Rightarrow> 'b packet" where
  "pkSized E s p = pkString E s (pkShort E (of_nat (length s)) p)"

section \<open>JSON texts of packets\<close>

text \<open>\<open>toJSON\<close> returns the writer's buffer as a C string; \<open>fromJSON(json.c_str())\<close> parses one.\<close>

definition toJSON :: "('b, 'm) buffer_api_scheme \<Rightarrow> jevent list \<Rightarrow> string" where
  "toJSON E evs = c_str (js_render E evs)"

definition fromJSON :: "('b, 'm) buffer_api_scheme \<Rightarrow> (json \<Rightarrow> 'p res) \<Rightarrow> string \<Rightarrow> 'p res" where
  "fromJSON E decode s = decode (js_parse E (c_str s))"

lemma toJSON_c_str [simp]: "c_str (toJSON E evs) = toJSON E evs"
  by (simp add: toJSON_def)

section \<open>Frames on a stream\<close>

text \<open>What a reader does with a frame: opcode, length, text of that length.\<close>

definition read_frame :: "('b, 's, 'm) socket_api_scheme \<Rightarrow> 's \<Rightarrow> u16 \<times> string \<times> 's" where
  "read_frame E s =
     (let (opcode, s1) = so_getShort E s; (n, s2) = so_getShort E s1;
          (json, s3) = so_getStringByLength E n s2
      in (opcode, json, s3))"

text \<open>A socket on which data arrives and starts with a frame that holds the packet \<open>p\<close>, and the socket behind it.\<close>

definition receives ::
  "('b, 's, 'm) socket_api_scheme \<Rightarrow> ServerOpcode \<Rightarrow> (json \<Rightarrow> 'p res) \<Rightarrow> 's \<Rightarrow> 'p \<Rightarrow> 's \<Rightarrow> bool" where
  "receives E opcode decode s p s' \<longleftrightarrow>
     (\<exists>json. read_frame E (snd (so_recv E None s)) = (server_opcode opcode, json, s') \<and> fromJSON E decode json = Inr p)"

lemma receives_iff:
  "receives E opcode decode s p s' \<longleftrightarrow>
     (let (opcode', s1) = so_getShort E (snd (so_recv E None s)); (n, s2) = so_getShort E s1;
          (json, s3) = so_getStringByLength E n s2
      in opcode' = server_opcode opcode \<and> fromJSON E decode json = Inr p \<and> s' = s3)"
  by (auto simp: receives_def read_frame_def case_prod_beta Let_def prod_eq_iff)

lemma content_Packet_new:
  "fifo_put E content s16 \<Longrightarrow> content (pk_buffer (Packet_new E w t)) = s16 w"
  by (simp add: fifo_put_def Packet_new_def)

lemma content_pkShort:
  "fifo_put E content s16 \<Longrightarrow> content (pk_buffer (pkShort E w p)) = content (pk_buffer p) @ s16 w"
  by (simp add: fifo_put_def pkShort_def)

lemma content_pkString:
  "fifo_put E content s16 \<Longrightarrow> content (pk_buffer (pkString E s p)) = content (pk_buffer p) @ s"
  by (simp add: fifo_put_def pkString_def)

lemma content_pkSized:
  "fifo_put E content s16 \<Longrightarrow>
   content (pk_buffer (pkSized E s p)) = content (pk_buffer p) @ s16 (of_nat (length s)) @ s"
  by (simp add: pkSized_def content_pkShort content_pkString)

lemma getShort_next:
  "fifo_get E unread s16 \<Longrightarrow> unread s = s16 w @ r \<Longrightarrow>
   fst (so_getShort E s) = w \<and> unread (snd (so_getShort E s)) = r"
  by (auto simp: fifo_get_def)

lemma getString_next:
  "fifo_get E unread s16 \<Longrightarrow> unread s = x @ r \<Longrightarrow> length x = unat n \<Longrightarrow>
   fst (so_getStringByLength E n s) = x \<and> unread (snd (so_getStringByLength E n s)) = r"
  unfolding fifo_get_def by blast

text \<open>A reader gets as much of the text as the length field counts.\<close>

lemma read_frame_sized:
  assumes "fifo_get E unread s16" and "unread s = s16 w @ s16 (of_nat (length x)) @ x @ r"
  shows "fst (read_frame E s) = w"
    and "fst (snd (read_frame E s)) = take (length x mod 65536) x"
    and "length x < 65536 \<Longrightarrow> unread (snd (snd (read_frame E s))) = r"
proof -
  define s1 where "s1 = snd (so_getShort E s)"
  define s2 where "s2 = snd (so_getShort E s1)"
  define n where "n = (of_nat (length x) :: u16)"
  have 1: "fst (so_getShort E s) = w" "unread s1 = s16 n @ x @ r"
    using getShort_next [OF assms] by (simp_all add: s1_def n_def)
  have 2: "fst (so_getShort E s1) = n" "unread s2 = x @ r"
    using getShort_next [OF assms(1) 1(2)] by (simp_all add: s2_def)
  have n: "unat n = length x mod 65536" by (simp add: n_def unat_of_nat)
  have "unread s2 = take (unat n) x @ drop (unat n) x @ r"
    using 2(2) by simp
  moreover have "length (take (unat n) x) = unat n"
    using n by (simp add: min_absorb2)
  ultimately have 3: "fst (so_getStringByLength E n s2) = take (unat n) x"
      "unread (snd (so_getStringByLength E n s2)) = drop (unat n) x @ r"
    using getString_next [OF assms(1)] by blast+
  have eq: "read_frame E s = (w, take (unat n) x, snd (so_getStringByLength E n s2))"
    using 1 2 3 by (simp add: read_frame_def s1_def s2_def case_prod_beta prod_eq_iff)
  show "fst (read_frame E s) = w" by (simp add: eq)
  show "fst (snd (read_frame E s)) = take (length x mod 65536) x" by (simp add: eq n)
  show "unread (snd (snd (read_frame E s))) = r" if "length x < 65536"
    using that n 3(2) by (simp add: eq)
qed

section \<open>Sending\<close>

text \<open>\<open>socket->clear(); socket->put(&packet.buffer); socket->send();\<close>\<close>

definition reply :: "('b, 's, 'm) socket_api_scheme \<Rightarrow> 'b packet \<Rightarrow> 's \<Rightarrow> int \<times> 's" where
  "reply E p s = so_send E (so_put E (pk_buffer p) (so_clear E s))"

section \<open>The contract of a JSON packet\<close>

text \<open>
  A packet class has writer calls \<open>events\<close>, which write the document \<open>doc\<close>, and a reader \<open>decode\<close>.
  \<open>view p\<close> is what of \<open>p\<close> the document carries. The class is correct when its calls write its
  document and its reader takes the document back.
\<close>

locale json_packet =
  fixes events :: "'p \<Rightarrow> jevent list"
    and doc :: "'p \<Rightarrow> json"
    and decode :: "json \<Rightarrow> 'p res"
    and view :: "'p \<Rightarrow> 'p"
  assumes events_doc: "events p = events_of (doc p)"
    and decode_doc: "decode (doc p) = Inr (view p)"
begin

lemma text_round_trip:
  "reads_back E (doc p) \<Longrightarrow> fromJSON E decode (toJSON E (events p)) = Inr (view p)"
  by (simp add: fromJSON_def reads_back_def json_text_def toJSON_def events_doc decode_doc)

text \<open>
  A frame in front of a reader gives its opcode, and its text decodes to the packet's view, when
  the length fits the 16-bit field.
\<close>

lemma frame_round_trip:
  assumes "fifo_put E content s16" "fifo_get E unread s16" "reads_back E (doc p)"
    and "length (toJSON E (events p)) < 65536"
    and "unread s = content (pk_buffer (pkSized E (toJSON E (events p)) (Packet_new E w t))) @ r"
  shows "fst (read_frame E s) = w
    \<and> fromJSON E decode (fst (snd (read_frame E s))) = Inr (view p)
    \<and> unread (snd (snd (read_frame E s))) = r"
proof -
  have "unread s = s16 w @ s16 (of_nat (length (toJSON E (events p)))) @ toJSON E (events p) @ r"
    using assms(1,5) by (simp add: content_pkSized content_Packet_new)
  note f = read_frame_sized [OF assms(2) this]
  from f(2) assms(4) have "fst (snd (read_frame E s)) = toJSON E (events p)" by simp
  with f(1,3) assms(3,4) show ?thesis by (simp add: text_round_trip)
qed

end

end
