(* ===== verification/LoginPackets.thy ===== *)
theory LoginPackets imports Packets ByteUtil begin

text \<open>
  The packets of the login protocol (include/net/packets/LoginPackets.hpp,
  src/net/packets/LoginPackets.cpp), each with its fields, the packet its constructor builds and
  its JSON writer and reader. Every JSON packet interprets \<open>json_packet\<close>.
\<close>

section \<open>AuthenticationChallenge\<close>

record auth_challenge =
  ac_version :: string
  ac_versionHash :: string
  ac_name :: string
  ac_pubKey :: string

definition challenge_events :: "auth_challenge \<Rightarrow> jevent list" where
  "challenge_events t =
     [StartObject,
      wString ''name'', wString (ac_name t),
      wString ''version'', wString (ac_version t),
      wString ''versionHash'', wString (ac_versionHash t),
      wString ''pubKey'', wString (ac_pubKey t),
      EndObject]"

definition challenge_decode :: "json \<Rightarrow> auth_challenge res" where
  "challenge_decode d =
     andThen (andThen (jMember d ''version'') jGetString) (\<lambda>version.
     andThen (andThen (jMember d ''versionHash'') jGetString) (\<lambda>versionHash.
     andThen (andThen (jMember d ''name'') jGetString) (\<lambda>name.
     andThen (andThen (jMember d ''pubKey'') jGetString) (\<lambda>pubKey.
     Inr \<lparr>ac_version = version, ac_versionHash = versionHash, ac_name = name, ac_pubKey = pubKey\<rparr>))))"

definition AuthenticationChallenge_new :: "('b, 'm) buffer_api_scheme \<Rightarrow> auth_challenge \<Rightarrow> 'b packet" where
  "AuthenticationChallenge_new E t =
     pkSized E (toJSON E (challenge_events t)) (ServerPacket_new E LOGIN_AUTHENTICATION_CHALLENGE)"

definition challenge_doc :: "auth_challenge \<Rightarrow> json" where
  "challenge_doc t = JObject
     [(''name'', JString (c_str (ac_name t))), (''version'', JString (c_str (ac_version t))),
      (''versionHash'', JString (c_str (ac_versionHash t))), (''pubKey'', JString (c_str (ac_pubKey t)))]"

definition challenge_view :: "auth_challenge \<Rightarrow> auth_challenge" where
  "challenge_view t = \<lparr>ac_version = c_str (ac_version t), ac_versionHash = c_str (ac_versionHash t),
     ac_name = c_str (ac_name t), ac_pubKey = c_str (ac_pubKey t)\<rparr>"

named_theorems json_simps \<open>evaluation of JSON writers and readers\<close>

lemmas [json_simps] = jMember_def jGetString_def jGetBool_def jGetInt_def jGetInt64_def jArray_def
  wString_def wInt_def wInt64_def

lemma c_str_literal [json_simps]: "list_all (\<lambda>c. c \<noteq> CHR 0x00) s \<Longrightarrow> c_str s = s"
  by (simp add: nul_free_def)

interpretation challenge: json_packet challenge_events challenge_doc challenge_decode challenge_view
  by unfold_locales
    (simp_all add: challenge_events_def challenge_doc_def challenge_decode_def challenge_view_def
      json_simps)

text \<open>Map servers and clients compare the versions of a challenge with their own, as C strings.\<close>

definition versionMatches :: "('b, 's, 'k, 'w, 'm) platform_scheme \<Rightarrow> auth_challenge \<Rightarrow> bool" where
  "versionMatches E challenge =
     (c_str (ac_version challenge) = c_str (Version_versionString E)
      \<and> c_str (ac_versionHash challenge) = c_str (Version_gitHash E))"

section \<open>AuthenticationIdentity\<close>

text \<open>The password is the RSA-encrypted one; it travels as lower-case hexadecimal text.\<close>

record auth_identity =
  ai_username :: string
  ai_password :: "u8 list"

definition identity_events :: "auth_identity \<Rightarrow> jevent list" where
  "identity_events t =
     [StartObject,
      wString ''username'', wString (ai_username t),
      wString ''password'', wString (byteVectorToString (ai_password t)),
      EndObject]"

definition identity_decode :: "json \<Rightarrow> auth_identity res" where
  "identity_decode d =
     andThen (andThen (jMember d ''password'') jGetString) (\<lambda>hex.
     andThen (hexStringToByteVector hex) (\<lambda>chrs.
     andThen (andThen (jMember d ''username'') jGetString) (\<lambda>username.
     Inr \<lparr>ai_username = username, ai_password = chrs\<rparr>)))"

definition AuthenticationIdentity_new :: "('b, 'm) buffer_api_scheme \<Rightarrow> auth_identity \<Rightarrow> 'b packet" where
  "AuthenticationIdentity_new E t =
     pkSized E (toJSON E (identity_events t)) (ClientPacket_new E LOGIN_AUTHENTICATION_IDENTITY)"

text \<open>The member \<open>unameLength\<close> is the user name's length in 16 bits; nothing reads it.\<close>

definition unameLength :: "auth_identity \<Rightarrow> u16" where
  "unameLength t = of_nat (length (ai_username t))"

definition identity_doc :: "auth_identity \<Rightarrow> json" where
  "identity_doc t = JObject
     [(''username'', JString (c_str (ai_username t))),
      (''password'', JString (byteVectorToString (ai_password t)))]"

definition identity_view :: "auth_identity \<Rightarrow> auth_identity" where
  "identity_view t = t\<lparr>ai_username := c_str (ai_username t)\<rparr>"

interpretation identity: json_packet identity_events identity_doc identity_decode identity_view
  by unfold_locales
    (simp_all add: identity_events_def identity_doc_def identity_decode_def identity_view_def
      json_simps bau.nul_free_render bau.read_render)

section \<open>AuthenticationResponse\<close>

record auth_response =
  ar_successful :: bool
  ar_attemptsRemaining :: u32
  ar_message :: string

definition response_events :: "auth_response \<Rightarrow> jevent list" where
  "response_events t =
     [StartObject,
      wString ''successful'', WBool (ar_successful t),
      wString ''attemptsRemaining'', wInt (ar_attemptsRemaining t),
      wString ''message'', wString (ar_message t),
      EndObject]"

definition response_decode :: "json \<Rightarrow> auth_response res" where
  "response_decode d =
     andThen (andThen (jMember d ''successful'') jGetBool) (\<lambda>successful.
     andThen (andThen (jMember d ''attemptsRemaining'') jGetInt) (\<lambda>attemptsRemaining.
     andThen (andThen (jMember d ''message'') jGetString) (\<lambda>message.
     Inr \<lparr>ar_successful = successful, ar_attemptsRemaining = attemptsRemaining, ar_message = message\<rparr>)))"

definition AuthenticationResponse_new ::
  "('b, 'm) buffer_api_scheme \<Rightarrow> bool \<Rightarrow> u32 \<Rightarrow> string \<Rightarrow> 'b packet" where
  "AuthenticationResponse_new E successful attemptsRemaining message =
     pkSized E
       (toJSON E (response_events
          \<lparr>ar_successful = successful, ar_attemptsRemaining = attemptsRemaining, ar_message = message\<rparr>))
       (ServerPacket_new E LOGIN_AUTHENTICATION_RESPONSE)"

definition response_doc :: "auth_response \<Rightarrow> json" where
  "response_doc t = JObject
     [(''successful'', JBool (ar_successful t)),
      (''attemptsRemaining'', JInt (sint (ar_attemptsRemaining t))),
      (''message'', JString (c_str (ar_message t)))]"

definition response_view :: "auth_response \<Rightarrow> auth_response" where
  "response_view t = t\<lparr>ar_message := c_str (ar_message t)\<rparr>"

lemma jGetInt_sint [simp]: "jGetInt (JInt (sint (i :: u32))) = Inr i"
  using sint_range_size [of i] by (simp add: jGetInt_def word_size)

lemma jGetInt64_sint [simp]: "jGetInt64 (JInt (sint (i :: u64))) = Inr i"
  using sint_range_size [of i] by (simp add: jGetInt64_def word_size)

declare jGetInt_def [json_simps del] jGetInt64_def [json_simps del]

interpretation response: json_packet response_events response_doc response_decode response_view
  by unfold_locales
    (simp_all add: response_events_def response_doc_def response_decode_def response_view_def json_simps)

section \<open>MapServerMapList\<close>

text \<open>
  The maps a map server offers, or the login server asks for. The version, a \<open>uint32_t\<close>, is written
  as an \<open>int64_t\<close>, read into a \<open>uint64_t\<close> and passed on as a \<open>uint32_t\<close>.
\<close>

definition map_list_events :: "location list \<Rightarrow> jevent list" where
  "map_list_events mapHashes =
     [StartObject, wString ''maps'', StartArray]
     @ concat (map (\<lambda>location.
         [StartObject,
          wString ''name'', wString (lo_locationName location),
          wString ''hash'', wString (lo_knownMD5Hash location),
          wString ''knownFileName'', wString (lo_knownFileName location),
          wString ''version'', wInt64 (ucast (lo_version location)),
          EndObject]) mapHashes)
     @ [EndArray, EndObject]"

definition map_list_entry_decode :: "json \<Rightarrow> location res" where
  "map_list_entry_decode object =
     andThen (andThen (jMember object ''name'') jGetString) (\<lambda>mapName.
     andThen (andThen (jMember object ''knownFileName'') jGetString) (\<lambda>knownFileName.
     andThen (andThen (jMember object ''hash'') jGetString) (\<lambda>mapHash.
     andThen (andThen (jMember object ''version'') jGetInt64) (\<lambda>version.
     Inr (Location_new mapName knownFileName mapHash (ucast version))))))"

definition map_list_decode :: "json \<Rightarrow> location list res" where
  "map_list_decode d =
     andThen (andThen (jMember d ''maps'') jArray) (mapR map_list_entry_decode)"

definition MapServerMapList_new :: "('b, 'm) buffer_api_scheme \<Rightarrow> location list \<Rightarrow> 'b packet" where
  "MapServerMapList_new E mapHashes =
     pkSized E (toJSON E (map_list_events mapHashes)) (ServerPacket_new E MAP_SERVER_MAP_LIST)"

definition map_list_entry_doc :: "location \<Rightarrow> json" where
  "map_list_entry_doc l = JObject
     [(''name'', JString (c_str (lo_locationName l))), (''hash'', JString (c_str (lo_knownMD5Hash l))),
      (''knownFileName'', JString (c_str (lo_knownFileName l))),
      (''version'', JInt (sint (ucast (lo_version l) :: u64)))]"

definition map_list_doc :: "location list \<Rightarrow> json" where
  "map_list_doc ls = JObject [(''maps'', JArray (map map_list_entry_doc ls))]"

text \<open>What arrives of a location: its id does not travel.\<close>

definition map_list_view :: "location list \<Rightarrow> location list" where
  "map_list_view ls = map (\<lambda>l. Location_new (c_str (lo_locationName l)) (c_str (lo_knownFileName l))
     (c_str (lo_knownMD5Hash l)) (lo_version l)) ls"

lemma ucast_u32_u64_u32 [simp]: "(ucast (ucast (v :: u32) :: u64) :: u32) = v"
  by (rule bit_word_eqI) (auto simp: bit_simps dest: bit_imp_le_length)

lemma map_list_entry_decode_doc:
  "map_list_entry_decode (map_list_entry_doc l) =
     Inr (Location_new (c_str (lo_locationName l)) (c_str (lo_knownFileName l))
       (c_str (lo_knownMD5Hash l)) (lo_version l))"
  by (simp add: map_list_entry_decode_def map_list_entry_doc_def json_simps)

interpretation map_list: json_packet map_list_events map_list_doc map_list_decode map_list_view
proof
  fix ls :: "location list"
  show "map_list_events ls = events_of (map_list_doc ls)"
    by (simp add: map_list_events_def map_list_doc_def map_list_entry_doc_def json_simps comp_def)
  have "mapR map_list_entry_decode (map map_list_entry_doc ls) = Inr (map_list_view ls)"
    by (induction ls) (simp_all add: map_list_view_def map_list_entry_decode_doc)
  then show "map_list_decode (map_list_doc ls) = Inr (map_list_view ls)"
    by (simp add: map_list_decode_def map_list_doc_def json_simps)
qed

section \<open>MapServerConnectionInstructions\<close>

record map_instructions =
  mi_friendlyName :: string
  mi_hostName :: string
  mi_port :: u16

definition instructions_events :: "map_instructions \<Rightarrow> jevent list" where
  "instructions_events t =
     [StartObject,
      wString ''friendlyName'', wString (mi_friendlyName t),
      wString ''hostName'', wString (mi_hostName t),
      wString ''port'', wInt (ucast (mi_port t)),
      EndObject]"

definition instructions_decode :: "json \<Rightarrow> map_instructions res" where
  "instructions_decode d =
     andThen (andThen (jMember d ''friendlyName'') jGetString) (\<lambda>friendlyName.
     andThen (andThen (jMember d ''hostName'') jGetString) (\<lambda>hostName.
     andThen (andThen (jMember d ''port'') jGetInt) (\<lambda>port.
     Inr \<lparr>mi_friendlyName = friendlyName, mi_hostName = hostName, mi_port = ucast port\<rparr>)))"

definition MapServerConnectionInstructions_new ::
  "('b, 'm) buffer_api_scheme \<Rightarrow> string \<Rightarrow> string \<Rightarrow> u16 \<Rightarrow> 'b packet" where
  "MapServerConnectionInstructions_new E friendlyName hostName port =
     pkSized E
       (toJSON E (instructions_events
          \<lparr>mi_friendlyName = friendlyName, mi_hostName = hostName, mi_port = port\<rparr>))
       (ServerPacket_new E MAP_SERVER_CONNECTION_INSTRUCTIONS)"

definition instructions_doc :: "map_instructions \<Rightarrow> json" where
  "instructions_doc t = JObject
     [(''friendlyName'', JString (c_str (mi_friendlyName t))),
      (''hostName'', JString (c_str (mi_hostName t))),
      (''port'', JInt (sint (ucast (mi_port t) :: u32)))]"

definition instructions_view :: "map_instructions \<Rightarrow> map_instructions" where
  "instructions_view t =
     t\<lparr>mi_friendlyName := c_str (mi_friendlyName t), mi_hostName := c_str (mi_hostName t)\<rparr>"

lemma ucast_u16_u32_u16 [simp]: "(ucast (ucast (v :: u16) :: u32) :: u16) = v"
  by (rule bit_word_eqI) (auto simp: bit_simps dest: bit_imp_le_length)

interpretation instructions:
  json_packet instructions_events instructions_doc instructions_decode instructions_view
  by unfold_locales
    (simp_all add: instructions_events_def instructions_doc_def instructions_decode_def
      instructions_view_def json_simps)

section \<open>Packets without JSON\<close>

definition ServerPubKey_new :: "('b, 'm) buffer_api_scheme \<Rightarrow> string \<Rightarrow> 'b packet" where
  "ServerPubKey_new E pubKeyPEM =
     pkString E pubKeyPEM (pkLong E (of_nat (length pubKeyPEM)) (ServerPacket_new E SERVER_PUBKEY))"

definition VersionMismatch_new :: "('b, 'm) buffer_api_scheme \<Rightarrow> 'b packet" where
  "VersionMismatch_new E = ClientPacket_new E VERSION_MISMATCH"

definition MapServerRegistrationRequest_new ::
  "('b, 'm) buffer_api_scheme \<Rightarrow> string \<Rightarrow> string \<Rightarrow> u16 \<Rightarrow> 'b packet" where
  "MapServerRegistrationRequest_new E mapServerFriendlyName mapServerListenAddress port =
     pkShort E port
       (pkSized E mapServerListenAddress
         (pkSized E mapServerFriendlyName (ServerPacket_new E MAP_SERVER_REGISTRATION_REQUEST)))"

definition MapServerRegistrationResponse_new :: "('b, 'm) buffer_api_scheme \<Rightarrow> string \<Rightarrow> 'b packet" where
  "MapServerRegistrationResponse_new E secretRSA =
     pkSized E secretRSA (ServerPacket_new E MAP_SERVER_REGISTRATION_RESPONSE)"

section \<open>What a reader can fail with\<close>

definition text_fault :: "fault \<Rightarrow> bool" where
  "text_fault e = (e = JsonPrecondition \<or> e = AssertFailed)"

lemma hex_text: "hexStringToByteVector s = Inl e \<Longrightarrow> text_fault e"
  by (auto simp: hexStringToByteVector_def text_fault_def split: if_splits)

lemma json_text_faults:
  "jMember j k = Inl e \<Longrightarrow> text_fault e" "jGetString j = Inl e \<Longrightarrow> text_fault e"
  "jGetInt64 j = Inl e \<Longrightarrow> text_fault e" "jArray j = Inl e \<Longrightarrow> text_fault e"
  by (auto simp: jMember_def jGetString_def jGetInt64_def jArray_def text_fault_def deref_def
      split: json.splits option.splits if_splits)

lemma challenge_decode_text: "challenge_decode d = Inl e \<Longrightarrow> text_fault e"
  by (auto simp: challenge_decode_def andThen_eq_Inl dest: json_text_faults)

lemma identity_decode_text: "identity_decode d = Inl e \<Longrightarrow> text_fault e"
  by (auto simp: identity_decode_def andThen_eq_Inl dest: hex_text json_text_faults)

lemma mapR_faults: "mapR f xs = Inl e \<Longrightarrow> \<exists>x \<in> set xs. f x = Inl e"
  by (induction xs) (auto simp: andThen_eq_Inl)

lemma map_list_decode_text: "map_list_decode d = Inl e \<Longrightarrow> text_fault e"
  by (auto simp: map_list_decode_def map_list_entry_decode_def andThen_eq_Inl
      dest!: mapR_faults json_text_faults)

end
