(* ===== verification/TileMap.thy ===== *)
theory TileMap imports Tmx Crypto PlayerSession Floats LoginPackets begin

text \<open>
  Tile maps (include/Map.hpp, src/Map.cpp) and the location a map is known as
  (src/odb/Location.cpp): the table of solid and interesting tiles, the spawn point, and the
  queries the movement of players rests on.
\<close>

section \<open>Map\<close>

record map_tile =
  mt_isSolid :: bool
  mt_isInteresting :: bool
  mt_isSpawn :: bool

definition MapTile_new :: "bool \<Rightarrow> bool \<Rightarrow> bool \<Rightarrow> map_tile" where
  "MapTile_new isSolid isInteresting isSpawn =
     \<lparr>mt_isSolid = isSolid, mt_isInteresting = isInteresting, mt_isSpawn = isSpawn\<rparr>"

record game_map =
  gm_map :: tmx_map
  gm_name :: string
  gm_version :: u32
  gm_tiles :: "map_tile list"
  gm_spawnPoint :: "int \<times> int"

definition resolveNameFromMap :: "tmx_map \<Rightarrow> string" where
  "resolveNameFromMap m =
     (let nameFromFile = tm_stringProperty m ''PPG_NAME''
      in if nameFromFile = [] then tm_filename m else nameFromFile)"

definition resolveVersionFromMap :: "tmx_map \<Rightarrow> u32" where
  "resolveVersionFromMap m =
     (let versionFromFile = tm_intProperty m ''PPG_VERSION'' (- 1)
      in if versionFromFile \<le> - 1 then 0 else of_int versionFromFile)"

text \<open>One layer's contribution to the tile at (x, y), and to the spawn point.\<close>

definition parseLayer ::
  "tmx_map \<Rightarrow> int \<Rightarrow> int \<Rightarrow> tmx_layer \<Rightarrow> bool \<times> bool \<times> int \<times> int \<Rightarrow> bool \<times> bool \<times> int \<times> int" where
  "parseLayer m x y layer st =
     (let (solid, interesting, spawnPoint) = st in
      if tl_tilesetIndex layer x y \<noteq> - 1 then
        (solid \<or> tl_stringProperty layer ''solid'' \<noteq> [],
         interesting \<or>
           (case tm_tile m (tl_tilesetIndex layer x y) (tl_tileId layer x y) of
              None \<Rightarrow> False
            | Some properties \<Rightarrow> properties ''interesting'' \<noteq> []),
         if tl_name layer = ''__playerSpawn'' then (x, y) else spawnPoint)
      else st)"

text \<open>The local \<open>spawn\<close> stays false.\<close>

definition parseTile ::
  "tmx_map \<Rightarrow> int \<Rightarrow> int \<Rightarrow> map_tile list \<times> int \<times> int \<Rightarrow> map_tile list \<times> int \<times> int" where
  "parseTile m y x st =
     (let (tiles, spawnPoint) = st;
          (solid, interesting, spawnPoint') =
            fold (parseLayer m x y) (tm_tileLayers m) (False, False, spawnPoint)
      in (tiles @ [MapTile_new solid interesting False], spawnPoint'))"

definition parseTiles :: "tmx_map \<Rightarrow> map_tile list \<times> int \<times> int \<Rightarrow> map_tile list \<times> int \<times> int" where
  "parseTiles m st =
     fold (\<lambda>y. fold (parseTile m y) [0..tm_width m - 1]) [0..tm_height m - 1] st"

text \<open>The constructor; a map without a spawn tile keeps the value the member was created with.\<close>

definition Map_new :: "int \<times> int \<Rightarrow> tmx_map \<Rightarrow> game_map" where
  "Map_new uninit m =
     (let (tiles, spawnPoint) = parseTiles m ([], uninit)
      in \<lparr>gm_map = m, gm_name = resolveNameFromMap m, gm_version = resolveVersionFromMap m,
          gm_tiles = tiles, gm_spawnPoint = spawnPoint\<rparr>)"

text \<open>The index is computed in 32 bits; the vector is indexed without a check.\<close>

definition resolveTileLoc :: "game_map \<Rightarrow> u32 \<Rightarrow> u32 \<Rightarrow> nat" where
  "resolveTileLoc p x y = unat (x + of_int (tm_width (gm_map p)) * y)"

definition getTile :: "game_map \<Rightarrow> u32 \<Rightarrow> u32 \<Rightarrow> map_tile res" where
  "getTile p x y =
     (let loc = resolveTileLoc p x y
      in if loc < length (gm_tiles p) then Inr (gm_tiles p ! loc) else Inl OutOfBounds)"

definition getTileWidth :: "game_map \<Rightarrow> int" where "getTileWidth p = tm_tileWidth (gm_map p)"
definition getTileHeight :: "game_map \<Rightarrow> int" where "getTileHeight p = tm_tileHeight (gm_map p)"

text \<open>
  A coordinate divided by the size of a tile, as a \<open>uint32_t\<close>: the quotient is a float, infinite
  or no number when the size is zero.
\<close>

definition tileCoord :: "rat \<Rightarrow> int \<Rightarrow> u32 res" where
  "tileCoord q tileSize =
     (if tileSize = 0 then Inl UndefinedConversion else to_u32 (fl (q / fl (of_int tileSize))))"

definition tileAtCoord :: "game_map \<Rightarrow> rat \<Rightarrow> rat \<Rightarrow> map_tile res" where
  "tileAtCoord p x y =
     andThen (tileCoord x (getTileWidth p)) (\<lambda>tx.
     andThen (tileCoord y (getTileHeight p)) (\<lambda>ty. getTile p tx ty))"

definition isSolidAtTile :: "game_map \<Rightarrow> u32 \<Rightarrow> u32 \<Rightarrow> bool res" where
  "isSolidAtTile p x y = andThen (getTile p x y) (\<lambda>t. Inr (mt_isSolid t))"

definition isSolidAtTilePos :: "game_map \<Rightarrow> int \<times> int \<Rightarrow> bool res" where
  "isSolidAtTilePos p pos = andThen (getTile p (of_int (fst pos)) (of_int (snd pos))) (\<lambda>t. Inr (mt_isSolid t))"

definition isSolidAtCoord :: "game_map \<Rightarrow> rat \<Rightarrow> rat \<Rightarrow> bool res" where
  "isSolidAtCoord p x y = andThen (tileAtCoord p x y) (\<lambda>t. Inr (mt_isSolid t))"

definition isInterestingAtTile :: "game_map \<Rightarrow> u32 \<Rightarrow> u32 \<Rightarrow> bool res" where
  "isInterestingAtTile p x y = andThen (getTile p x y) (\<lambda>t. Inr (mt_isInteresting t))"

definition isInterestingAtCoord :: "game_map \<Rightarrow> rat \<Rightarrow> rat \<Rightarrow> bool res" where
  "isInterestingAtCoord p x y = andThen (tileAtCoord p x y) (\<lambda>t. Inr (mt_isInteresting t))"

section \<open>The location of a map\<close>

definition makeMD5Hash :: "('b, 's, 'k, 'w, 'm) platform_scheme \<Rightarrow> string \<Rightarrow> string res" where
  "makeMD5Hash E base64Hash = byteArrayToString (md5_bytes (ssl_MD5 E base64Hash)) 16"

definition Location_of_map :: "('b, 's, 'k, 'w, 'm) platform_scheme \<Rightarrow> game_map \<Rightarrow> location res" where
  "Location_of_map E p =
     andThen (makeMD5Hash E (tm_filehash (gm_map p))) (\<lambda>hash.
     Inr (Location_new (gm_name p) (tm_filename (gm_map p)) hash (gm_version p)))"

definition listFromMaps :: "('b, 's, 'k, 'w, 'm) platform_scheme \<Rightarrow> game_map list \<Rightarrow> location list res" where
  "listFromMaps E maps = mapR (Location_of_map E) maps"

lemma makeMD5Hash_eq: "makeMD5Hash E s = Inr (byteVectorToString (md5_bytes (ssl_MD5 E s)))"
  using byteArrayToString_whole [of "md5_bytes (ssl_MD5 E s)"] by (simp add: makeMD5Hash_def)

lemma listFromMaps_eq:
  "listFromMaps E maps = Inr (map (\<lambda>p. Location_new (gm_name p) (tm_filename (gm_map p))
     (byteVectorToString (md5_bytes (ssl_MD5 E (tm_filehash (gm_map p))))) (gm_version p)) maps)"
  unfolding listFromMaps_def
  by (rule mapR_total) (simp add: Location_of_map_def makeMD5Hash_eq)


section \<open>What the tables hold\<close>

text \<open>The tile a map has at a cell, and whether the cell is a spawn point.\<close>

definition laid :: "tmx_layer \<Rightarrow> int \<Rightarrow> int \<Rightarrow> bool" where
  "laid layer x y = (tl_tilesetIndex layer x y \<noteq> - 1)"

definition solid_cell :: "tmx_map \<Rightarrow> int \<Rightarrow> int \<Rightarrow> bool" where
  "solid_cell m x y =
     list_ex (\<lambda>l. laid l x y \<and> tl_stringProperty l ''solid'' \<noteq> []) (tm_tileLayers m)"

definition interesting_cell :: "tmx_map \<Rightarrow> int \<Rightarrow> int \<Rightarrow> bool" where
  "interesting_cell m x y =
     list_ex (\<lambda>l. laid l x y \<and>
       (case tm_tile m (tl_tilesetIndex l x y) (tl_tileId l x y) of
          None \<Rightarrow> False | Some ps \<Rightarrow> ps ''interesting'' \<noteq> [])) (tm_tileLayers m)"

definition spawn_cell :: "tmx_map \<Rightarrow> int \<times> int \<Rightarrow> bool" where
  "spawn_cell m c =
     list_ex (\<lambda>l. laid l (fst c) (snd c) \<and> tl_name l = ''__playerSpawn'') (tm_tileLayers m)"

definition cells :: "tmx_map \<Rightarrow> (int \<times> int) list" where
  "cells m = concat (map (\<lambda>y. map (\<lambda>x. (x, y)) [0..tm_width m - 1]) [0..tm_height m - 1])"

definition cell_tile :: "tmx_map \<Rightarrow> int \<times> int \<Rightarrow> map_tile" where
  "cell_tile m c = MapTile_new (solid_cell m (fst c) (snd c)) (interesting_cell m (fst c) (snd c)) False"

definition last_or :: "'a \<Rightarrow> 'a list \<Rightarrow> 'a" where
  "last_or d xs = (if xs = [] then d else last xs)"

lemma last_or_simps [simp]:
  "last_or d [] = d" "last_or d (x # xs) = last_or x xs" "last_or d (xs @ ys) = last_or (last_or d xs) ys"
  by (auto simp: last_or_def)

lemma fold_parseLayer:
  "fold (parseLayer m x y) ls (s, i, sp) =
     (s \<or> list_ex (\<lambda>l. laid l x y \<and> tl_stringProperty l ''solid'' \<noteq> []) ls,
      i \<or> list_ex (\<lambda>l. laid l x y \<and>
             (case tm_tile m (tl_tilesetIndex l x y) (tl_tileId l x y) of
                None \<Rightarrow> False | Some ps \<Rightarrow> ps ''interesting'' \<noteq> [])) ls,
      if list_ex (\<lambda>l. laid l x y \<and> tl_name l = ''__playerSpawn'') ls then (x, y) else sp)"
proof (induction ls arbitrary: s i sp)
  case (Cons l ls)
  have "parseLayer m x y l (s, i, sp) =
      (if laid l x y then (s \<or> tl_stringProperty l ''solid'' \<noteq> [],
         i \<or> (case tm_tile m (tl_tilesetIndex l x y) (tl_tileId l x y) of
               None \<Rightarrow> False | Some ps \<Rightarrow> ps ''interesting'' \<noteq> []),
         if tl_name l = ''__playerSpawn'' then (x, y) else sp)
       else (s, i, sp))"
    by (simp add: parseLayer_def laid_def)
  then show ?case by (cases "laid l x y") (simp_all add: Cons)
qed simp

lemma fold_parseTile:
  "fold (parseTile m y) xs (ts, sp) =
     (ts @ map (\<lambda>x. cell_tile m (x, y)) xs, last_or sp (filter (spawn_cell m) (map (\<lambda>x. (x, y)) xs)))"
  by (induction xs arbitrary: ts sp)
    (simp_all add: parseTile_def fold_parseLayer cell_tile_def solid_cell_def interesting_cell_def spawn_cell_def)

lemma fold_rows:
  "fold (\<lambda>y. fold (parseTile m y) xs) ys (ts, sp) =
     (ts @ map (cell_tile m) (concat (map (\<lambda>y. map (\<lambda>x. (x, y)) xs) ys)),
      last_or sp (filter (spawn_cell m) (concat (map (\<lambda>y. map (\<lambda>x. (x, y)) xs) ys))))"
  by (induction ys arbitrary: ts sp) (simp_all add: fold_parseTile comp_def)

lemma parseTiles_eq:
  "parseTiles m ([], sp) = (map (cell_tile m) (cells m), last_or sp (filter (spawn_cell m) (cells m)))"
  by (simp add: parseTiles_def fold_rows cells_def)

lemma Map_new_simps [simp]:
  "gm_map (Map_new u m) = m" "gm_name (Map_new u m) = resolveNameFromMap m"
  "gm_version (Map_new u m) = resolveVersionFromMap m"
  "gm_tiles (Map_new u m) = map (cell_tile m) (cells m)"
  "gm_spawnPoint (Map_new u m) = last_or u (filter (spawn_cell m) (cells m))"
  by (simp_all add: Map_new_def parseTiles_eq)

lemma length_concat_uniform: "\<forall>xs \<in> set xss. length xs = n \<Longrightarrow> length (concat xss) = length xss * n"
  by (induction xss) auto

lemma nth_concat_uniform:
  "\<forall>xs \<in> set xss. length xs = n \<Longrightarrow> i < n \<Longrightarrow> j < length xss \<Longrightarrow> concat xss ! (j * n + i) = xss ! j ! i"
proof (induction xss arbitrary: j)
  case (Cons xs xss)
  show ?case
  proof (cases j)
    case 0
    then show ?thesis using Cons.prems by (simp add: nth_append)
  next
    case (Suc k)
    have "concat (xs # xss) ! (j * n + i) = concat xss ! (k * n + i)"
      using Cons.prems Suc by (simp add: nth_append)
    then show ?thesis using Cons Suc by simp
  qed
qed simp

lemma length_cells: "0 \<le> tm_width m \<Longrightarrow> 0 \<le> tm_height m \<Longrightarrow> length (cells m) = nat (tm_width m * tm_height m)"
  unfolding cells_def
  by (subst length_concat_uniform [where n = "nat (tm_width m)"]) (auto simp: nat_mult_distrib)

lemma nth_cells:
  assumes "0 \<le> x" "x < tm_width m" "0 \<le> y" "y < tm_height m"
  shows "cells m ! nat (x + tm_width m * y) = (x, y)"
proof -
  have "nat (x + tm_width m * y) = nat y * nat (tm_width m) + nat x"
    using assms by (simp add: nat_add_distrib nat_mult_distrib)
  then have "cells m ! nat (x + tm_width m * y) =
      map (\<lambda>y. map (\<lambda>x. (x, y)) [0..tm_width m - 1]) [0..tm_height m - 1] ! nat y ! nat x"
    unfolding cells_def using assms
    by (subst nth_concat_uniform [where n = "nat (tm_width m)", symmetric]) auto
  then show ?thesis using assms by (simp add: nth_upto)
qed

lemma index_in_range:
  assumes "0 \<le> x" "x < w" "0 \<le> y" "y < (h :: int)"
  shows "0 \<le> x + w * y" "x + w * y < w * h"
proof -
  show "0 \<le> x + w * y" using assms by simp
  have "x + w * y < w * (y + 1)" using assms by (simp add: algebra_simps)
  also have "\<dots> \<le> w * h" using assms by (intro mult_left_mono) auto
  finally show "x + w * y < w * h" .
qed

text \<open>A tile inside a map of at most two to the 32 tiles is found under its 32-bit index.\<close>

lemma getTile_inside:
  assumes "0 \<le> x" "x < tm_width m" "0 \<le> y" "y < tm_height m" "tm_width m * tm_height m \<le> 2 ^ 32"
  shows "getTile (Map_new u m) (of_int x) (of_int y) = Inr (cell_tile m (x, y))"
proof -
  define i where "i = x + tm_width m * y"
  have r: "0 \<le> i" "i < tm_width m * tm_height m"
    using index_in_range [OF assms(1-4)] by (simp_all add: i_def)
  have "resolveTileLoc (Map_new u m) (of_int x) (of_int y) = unat (of_int i :: u32)"
    by (simp add: resolveTileLoc_def i_def)
  also have "\<dots> = nat i"
    using r assms(5) by (simp add: unsigned_of_int take_bit_int_eq_self)
  finally have loc: "resolveTileLoc (Map_new u m) (of_int x) (of_int y) = nat (x + tm_width m * y)"
    by (simp add: i_def)
  have "nat (x + tm_width m * y) < length (cells m)"
    using r assms by (subst length_cells) (auto simp: i_def)
  then show ?thesis using nth_cells [OF assms(1-4)] by (simp add: getTile_def loc)
qed

section \<open>Cells in order, and coordinates on the grid\<close>

lemma sorted_cells:
  "sorted_wrt (\<lambda>a b. snd a < snd b \<or> snd a = snd b \<and> fst a < fst b) (cells m)"
proof -
  have row: "sorted_wrt (\<lambda>a b. snd a < snd b \<or> snd a = snd b \<and> fst a < fst b) (map (\<lambda>x. (x, y)) [0..tm_width m - 1])"
    for y :: int
    by (simp add: sorted_wrt_map)
  have "sorted_wrt (\<lambda>a b. snd a < snd b \<or> snd a = snd b \<and> fst a < fst b)
      (concat (map (\<lambda>y. map (\<lambda>x. (x, y)) [0..tm_width m - 1]) ys))" if "sorted_wrt (<) ys" for ys :: "int list"
    using that
  proof (induction ys)
    case (Cons y ys)
    then show ?case using row [of y] by (auto simp: sorted_wrt_append)
  qed simp
  then show ?thesis unfolding cells_def by simp
qed

lemma last_is_greatest:
  "sorted_wrt R xs \<Longrightarrow> x \<in> set xs \<Longrightarrow> x \<noteq> last xs \<Longrightarrow> R x (last xs)"
  by (induction xs) (auto split: if_splits)

lemma mem_cells: "c \<in> set (cells m) \<longleftrightarrow> 0 \<le> fst c \<and> fst c < tm_width m \<and> 0 \<le> snd c \<and> snd c < tm_height m"
  by (cases c) (force simp: cells_def)

lemma tileCoord_grid:
  assumes "0 < s" "s < 2 ^ 24" "\<bar>x * s\<bar> < 2 ^ 24"
  shows "tileCoord (of_int (x * s)) s = (if x < 0 then Inl UndefinedConversion else Inr (of_int x))"
proof -
  have "\<bar>x\<bar> * 1 \<le> \<bar>x\<bar> * s" using assms(1) by (intro mult_left_mono) auto
  then have small: "\<bar>x\<bar> < 2 ^ 24" using assms(1,3) by (simp add: abs_mult)
  have "fl (of_int s) = (of_int s :: rat)" using assms(1,2) by (intro fl_int) simp
  then have "fl (of_int (x * s) / fl (of_int s)) = (of_int x :: rat)"
    using assms(1) small by (simp add: fl_int)
  moreover have "to_u32 (of_int x) = Inl UndefinedConversion" if "x < 0"
  proof -
    have "rat_of_int x \<le> of_int (- 1)" using that by (simp only: of_int_le_iff)
    then show ?thesis by (simp add: to_u32_def)
  qed
  ultimately show ?thesis
    using assms(1) small to_u32_int [of x] by (simp add: tileCoord_def)
qed

text \<open>
  The query at a corner of the grid: the cell in the map, and beyond its right edge the cell that
  follows in memory, in the next row.
\<close>

lemma isSolidAtCoord_grid:
  assumes "0 < tm_tileWidth m" "tm_tileWidth m < 2 ^ 24" "\<bar>x * tm_tileWidth m\<bar> < 2 ^ 24"
    and "0 < tm_tileHeight m" "tm_tileHeight m < 2 ^ 24" "\<bar>y * tm_tileHeight m\<bar> < 2 ^ 24"
    and "0 < tm_width m" "0 \<le> tm_height m" "tm_width m * tm_height m \<le> 2 ^ 32" "x + tm_width m * y < 2 ^ 32"
  shows "isSolidAtCoord (Map_new u m) (of_int (x * tm_tileWidth m)) (of_int (y * tm_tileHeight m)) =
    (if x < 0 \<or> y < 0 then Inl UndefinedConversion
     else if x + tm_width m * y < tm_width m * tm_height m
       then Inr (solid_cell m ((x + tm_width m * y) mod tm_width m) ((x + tm_width m * y) div tm_width m))
     else Inl OutOfBounds)"
proof (cases "x < 0 \<or> y < 0")
  case True
  then show ?thesis
    using tileCoord_grid [OF assms(1-3)] tileCoord_grid [OF assms(4-6)]
    by (auto simp: isSolidAtCoord_def tileAtCoord_def getTileWidth_def getTileHeight_def)
next
  case False
  define i where "i = x + tm_width m * y"
  have i: "0 \<le> i" "i < 2 ^ 32" using False assms(7,10) by (simp_all add: i_def)
  have at: "tileAtCoord (Map_new u m) (of_int (x * tm_tileWidth m)) (of_int (y * tm_tileHeight m))
      = getTile (Map_new u m) (of_int x) (of_int y)"
    using False tileCoord_grid [OF assms(1-3)] tileCoord_grid [OF assms(4-6)]
    by (simp add: tileAtCoord_def getTileWidth_def getTileHeight_def)
  have loc: "resolveTileLoc (Map_new u m) (of_int x) (of_int y) = nat i"
  proof -
    have "resolveTileLoc (Map_new u m) (of_int x) (of_int y) = unat (of_int i :: u32)"
      by (simp add: resolveTileLoc_def i_def)
    then show ?thesis using i by (simp add: unsigned_of_int take_bit_int_eq_self)
  qed
  have len: "nat i < length (cells m) \<longleftrightarrow> i < tm_width m * tm_height m"
    using i assms(7,8) by (auto simp: length_cells nat_less_eq_zless)
  have cell: "cells m ! nat i = (i mod tm_width m, i div tm_width m)" if "i < tm_width m * tm_height m"
  proof -
    have "i div tm_width m < tm_height m"
    proof (rule ccontr)
      assume "\<not> i div tm_width m < tm_height m"
      then have "tm_width m * tm_height m \<le> tm_width m * (i div tm_width m)"
        using assms(7) by (intro mult_left_mono) auto
      then show False using that minus_mod_eq_mult_div [of i "tm_width m"] pos_mod_sign [OF assms(7), of i] by linarith
    qed
    then show ?thesis
      using nth_cells [of "i mod tm_width m" m "i div tm_width m"] assms(7) i
      by (simp add: pos_imp_zdiv_nonneg_iff)
  qed
  show ?thesis
    unfolding isSolidAtCoord_def at using False len cell
    by (auto simp: getTile_def loc cell_tile_def MapTile_new_def simp flip: i_def)
qed

end
