(* ===== verification/ClientEntities.thy ===== *)
theory ClientEntities imports TileMap begin

text \<open>
  The entities of the client: their components (client-include/components), the entities made for
  the layers of a map (client/ClientMapUtil.cpp), and what the renderer draws for an entity
  (client/systems/RenderSystem.cpp). The entity framework ashley only stores them.
\<close>

section \<open>Components\<close>

datatype RenderableType = TILED | SPRITE | ANIMATION

text \<open>Sprites of APG are \<^typ>\<open>'g\<close>; a renderer of APG is known by the map it draws. A null pointer is \<^const>\<open>None\<close>.\<close>

record 'g renderable =
  re_type :: RenderableType
  re_sprite :: "'g option"
  re_tmxRenderer :: "tmx_map option"
  re_layerIndex :: nat

definition Renderable_sprite :: "'g \<Rightarrow> 'g renderable" where
  "Renderable_sprite spriteToRender =
     \<lparr>re_type = SPRITE, re_sprite = Some spriteToRender, re_tmxRenderer = None, re_layerIndex = 0\<rparr>"

definition Renderable_animation :: "'g \<Rightarrow> 'g renderable" where
  "Renderable_animation animSprite =
     \<lparr>re_type = ANIMATION, re_sprite = Some animSprite, re_tmxRenderer = None, re_layerIndex = 0\<rparr>"

definition Renderable_layer :: "tmx_map \<Rightarrow> nat \<Rightarrow> 'g renderable" where
  "Renderable_layer renderer layerIndex =
     \<lparr>re_type = TILED, re_sprite = None, re_tmxRenderer = Some renderer, re_layerIndex = layerIndex\<rparr>"

text \<open>An entity with the components that are added to it; a coordinate is a float.\<close>

type_synonym vec2 = "rat \<times> rat"

record 'g entity =
  en_position :: "vec2 option"
  en_renderable :: "'g renderable option"
  en_keyboardInputListener :: bool
  en_focalPoint :: bool

definition Entity_new :: "'g entity" where
  "Entity_new =
     \<lparr>en_position = None, en_renderable = None, en_keyboardInputListener = False, en_focalPoint = False\<rparr>"

definition Position_default :: vec2 where "Position_default = (0, 0)"

section \<open>ClientMapUtil\<close>

definition layer_entity :: "tmx_map \<Rightarrow> nat \<Rightarrow> 'g entity" where
  "layer_entity renderer i =
     Entity_new\<lparr>en_position := Some Position_default, en_renderable := Some (Renderable_layer renderer i)\<rparr>"

text \<open>The loops over the layers from index \<open>i\<close> on.\<close>

fun frontLayers :: "nat \<Rightarrow> tmx_layer list \<Rightarrow> nat list" where
  "frontLayers i [] = []"
| "frontLayers i (layer # layers) =
     (if \<not> tl_visible layer then frontLayers (Suc i) layers
      else if tl_name layer = ''__playerSpawn'' then []
      else i # frontLayers (Suc i) layers)"

fun backLayers :: "bool \<Rightarrow> nat \<Rightarrow> tmx_layer list \<Rightarrow> nat list" where
  "backLayers spawnFound i [] = []"
| "backLayers spawnFound i (layer # layers) =
     (let found = (spawnFound \<or> tl_name layer = ''__playerSpawn'') in
      if found \<and> tl_visible layer then i # backLayers found (Suc i) layers
      else backLayers found (Suc i) layers)"

definition generateFrontLayerEntities :: "game_map \<Rightarrow> tmx_map \<Rightarrow> 'g entity list" where
  "generateFrontLayerEntities ppgMap renderer =
     map (layer_entity renderer) (frontLayers 0 (tm_tileLayers (gm_map ppgMap)))"

definition generateBackLayerEntities :: "game_map \<Rightarrow> tmx_map \<Rightarrow> 'g entity list" where
  "generateBackLayerEntities ppgMap renderer =
     map (layer_entity renderer) (backLayers False 0 (tm_tileLayers (gm_map ppgMap)))"

section \<open>RenderSystem\<close>

text \<open>
  What is drawn: a sprite at a position, after its animation went on or not, or a layer. An index
  that the renderer's map does not have is outside the vector of its layers.
\<close>

datatype 'g draw = DrawSprite 'g vec2 | UpdateSprite 'g | DrawLayer tmx_layer

definition drawSpriteBase :: "vec2 \<Rightarrow> 'g renderable \<Rightarrow> 'g draw list res" where
  "drawSpriteBase position renderable =
     andThen (deref NullDeref (re_sprite renderable)) (\<lambda>sprite. Inr [DrawSprite sprite position])"

definition drawTiled :: "'g renderable \<Rightarrow> 'g draw list res" where
  "drawTiled renderable =
     andThen (deref NullDeref (re_tmxRenderer renderable)) (\<lambda>renderer.
     if re_layerIndex renderable < length (tm_tileLayers renderer)
     then Inr [DrawLayer (tm_tileLayers renderer ! re_layerIndex renderable)]
     else Inl OutOfBounds)"

definition drawEntity :: "'g entity \<Rightarrow> 'g draw list res" where
  "drawEntity entity =
     andThen (deref NullDeref (en_position entity)) (\<lambda>position.
     andThen (deref NullDeref (en_renderable entity)) (\<lambda>renderable.
     case re_type renderable of
       ANIMATION \<Rightarrow>
         andThen (deref NullDeref (re_sprite renderable)) (\<lambda>sprite.
         mapRes (\<lambda>ds. UpdateSprite sprite # ds) (drawSpriteBase position renderable))
     | SPRITE \<Rightarrow> drawSpriteBase position renderable
     | TILED \<Rightarrow> drawTiled renderable))"

section \<open>Facts\<close>

lemma Entity_new_simps [simp]:
  "en_position Entity_new = None" "en_renderable Entity_new = None"
  "\<not> en_keyboardInputListener Entity_new" "\<not> en_focalPoint Entity_new"
  by (simp_all add: Entity_new_def)

lemma layer_entity_simps [simp]:
  "en_position (layer_entity r i) = Some (0, 0)" "en_renderable (layer_entity r i) = Some (Renderable_layer r i)"
  "\<not> en_keyboardInputListener (layer_entity r i)" "\<not> en_focalPoint (layer_entity r i)"
  by (simp_all add: layer_entity_def Position_default_def)

lemma drawEntity_layer:
  "drawEntity (layer_entity r i) =
     (if i < length (tm_tileLayers r) then Inr [DrawLayer (tm_tileLayers r ! i)] else Inl OutOfBounds)"
  by (simp add: drawEntity_def Renderable_layer_def drawTiled_def)

text \<open>The loops in terms of the layers before and from the first spawn layer.\<close>

definition spawn_layer :: "tmx_layer \<Rightarrow> bool" where
  "spawn_layer l = (tl_name l = ''__playerSpawn'')"

definition visible_from :: "nat \<Rightarrow> tmx_layer list \<Rightarrow> nat list" where
  "visible_from i ls = map fst (filter (\<lambda>(_, l). tl_visible l) (enumerate i ls))"

lemma visible_from_simps [simp]:
  "visible_from i [] = []"
  "visible_from i (l # ls) = (if tl_visible l then i # visible_from (Suc i) ls else visible_from (Suc i) ls)"
  by (simp_all add: visible_from_def)

lemma visible_from_append: "visible_from i (xs @ ys) = visible_from i xs @ visible_from (i + length xs) ys"
  by (induction xs arbitrary: i) simp_all

lemma backLayers_found: "backLayers True i ls = visible_from i ls"
  by (induction ls arbitrary: i) (simp_all add: Let_def)

lemma backLayers_eq:
  "backLayers False i ls =
     visible_from (i + length (takeWhile (\<lambda>l. \<not> spawn_layer l) ls)) (dropWhile (\<lambda>l. \<not> spawn_layer l) ls)"
  by (induction ls arbitrary: i) (simp_all add: Let_def spawn_layer_def backLayers_found)

lemma frontLayers_eq:
  "frontLayers i ls = visible_from i (takeWhile (\<lambda>l. \<not> (tl_visible l \<and> spawn_layer l)) ls)"
  by (induction ls arbitrary: i) (simp_all add: spawn_layer_def)

end
