(* ===== verification/ClientMovement.thy ===== *)
theory ClientMovement imports ClientEntities begin

text \<open>
  Moving around: the packet of a move (include/net/packets/GameplayPackets.hpp), the systems that
  dispatch packets, move entities, read the keyboard and follow the player
  (client/systems). An entity pointer is its index among the entities of the engine.
\<close>

section \<open>Moves and their packet\<close>

record move =
  mv_entity :: nat
  mv_xTiles :: int
  mv_yTiles :: int

text \<open>The packet keeps the move as a member and writes nothing of it.\<close>

definition MovementPacket_new :: "('b, 'm) buffer_api_scheme \<Rightarrow> move \<Rightarrow> 'b packet \<times> move" where
  "MovementPacket_new E move = (ClientPacket_new E MOVE, move)"

section \<open>NetworkDispatchSystem\<close>

text \<open>A queued packet is sliced to its base class.\<close>

definition queuePacket :: "'b packet \<Rightarrow> 'b packet list \<Rightarrow> 'b packet list" where
  "queuePacket packet packetQueue = packetQueue @ [packet]"

definition dispatchPacket :: "('b, 's, 'm) socket_api_scheme \<Rightarrow> 'b packet \<Rightarrow> 's \<Rightarrow> 's" where
  "dispatchPacket E packet s = snd (so_send E (so_put E (pk_buffer packet) s))"

definition NetworkDispatchSystem_update ::
  "('b, 's, 'm) socket_api_scheme \<Rightarrow> 'b packet list \<Rightarrow> 's \<Rightarrow> 'b packet list \<times> 's" where
  "NetworkDispatchSystem_update E packetQueue s = ([], fold (dispatchPacket E) packetQueue s)"

section \<open>MovementSystem\<close>

text \<open>\<open>mo_network\<close> is the queue of the attached network system, or none is attached.\<close>

record 'b movement_system =
  mo_map :: game_map
  mo_network :: "'b packet list option"
  mo_moves :: "move list"

definition MovementSystem_new :: "game_map \<Rightarrow> 'b packet list option \<Rightarrow> 'b movement_system" where
  "MovementSystem_new m network = \<lparr>mo_map = m, mo_network = network, mo_moves = []\<rparr>"

definition attachNetworkingSystem :: "'b packet list option \<Rightarrow> 'b movement_system \<Rightarrow> 'b movement_system" where
  "attachNetworkingSystem network mo = mo\<lparr>mo_network := network\<rparr>"

definition detachNetworkingSystem :: "'b movement_system \<Rightarrow> 'b movement_system" where
  "detachNetworkingSystem mo = mo\<lparr>mo_network := None\<rparr>"

definition networkingAttached :: "'b movement_system \<Rightarrow> bool" where
  "networkingAttached mo = (mo_network mo \<noteq> None)"

definition addMove :: "nat \<Rightarrow> int \<Rightarrow> int \<Rightarrow> 'b movement_system \<Rightarrow> 'b movement_system" where
  "addMove entity xTiles yTiles mo =
     mo\<lparr>mo_moves := mo_moves mo @ [\<lparr>mv_entity = entity, mv_xTiles = xTiles, mv_yTiles = yTiles\<rparr>]\<rparr>"

text \<open>
  One coordinate of a destination: the product is an \<open>int\<close>, which must not overflow; it becomes a
  float and is added to one.
\<close>

definition int_times :: "int \<Rightarrow> int \<Rightarrow> int res" where
  "int_times a b = (if - (2 ^ 31) \<le> a * b \<and> a * b < 2 ^ 31 then Inr (a * b) else Inl SignedOverflow)"

definition shifted :: "rat \<Rightarrow> int \<Rightarrow> int \<Rightarrow> rat res" where
  "shifted p tiles tileSize = andThen (int_times tiles tileSize) (\<lambda>d. Inr (fl (p + fl (of_int d))))"

definition position_of :: "'g entity list \<Rightarrow> nat \<Rightarrow> vec2 res" where
  "position_of es i = (if i < length es then deref NullDeref (en_position (es ! i)) else Inl DanglingPointer)"

definition set_position :: "nat \<Rightarrow> vec2 \<Rightarrow> 'g entity list \<Rightarrow> 'g entity list" where
  "set_position i p es = es[i := (es ! i)\<lparr>en_position := Some p\<rparr>]"

definition destination :: "game_map \<Rightarrow> move \<Rightarrow> vec2 \<Rightarrow> vec2 res" where
  "destination m move p =
     andThen (shifted (fst p) (mv_xTiles move) (getTileWidth m)) (\<lambda>x.
     andThen (shifted (snd p) (mv_yTiles move) (getTileHeight m)) (\<lambda>y. Inr (x, y)))"

text \<open>The body of the loop: a move into a solid tile changes no position, and its packet is queued as well.\<close>

definition performMove ::
  "('b, 'm) buffer_api_scheme \<Rightarrow> game_map \<Rightarrow> move \<Rightarrow> 'g entity list \<times> 'b packet list option
     \<Rightarrow> ('g entity list \<times> 'b packet list option) res" where
  "performMove E m move st =
     (let (es, network) = st in
      andThen (position_of es (mv_entity move)) (\<lambda>p.
      andThen (destination m move p) (\<lambda>d.
      andThen (isSolidAtCoord m (fst d) (snd d)) (\<lambda>solid.
      Inr (if solid then es else set_position (mv_entity move) d es,
           map_option (queuePacket (fst (MovementPacket_new E move))) network)))))"

definition MovementSystem_update ::
  "('b, 'm) buffer_api_scheme \<Rightarrow> 'b movement_system \<Rightarrow> 'g entity list
     \<Rightarrow> ('b movement_system \<times> 'g entity list) res" where
  "MovementSystem_update E mo es =
     andThen (foldR (performMove E (mo_map mo)) (mo_moves mo) (es, mo_network mo)) (\<lambda>(es', network).
     Inr (mo\<lparr>mo_network := network, mo_moves := []\<rparr>, es'))"

section \<open>InputSystem\<close>

datatype key = KEY_W | KEY_A | KEY_S | KEY_D | KP_8 | KP_4 | KP_2 | KP_6 | KP_7 | KP_9 | KP_1 | KP_3
  | KEY_SPACE | KEY_1 | KEY_RETURN

text \<open>The move a frame's keys ask for; \<open>doInteraction\<close> is empty.\<close>

definition keyMove :: "(key \<Rightarrow> bool) \<Rightarrow> (int \<times> int) option" where
  "keyMove pressed =
     (if pressed KEY_W \<or> pressed KP_8 then Some (0, - 1)
      else if pressed KEY_A \<or> pressed KP_4 then Some (- 1, 0)
      else if pressed KEY_S \<or> pressed KP_2 then Some (0, 1)
      else if pressed KEY_D \<or> pressed KP_6 then Some (1, 0)
      else if pressed KP_7 then Some (- 1, - 1)
      else if pressed KP_9 then Some (1, - 1)
      else if pressed KP_1 then Some (- 1, 1)
      else if pressed KP_3 then Some (1, 1)
      else None)"

definition InputSystem_processEntity ::
  "(key \<Rightarrow> bool) \<Rightarrow> nat \<Rightarrow> 'b movement_system \<Rightarrow> 'b movement_system" where
  "InputSystem_processEntity pressed entity mo =
     (case keyMove pressed of None \<Rightarrow> mo | Some (x, y) \<Rightarrow> addMove entity x y mo)"

section \<open>CameraFocusSystem\<close>

text \<open>The camera's position for a focal point, on a screen of the given size.\<close>

definition CameraFocusSystem_processEntity :: "nat \<Rightarrow> nat \<Rightarrow> vec2 \<Rightarrow> vec2" where
  "CameraFocusSystem_processEntity screenWidth screenHeight position =
     (fl (fst position - fl (fl (of_nat screenWidth) / 2)), fl (snd position - fl (fl (of_nat screenHeight) / 2)))"

section \<open>What moves keep\<close>

lemma position_of_Inr: "position_of es i = Inr p \<longleftrightarrow> i < length es \<and> en_position (es ! i) = Some p"
  by (simp add: position_of_def deref_eq_Inr)

lemma set_position_simps [simp]:
  "length (set_position i p es) = length es"
  "i < length es \<Longrightarrow> set_position i p es ! j = (if j = i then (es ! i)\<lparr>en_position := Some p\<rparr> else es ! j)"
  by (simp_all add: set_position_def)

text \<open>What a sequence of moves keeps: the entities but for positions, and free positions.\<close>

definition moved :: "game_map \<Rightarrow> nat set \<Rightarrow> 'g entity list \<Rightarrow> 'g entity list \<Rightarrow> bool" where
  "moved m movers es es' \<longleftrightarrow> length es' = length es \<and>
     (\<forall>i < length es. (i \<notin> movers \<longrightarrow> es' ! i = es ! i) \<and>
        (es' ! i = es ! i \<or>
         (\<exists>p. es' ! i = (es ! i)\<lparr>en_position := Some p\<rparr> \<and> isSolidAtCoord m (fst p) (snd p) = Inr False)))"

lemma moved_refl: "moved m movers es es"
  by (simp add: moved_def)

lemma moved_trans:
  assumes "moved m A es es1" "moved m A es1 es2"
  shows "moved m A es es2"
  using assms unfolding moved_def by (metis (no_types, lifting) entity.surjective entity.update_convs(1))

lemma performMove_moved:
  assumes "performMove E m move (es, network) = Inr (es', network')"
  shows "moved m {mv_entity move} es es'
    \<and> network' = map_option (\<lambda>q. q @ [ClientPacket_new E MOVE]) network"
proof -
  obtain p d solid where "position_of es (mv_entity move) = Inr p" "destination m move p = Inr d"
      and solid: "isSolidAtCoord m (fst d) (snd d) = Inr solid"
      and es': "es' = (if solid then es else set_position (mv_entity move) d es)"
      and n: "network' = map_option (queuePacket (fst (MovementPacket_new E move))) network"
    using assms by (auto simp: performMove_def andThen_eq_Inr)
  then have "mv_entity move < length es" by (simp add: position_of_Inr)
  then have "moved m {mv_entity move} es es'"
    using solid unfolding es' moved_def by auto
  then show ?thesis by (simp add: n queuePacket_def [abs_def] MovementPacket_new_def)
qed

lemma moved_mono: "moved m A es es' \<Longrightarrow> A \<subseteq> B \<Longrightarrow> moved m B es es'"
  unfolding moved_def by blast

lemma performMoves_moved:
  "foldR (performMove E m) moves (es, network) = Inr (es', network') \<Longrightarrow>
   moved m (mv_entity ` set moves) es es'
   \<and> network' = map_option (\<lambda>q. q @ replicate (length moves) (ClientPacket_new E MOVE)) network"
proof (induction moves arbitrary: es network)
  case Nil
  then show ?case by (simp add: moved_refl option.map_ident)
next
  case (Cons move moves)
  obtain es1 n1 where step: "performMove E m move (es, network) = Inr (es1, n1)"
      and rest: "foldR (performMove E m) moves (es1, n1) = Inr (es', network')"
    using Cons.prems by (auto simp: andThen_eq_Inr)
  have 1: "moved m (mv_entity ` set (move # moves)) es es1"
    using performMove_moved [OF step] by (auto intro: moved_mono)
  have 2: "moved m (mv_entity ` set (move # moves)) es1 es'"
    using Cons.IH [OF rest] by (auto intro: moved_mono)
  show ?case
    using moved_trans [OF 1 2] performMove_moved [OF step] Cons.IH [OF rest]
    by (simp add: option.map_comp comp_def)
qed

section \<open>Moves on the grid\<close>

text \<open>A step on the grid is exact: coordinates below two to the 24 are floats, and so are their sums.\<close>

lemma shifted_grid:
  assumes "0 < s" "\<bar>a\<bar> \<le> n" "\<bar>d\<bar> \<le> n" "\<bar>a + d\<bar> \<le> n" "n * s < 2 ^ 24"
  shows "shifted (of_int (a * s)) d s = Inr (of_int ((a + d) * s))"
proof -
  have bound: "\<bar>k * s\<bar> < 2 ^ 24" if "\<bar>k\<bar> \<le> n" for k
  proof -
    have "\<bar>k\<bar> * s \<le> n * s" using that assms(1) by (intro mult_right_mono) auto
    moreover have "\<bar>k * s\<bar> = \<bar>k\<bar> * s" using assms(1) by (simp add: abs_mult)
    ultimately show ?thesis using assms(5) by linarith
  qed
  have "int_times d s = Inr (d * s)" using bound [OF assms(3)] by (auto simp: int_times_def abs_less_iff)
  moreover have "fl (of_int (d * s)) = rat_of_int (d * s)" by (rule fl_int [OF bound [OF assms(3)]])
  moreover have "rat_of_int (a * s) + of_int (d * s) = of_int ((a + d) * s)" by (simp add: algebra_simps)
  moreover have "fl (of_int ((a + d) * s)) = rat_of_int ((a + d) * s)" by (rule fl_int [OF bound [OF assms(4)]])
  ultimately show ?thesis by (simp only: shifted_def andThen_Inr)
qed

text \<open>Maps whose pixels are exact floats and whose cells have a 32-bit index, one row beyond the map included.\<close>

definition playable :: "tmx_map \<Rightarrow> bool" where
  "playable m \<longleftrightarrow> 0 < tm_width m \<and> 0 < tm_height m \<and> 0 < tm_tileWidth m \<and> 0 < tm_tileHeight m
     \<and> tm_width m * tm_tileWidth m < 2 ^ 24 \<and> tm_height m * tm_tileHeight m < 2 ^ 24
     \<and> tm_width m * (tm_height m + 1) < 2 ^ 32"

definition corner :: "tmx_map \<Rightarrow> int \<Rightarrow> int \<Rightarrow> vec2" where
  "corner m x y = (of_int (x * tm_tileWidth m), of_int (y * tm_tileHeight m))"

lemma playable_bound:
  assumes "0 < s" "n * s < (2::int) ^ 24" "\<bar>k\<bar> \<le> n" 
  shows "\<bar>k * s\<bar> < 2 ^ 24" "0 < n \<Longrightarrow> s < 2 ^ 24"
proof -
  have "\<bar>k\<bar> * s \<le> n * s" using assms by (intro mult_right_mono) auto
  moreover have "\<bar>k * s\<bar> = \<bar>k\<bar> * s" using assms(1) by (simp add: abs_mult)
  ultimately show "\<bar>k * s\<bar> < 2 ^ 24" using assms(2) by linarith
  show "s < 2 ^ 24" if "0 < n"
  proof -
    have "1 * s \<le> n * s" using assms that by (intro mult_right_mono) auto
    then show ?thesis using assms(2) by simp
  qed
qed

lemma solid_at_corner:
  assumes "playable m" "\<bar>x\<bar> \<le> tm_width m" "\<bar>y\<bar> \<le> tm_height m" "x + tm_width m * y < 2 ^ 32"
  shows "isSolidAtCoord (Map_new u m) (fst (corner m x y)) (snd (corner m x y)) =
    (if x < 0 \<or> y < 0 then Inl UndefinedConversion
     else if x + tm_width m * y < tm_width m * tm_height m
       then Inr (solid_cell m ((x + tm_width m * y) mod tm_width m) ((x + tm_width m * y) div tm_width m))
     else Inl OutOfBounds)"
proof -
  have p: "0 < tm_width m" "0 < tm_height m" "0 < tm_tileWidth m" "0 < tm_tileHeight m"
      "tm_width m * tm_tileWidth m < 2 ^ 24" "tm_height m * tm_tileHeight m < 2 ^ 24"
      "tm_width m * (tm_height m + 1) < 2 ^ 32"
    using assms(1) by (simp_all add: playable_def)
  have "tm_width m * tm_height m \<le> 2 ^ 32" using p(1,7) by (simp add: algebra_simps)
  then show ?thesis
    unfolding corner_def fst_conv snd_conv
    using playable_bound [OF p(3,5) assms(2)] playable_bound [OF p(4,6) assms(3)] p assms(4)
    by (intro isSolidAtCoord_grid) auto
qed

lemma solid_inside:
  assumes "playable m" "0 \<le> x" "x < tm_width m" "0 \<le> y" "y < tm_height m"
  shows "isSolidAtCoord (Map_new u m) (fst (corner m x y)) (snd (corner m x y)) = Inr (solid_cell m x y)"
proof -
  have r: "x + tm_width m * y < tm_width m * tm_height m" using index_in_range assms(2-5) by blast
  moreover have "tm_width m * (tm_height m + 1) < 2 ^ 32" "0 < tm_width m" using assms(1) by (simp_all add: playable_def)
  ultimately have "x + tm_width m * y < 2 ^ 32" by (simp add: algebra_simps)
  then show ?thesis using solid_at_corner [OF assms(1), of x y u] r assms(2-5) by simp
qed

lemma destination_corner:
  assumes "playable m" "0 \<le> x" "x \<le> tm_width m" "0 \<le> y" "y \<le> tm_height m"
    and "0 \<le> x + mv_xTiles move" "x + mv_xTiles move \<le> tm_width m"
    and "0 \<le> y + mv_yTiles move" "y + mv_yTiles move \<le> tm_height m"
  shows "destination (Map_new u m) move (corner m x y) = Inr (corner m (x + mv_xTiles move) (y + mv_yTiles move))"
proof -
  have "shifted (of_int (x * tm_tileWidth m)) (mv_xTiles move) (tm_tileWidth m)
      = Inr (of_int ((x + mv_xTiles move) * tm_tileWidth m))"
    using assms by (intro shifted_grid [where n = "tm_width m"]) (auto simp: playable_def)
  moreover have "shifted (of_int (y * tm_tileHeight m)) (mv_yTiles move) (tm_tileHeight m)
      = Inr (of_int ((y + mv_yTiles move) * tm_tileHeight m))"
    using assms by (intro shifted_grid [where n = "tm_height m"]) (auto simp: playable_def)
  ultimately show ?thesis by (simp add: destination_def corner_def getTileWidth_def getTileHeight_def)
qed

text \<open>A step from one tile's corner to another's inside the map.\<close>

lemma performMove_corner:
  assumes "playable m" "mv_entity move < length es" "en_position (es ! mv_entity move) = Some (corner m x y)"
    and "0 \<le> x" "x < tm_width m" "0 \<le> y" "y < tm_height m"
    and "0 \<le> x + mv_xTiles move" "x + mv_xTiles move < tm_width m"
    and "0 \<le> y + mv_yTiles move" "y + mv_yTiles move < tm_height m"
  shows "performMove E (Map_new u m) move (es, network) =
    Inr (if solid_cell m (x + mv_xTiles move) (y + mv_yTiles move) then es
         else set_position (mv_entity move) (corner m (x + mv_xTiles move) (y + mv_yTiles move)) es,
         map_option (queuePacket (ClientPacket_new E MOVE)) network)"
  using destination_corner [of m x y move u] solid_inside [of m "x + mv_xTiles move" "y + mv_yTiles move" u] assms
  by (simp add: performMove_def position_of_def MovementPacket_new_def)

end
