(* ===== verification/CharacterPackets.thy ===== *)
theory CharacterPackets imports LoginPackets begin

text \<open>
  The packets of character selection (include/net/packets/CharacterPackets.hpp,
  src/net/packets/CharacterPacket.cpp), the JSON form of a character (ODB/Character.hpp) and the
  error packet (include/net/packets/ErrorPackets.hpp). A character loses fields on its way: the
  reader does not take the race, the writer does not write the location, and the three 64-bit
  statistics are written through a 32-bit \<open>int\<close>.
\<close>

section \<open>Character::toJson and PlayerCharacters\<close>

definition Character_toJson :: "chara \<Rightarrow> jevent list" where
  "Character_toJson c =
     [StartObject,
      wString ''id'', wInt64 (ch_id c),
      wString ''playerID'', wInt64 (ch_playerID c),
      wString ''name'', wString (ch_name c),
      wString ''raceID'', wInt64 (ch_raceID c),
      wString ''maxHP'', wInt (ucast (ch_maxHP c)),
      wString ''strength'', wInt (ucast (ch_strength c)),
      wString ''intelligence'', wInt (ucast (ch_intelligence c)),
      EndObject]"

definition characters_events :: "chara list \<Rightarrow> jevent list" where
  "characters_events cs =
     [StartObject, wString ''characters'', StartArray] @ concat (map Character_toJson cs)
     @ [EndArray, EndObject]"

definition character_decode :: "json \<Rightarrow> chara res" where
  "character_decode playerObject =
     andThen (andThen (jMember playerObject ''name'') jGetString) (\<lambda>name.
     andThen (andThen (jMember playerObject ''maxHP'') jGetInt) (\<lambda>maxHP.
     andThen (andThen (jMember playerObject ''strength'') jGetInt) (\<lambda>str.
     andThen (andThen (jMember playerObject ''intelligence'') jGetInt) (\<lambda>intelligence.
     andThen (andThen (jMember playerObject ''id'') jGetInt64) (\<lambda>id.
     andThen (andThen (jMember playerObject ''playerID'') jGetInt64) (\<lambda>playerID.
     Inr ((Character_new name (scast maxHP) (scast str) (scast intelligence))
            \<lparr>ch_id := id, ch_playerID := playerID\<rparr>)))))))"

definition characters_decode :: "json \<Rightarrow> chara list res" where
  "characters_decode d = andThen (andThen (jMember d ''characters'') jArray) (mapR character_decode)"

definition PlayerCharacters_new :: "('b, 'm) buffer_api_scheme \<Rightarrow> chara list \<Rightarrow> 'b packet" where
  "PlayerCharacters_new E cs =
     pkSized E (toJSON E (characters_events cs)) (ServerPacket_new E PLAYER_CHARACTERS)"

definition character_doc :: "chara \<Rightarrow> json" where
  "character_doc c = JObject
     [(''id'', JInt (sint (ch_id c))), (''playerID'', JInt (sint (ch_playerID c))),
      (''name'', JString (c_str (ch_name c))), (''raceID'', JInt (sint (ch_raceID c))),
      (''maxHP'', JInt (sint (ucast (ch_maxHP c) :: u32))),
      (''strength'', JInt (sint (ucast (ch_strength c) :: u32))),
      (''intelligence'', JInt (sint (ucast (ch_intelligence c) :: u32)))]"

definition characters_doc :: "chara list \<Rightarrow> json" where
  "characters_doc cs = JObject [(''characters'', JArray (map character_doc cs))]"

text \<open>The 32-bit reading of a 64-bit statistic.\<close>

definition through_int :: "u64 \<Rightarrow> u64" where
  "through_int x = scast (ucast x :: u32)"

definition character_view :: "chara \<Rightarrow> chara" where
  "character_view c =
     \<lparr>ch_id = ch_id c, ch_playerID = ch_playerID c, ch_name = c_str (ch_name c), ch_raceID = 0,
      ch_locationID = 0, ch_maxHP = through_int (ch_maxHP c), ch_currentHP = through_int (ch_maxHP c),
      ch_strength = through_int (ch_strength c), ch_intelligence = through_int (ch_intelligence c)\<rparr>"

lemma character_decode_doc: "character_decode (character_doc c) = Inr (character_view c)"
  by (simp add: character_decode_def character_doc_def character_view_def through_int_def
      Character_new_def json_simps)

interpretation characters:
  json_packet characters_events characters_doc characters_decode "map character_view"
proof
  fix cs :: "chara list"
  have "Character_toJson = (\<lambda>c. events_of (character_doc c))"
    by (simp add: fun_eq_iff Character_toJson_def character_doc_def json_simps)
  then show "characters_events cs = events_of (characters_doc cs)"
    by (simp add: characters_events_def characters_doc_def json_simps comp_def)
  have "mapR character_decode (map character_doc cs) = Inr (map character_view cs)"
    by (induction cs) (simp_all add: character_decode_doc)
  then show "characters_decode (characters_doc cs) = Inr (map character_view cs)"
    by (simp add: characters_decode_def characters_doc_def json_simps)
qed

text \<open>A statistic arrives unchanged exactly when it is an \<open>int\<close>.\<close>

lemma sint_through_int: "sint (through_int x) = signed_take_bit 31 (sint x)"
proof -
  have "sint (through_int x) = sint (ucast x :: u32)"
    unfolding through_int_def by (rule sint_up_scast) (simp add: is_up)
  also have "\<dots> = signed_take_bit 31 (sint x)"
    by transfer (simp add: signed_take_bit_take_bit)
  finally show ?thesis .
qed

lemma through_int_exact: "through_int x = x \<longleftrightarrow> - (2 ^ 31) \<le> sint x \<and> sint x < 2 ^ 31"
proof -
  have "through_int x = x \<longleftrightarrow> sint (through_int x) = sint x"
    by (auto simp: word_eq_iff_signed)
  then show ?thesis
    by (simp add: sint_through_int signed_take_bit_int_eq_self_iff)
qed

section \<open>The other packets\<close>

definition ClientRequestCharacters_new :: "('b, 'm) buffer_api_scheme \<Rightarrow> 'b packet" where
  "ClientRequestCharacters_new E = ClientPacket_new E REQUEST_CHARACTERS"

definition CharacterSelect_new :: "('b, 'm) buffer_api_scheme \<Rightarrow> u64 \<Rightarrow> 'b packet" where
  "CharacterSelect_new E characterID = pkLong E characterID (ClientPacket_new E CHARACTER_SELECT)"

definition CharacterSelect_of :: "('b, 'm) buffer_api_scheme \<Rightarrow> chara \<Rightarrow> 'b packet" where
  "CharacterSelect_of E c = CharacterSelect_new E (ch_id c)"

definition NoMapServerError_new :: "('b, 'm) buffer_api_scheme \<Rightarrow> string \<Rightarrow> 'b packet" where
  "NoMapServerError_new E message = pkSized E message (ServerPacket_new E NO_MAP_SERVER_ERROR)"

definition MalformedPacket_new :: "('b, 'm) buffer_api_scheme \<Rightarrow> 'b packet" where
  "MalformedPacket_new E = ServerPacket_new E MALFORMED_PACKET"

end
