(* ===== verification/Client.thy ===== *)
theory Client imports ClientMovement CharacterPackets "HOL-Library.Multiset" begin

text \<open>
  The client (client-include/PlayPG.hpp, client/PlayPG.cpp): logging in, choosing a character,
  waiting for a map server, and playing. A frame is one call of \<open>render\<close>; which keys were just
  pressed is an argument of it.
\<close>

section \<open>The engine\<close>

datatype system = MOVEMENT | INPUT | CAMERA | RENDER

text \<open>
  ashley runs its systems in an order it makes of their priorities, and an iterating system visits
  the entities of its family in some order.
\<close>

record ashley =
  as_run_order :: "(system \<times> int) list \<Rightarrow> system list"
  as_visit_order :: "nat list \<Rightarrow> nat list"

text \<open>Documented of ashley: ascending priorities, and each member of the family once.\<close>

definition ashley_spec :: "ashley \<Rightarrow> bool" where
  "ashley_spec A \<longleftrightarrow> (\<forall>ps. as_run_order A ps = map fst (sort_key snd ps)) \<and> (\<forall>is. mset (as_visit_order A is) = mset is)"

definition family :: "ashley \<Rightarrow> ('g entity \<Rightarrow> bool) \<Rightarrow> 'g entity list \<Rightarrow> nat list" where
  "family A P es = as_visit_order A (filter (\<lambda>i. P (es ! i)) [0..<length es])"

section \<open>The state\<close>

datatype game_state = LOGIN | CHARACTER_SELECTION | MAP_SERVER_CONNECT | PLAYING

record ('b, 's, 'k, 'g, 'w) client =
  cl_gameState :: game_state
  cl_mapOutdoor :: game_map
  cl_mapIndoor :: game_map
  cl_indoor :: bool
  cl_playerSprite :: 'g
  cl_outdoorRenderer :: tmx_map
  cl_indoorRenderer :: tmx_map
  cl_entities :: "'g entity list"
  cl_player :: "nat option"
  cl_movement :: "'b movement_system"
  cl_camera :: vec2
  cl_drawn :: "'g draw list"
  cl_currentCharacter :: "chara option"
  cl_username :: string
  cl_crypto :: "'k rsa_crypto option"
  cl_serverPubKey :: string
  cl_socket :: 's
  cl_world :: 'w

definition LOGIN_PORT :: u16 where "LOGIN_PORT = 10419"
definition screenWidth :: nat where "screenWidth = 1280"
definition screenHeight :: nat where "screenHeight = 720"

section \<open>changeToWorld\<close>

text \<open>The corner of the spawn tile, in \<open>int\<close>s that become floats.\<close>

definition spawnPosition :: "game_map \<Rightarrow> vec2 res" where
  "spawnPosition m =
     andThen (int_times (fst (gm_spawnPoint m)) (getTileWidth m)) (\<lambda>x.
     andThen (int_times (snd (gm_spawnPoint m)) (getTileHeight m)) (\<lambda>y.
     Inr (fl (of_int x), fl (of_int y))))"

definition player_entity :: "'g \<Rightarrow> vec2 \<Rightarrow> 'g entity" where
  "player_entity sprite position =
     Entity_new\<lparr>en_position := Some position, en_renderable := Some (Renderable_sprite sprite),
       en_keyboardInputListener := True, en_focalPoint := True\<rparr>"

text \<open>Both kinds of layers are made for the outdoor renderer, whatever the map; the movement system keeps its map.\<close>

definition changeToWorld ::
  "game_map \<Rightarrow> ('b, 's, 'k, 'g, 'w) client \<Rightarrow> ('b, 's, 'k, 'g, 'w) client res" where
  "changeToWorld m cl =
     (let front = generateFrontLayerEntities m (cl_outdoorRenderer cl) in
      andThen (spawnPosition m) (\<lambda>position.
      let back = generateBackLayerEntities m (cl_outdoorRenderer cl) in
      Inr (cl\<lparr>cl_entities := front @ [player_entity (cl_playerSprite cl) position] @ back,
              cl_player := Some (length front)\<rparr>)))"

text \<open>
  The constructor and \<open>init\<close>. \<open>getSocket\<close> and \<open>tmxRenderer\<close> are APG's: a socket for a host and a
  port, and the map a renderer loads from a file; \<open>uninit\<close> is the spawn point a map is created with.
\<close>

definition PlayPG_init ::
  "(string \<Rightarrow> u16 \<Rightarrow> 's) \<Rightarrow> (string \<Rightarrow> tmx_map) \<Rightarrow> int \<times> int \<Rightarrow> 'g \<Rightarrow> string list \<Rightarrow> 'w
     \<Rightarrow> ('b, 's, 'k, 'g, 'w) client res" where
  "PlayPG_init getSocket tmxRenderer uninit sprite args w =
     (let addr = (case args of [] \<Rightarrow> ''localhost'' | a # _ \<Rightarrow> a);
          outdoor = tmxRenderer ''assets/outdoor.tmx''; indoor = tmxRenderer ''assets/room1.tmx'';
          mapOutdoor = Map_new uninit outdoor; mapIndoor = Map_new uninit indoor
      in changeToWorld mapOutdoor
           \<lparr>cl_gameState = LOGIN, cl_mapOutdoor = mapOutdoor, cl_mapIndoor = mapIndoor, cl_indoor = False,
            cl_playerSprite = sprite, cl_outdoorRenderer = outdoor, cl_indoorRenderer = indoor,
            cl_entities = [], cl_player = None, cl_movement = MovementSystem_new mapOutdoor None,
            cl_camera = (0, 0), cl_drawn = [], cl_currentCharacter = None,
            cl_username = ''test@example.com'', cl_crypto = None, cl_serverPubKey = [],
            cl_socket = getSocket addr LOGIN_PORT, cl_world = w\<rparr>)"

section \<open>doLogin\<close>

text \<open>The first part, on a socket that is not connected: the challenge, its key, the check of the version.\<close>

definition receiveChallenge ::
  "('b, 's, 'k, 'w, 'm) platform_scheme \<Rightarrow> ('b, 's, 'k, 'g, 'w) client
     \<Rightarrow> (bool \<times> ('b, 's, 'k, 'g, 'w) client) res" where
  "receiveChallenge E cl =
     (let s1 = so_connect E (cl_socket cl) in
      if so_hasError E s1 then Inr (False, cl\<lparr>cl_socket := s1\<rparr>)
      else let (active, s2) = so_waitForActivity E (Some 2000) s1 in
      if \<not> active then Inr (False, cl\<lparr>cl_socket := s2\<rparr>)
      else let (_, s3) = so_recv E None s2; (opcode, s4) = so_getShort E s3 in
      if opcode \<noteq> server_opcode LOGIN_AUTHENTICATION_CHALLENGE then
        Inr (False, cl\<lparr>cl_socket := so_clear E s4\<rparr>)
      else let (jsonSize, s5) = so_getShort E s4; (json, s6) = so_getStringByLength E jsonSize s5 in
      andThen (fromJSON E challenge_decode json) (\<lambda>challenge.
      let cl1 = cl\<lparr>cl_serverPubKey := ac_pubKey challenge,
                   cl_crypto := Some (RSACrypto_public E (ac_pubKey challenge)),
                   cl_socket := so_clear E s6\<rparr> in
      if \<not> versionMatches E challenge then
        let (_, s7) = so_send E (so_put E (pk_buffer (VersionMismatch_new E)) (cl_socket cl1)) in
        Inr (False, cl1\<lparr>cl_socket := s7\<rparr>)
      else Inr (True, cl1)))"

text \<open>The second part: the password, encrypted with the key at hand, and the server's verdict.\<close>

definition sendIdentity ::
  "('b, 's, 'k, 'w, 'm) platform_scheme \<Rightarrow> ('b, 's, 'k, 'g, 'w) client
     \<Rightarrow> (bool \<times> ('b, 's, 'k, 'g, 'w) client) res" where
  "sendIdentity E cl =
     andThen (deref NullDeref (cl_crypto cl)) (\<lambda>crypto.
     andThen (encryptStringPublic E crypto ''testa'' (cl_world cl)) (\<lambda>(encPass, w).
     let identity = AuthenticationIdentity_new E \<lparr>ai_username = cl_username cl, ai_password = encPass\<rparr>;
         (_, s1) = so_send E (so_put E (pk_buffer identity) (cl_socket cl));
         (_, s2) = so_waitForActivity E (Some 2000) (so_clear E s1);
         (_, s3) = so_recv E None s2;
         (respOpcode, s4) = so_getShort E s3;
         cl1 = cl\<lparr>cl_world := w, cl_socket := s4\<rparr> in
     if respOpcode \<noteq> server_opcode LOGIN_AUTHENTICATION_RESPONSE then Inr (False, cl1)
     else let (respSize, s5) = so_getShort E s4; (respJSON, s6) = so_getStringByLength E respSize s5 in
     andThen (fromJSON E response_decode respJSON) (\<lambda>response.
     if \<not> ar_successful response then
       Inr (False, cl1\<lparr>cl_socket := if ar_attemptsRemaining response = 0 then so_disconnect E s6 else s6\<rparr>)
     else Inr (True, cl1\<lparr>cl_socket := s6\<rparr>))))"

definition doLogin ::
  "('b, 's, 'k, 'w, 'm) platform_scheme \<Rightarrow> ('b, 's, 'k, 'g, 'w) client
     \<Rightarrow> (bool \<times> ('b, 's, 'k, 'g, 'w) client) res" where
  "doLogin E cl =
     andThen (if \<not> so_isConnected E (cl_socket cl) then receiveChallenge E cl
              else Inr (True, cl\<lparr>cl_socket := so_clear E (cl_socket cl)\<rparr>))
       (\<lambda>(greeted, cl1). if \<not> greeted then Inr (False, cl1) else sendIdentity E cl1)"

section \<open>Choosing a character and a map server\<close>

text \<open>The first character of the list is chosen.\<close>

definition selectCharacter ::
  "('b, 's, 'k, 'w, 'm) platform_scheme \<Rightarrow> ('b, 's, 'k, 'g, 'w) client \<Rightarrow> ('b, 's, 'k, 'g, 'w) client res" where
  "selectCharacter E cl =
     (let (_, s1) = so_send E (so_putShort E (client_opcode REQUEST_CHARACTERS) (so_clear E (cl_socket cl)));
          (_, s2) = so_waitForActivity E None s1;
          (charBytes, s3) = so_recv E None s2 in
      if charBytes = 0 then Inr (cl\<lparr>cl_socket := s3\<rparr>)
      else let (charOpcode, s4) = so_getShort E s3 in
      if charOpcode \<noteq> server_opcode PLAYER_CHARACTERS then Inr (cl\<lparr>cl_socket := s4\<rparr>)
      else let (jsonLength, s5) = so_getShort E s4; (json, s6) = so_getStringByLength E jsonLength s5 in
      andThen (fromJSON E characters_decode json) (\<lambda>characters.
      case characters of
        [] \<Rightarrow> Inr (cl\<lparr>cl_socket := s6\<rparr>)
      | first # _ \<Rightarrow>
          let (_, s7) = reply E (CharacterSelect_of E first) s6 in
          Inr (cl\<lparr>cl_currentCharacter := Some first, cl_socket := s7, cl_gameState := MAP_SERVER_CONNECT\<rparr>)))"

text \<open>The instructions are read and not followed.\<close>

definition awaitMapServer ::
  "('b, 's, 'k, 'w, 'm) platform_scheme \<Rightarrow> ('b, 's, 'k, 'g, 'w) client \<Rightarrow> ('b, 's, 'k, 'g, 'w) client res" where
  "awaitMapServer E cl =
     (let (_, s1) = so_waitForActivity E None (so_clear E (cl_socket cl));
          (bytesRec, s2) = so_recv E None s1 in
      if bytesRec = 0 then Inr (cl\<lparr>cl_socket := s2\<rparr>)
      else let (opcode, s3) = so_getShort E s2 in
      if opcode = server_opcode NO_MAP_SERVER_ERROR then
        let (messageLength, s4) = so_getShort E s3; (message, s5) = so_getStringByLength E messageLength s4 in
        Inr (cl\<lparr>cl_gameState := CHARACTER_SELECTION, cl_socket := so_clear E s5\<rparr>)
      else if opcode = server_opcode MAP_SERVER_CONNECTION_INSTRUCTIONS then
        let (jsonLength, s4) = so_getShort E s3; (jsonString, s5) = so_getStringByLength E jsonLength s4 in
        andThen (fromJSON E instructions_decode jsonString) (\<lambda>msci.
        Inr (cl\<lparr>cl_gameState := PLAYING, cl_socket := so_clear E s5\<rparr>))
      else Inr (cl\<lparr>cl_gameState := CHARACTER_SELECTION, cl_socket := so_clear E s3\<rparr>))"

section \<open>Playing\<close>

text \<open>One system's update.\<close>

definition run_system ::
  "('b, 's, 'k, 'w, 'm) platform_scheme \<Rightarrow> ashley \<Rightarrow> (key \<Rightarrow> bool) \<Rightarrow> system
     \<Rightarrow> ('b, 's, 'k, 'g, 'w) client \<Rightarrow> ('b, 's, 'k, 'g, 'w) client res" where
  "run_system E A pressed sys cl =
     (case sys of
        INPUT \<Rightarrow>
          Inr (cl\<lparr>cl_movement := fold (InputSystem_processEntity pressed)
                    (family A en_keyboardInputListener (cl_entities cl)) (cl_movement cl)\<rparr>)
      | MOVEMENT \<Rightarrow>
          andThen (MovementSystem_update E (cl_movement cl) (cl_entities cl)) (\<lambda>(mo, es).
          Inr (cl\<lparr>cl_movement := mo, cl_entities := es\<rparr>))
      | CAMERA \<Rightarrow>
          foldR (\<lambda>i c. andThen (position_of (cl_entities cl) i) (\<lambda>p.
                  Inr (c\<lparr>cl_camera := CameraFocusSystem_processEntity screenWidth screenHeight p\<rparr>)))
            (family A (\<lambda>e. en_position e \<noteq> None \<and> en_focalPoint e) (cl_entities cl)) cl
      | RENDER \<Rightarrow>
          foldR (\<lambda>i c. andThen (drawEntity (cl_entities cl ! i)) (\<lambda>ds. Inr (c\<lparr>cl_drawn := cl_drawn c @ ds\<rparr>)))
            (family A (\<lambda>e. en_renderable e \<noteq> None \<and> en_position e \<noteq> None) (cl_entities cl))
            (cl\<lparr>cl_drawn := []\<rparr>))"

definition systems :: "(system \<times> int) list" where
  "systems = [(MOVEMENT, 6000), (INPUT, 5000), (CAMERA, 7500), (RENDER, 10000)]"

definition engine_update ::
  "('b, 's, 'k, 'w, 'm) platform_scheme \<Rightarrow> ashley \<Rightarrow> (key \<Rightarrow> bool)
     \<Rightarrow> ('b, 's, 'k, 'g, 'w) client \<Rightarrow> ('b, 's, 'k, 'g, 'w) client res" where
  "engine_update E A pressed cl = foldR (run_system E A pressed) (as_run_order A systems) cl"

definition switchWorld ::
  "(key \<Rightarrow> bool) \<Rightarrow> ('b, 's, 'k, 'g, 'w) client \<Rightarrow> ('b, 's, 'k, 'g, 'w) client res" where
  "switchWorld pressed cl =
     (if pressed KEY_RETURN then
        if cl_indoor cl then changeToWorld (cl_mapOutdoor cl) (cl\<lparr>cl_indoor := False\<rparr>)
        else changeToWorld (cl_mapIndoor cl) (cl\<lparr>cl_indoor := True\<rparr>)
      else Inr cl)"

section \<open>render\<close>

definition render ::
  "('b, 's, 'k, 'w, 'm) platform_scheme \<Rightarrow> ashley \<Rightarrow> (key \<Rightarrow> bool)
     \<Rightarrow> ('b, 's, 'k, 'g, 'w) client \<Rightarrow> ('b, 's, 'k, 'g, 'w) client res" where
  "render E A pressed cl =
     (case cl_gameState cl of
        LOGIN \<Rightarrow>
          if pressed KEY_SPACE then
            andThen (doLogin E cl) (\<lambda>(ok, cl1).
            Inr (if ok then cl1\<lparr>cl_gameState := CHARACTER_SELECTION\<rparr> else cl1))
          else if pressed KEY_1 then Inr (cl\<lparr>cl_username := ''SgtCoDFish@example.com''\<rparr>)
          else Inr cl
      | CHARACTER_SELECTION \<Rightarrow> if pressed KEY_RETURN then selectCharacter E cl else Inr cl
      | MAP_SERVER_CONNECT \<Rightarrow> awaitMapServer E cl
      | PLAYING \<Rightarrow> andThen (switchWorld pressed cl) (engine_update E A pressed))"

inductive client_step ::
  "('b, 's, 'k, 'w, 'm) platform_scheme \<Rightarrow> ashley \<Rightarrow> ('b, 's, 'k, 'g, 'w) client
     \<Rightarrow> ('b, 's, 'k, 'g, 'w) client \<Rightarrow> bool"
  for E A where
  Frame: "render E A pressed cl = Inr cl' \<Longrightarrow> client_step E A cl cl'"

inductive_cases client_stepE [elim]: "client_step E A cl cl'"

end
