(* ===== verification/ServerCommon.thy ===== *)
theory ServerCommon imports CxxStd begin

text \<open>What every server is told on its command line (server-include/ServerCommon.hpp, server/ServerCommon.cpp).\<close>

datatype ServerType = LOGIN_SERVER | WORLD_SERVER

datatype DatabaseType = MYSQL

record server_details =
  sd_friendlyName :: string
  sd_hostName :: string
  sd_port :: u16
  sd_serverType :: ServerType
  sd_maps :: "string list option"
  sd_publicKeyFile :: "string option"
  sd_privateKeyFile :: "string option"

definition ServerDetails_new ::
  "string \<Rightarrow> string \<Rightarrow> u16 \<Rightarrow> ServerType \<Rightarrow> string list option \<Rightarrow> string option \<Rightarrow> string option
     \<Rightarrow> server_details" where
  "ServerDetails_new friendlyName hostName port serverType maps publicKeyFile privateKeyFile =
     \<lparr>sd_friendlyName = friendlyName, sd_hostName = hostName, sd_port = port,
      sd_serverType = serverType, sd_maps = maps, sd_publicKeyFile = publicKeyFile,
      sd_privateKeyFile = privateKeyFile\<rparr>"

record database_details =
  dd_databaseType :: DatabaseType
  dd_hostName :: string
  dd_port :: u16
  dd_fullHostName :: string
  dd_userName :: string
  dd_password :: string

definition DatabaseDetails_new ::
  "string \<Rightarrow> u16 \<Rightarrow> string \<Rightarrow> string \<Rightarrow> DatabaseType \<Rightarrow> database_details" where
  "DatabaseDetails_new hostName port username password databaseType =
     \<lparr>dd_databaseType = databaseType, dd_hostName = hostName, dd_port = port,
      dd_fullHostName = hostName @ '':'' @ dec_string (unat port),
      dd_userName = username, dd_password = password\<rparr>"

section \<open>The base of both servers\<close>

text \<open>
  The constructors the base class calls: APG's sockets and acceptors, with the size of their
  buffers and its default, and ODB's connection to a MySQL database.
\<close>

record ('s, 'a, 'd) net_api =
  na_socket :: "string \<Rightarrow> u16 \<Rightarrow> bool \<Rightarrow> u32 \<Rightarrow> 's"
  na_acceptor :: "u16 \<Rightarrow> bool \<Rightarrow> u32 \<Rightarrow> 'a"
  na_acceptor_hasError :: "'a \<Rightarrow> bool"
  na_BB_DEFAULT_SIZE :: u32
  na_mysql_database :: "string \<Rightarrow> string \<Rightarrow> string \<Rightarrow> string \<Rightarrow> u16 \<Rightarrow> 'd"

text \<open>\<open>getSocket\<close> and \<open>getAcceptorSocket\<close>; an argument left out has the default of the declaration.\<close>

definition Server_getSocket ::
  "('s, 'a, 'd) net_api \<Rightarrow> string \<Rightarrow> u16 \<Rightarrow> bool option \<Rightarrow> u32 option \<Rightarrow> 's" where
  "Server_getSocket N hostname port autoConnect bufferSize =
     na_socket N hostname port (case autoConnect of None \<Rightarrow> False | Some b \<Rightarrow> b)
       (case bufferSize of None \<Rightarrow> na_BB_DEFAULT_SIZE N | Some n \<Rightarrow> n)"

definition Server_getAcceptorSocket ::
  "('s, 'a, 'd) net_api \<Rightarrow> u16 \<Rightarrow> bool option \<Rightarrow> u32 option \<Rightarrow> 'a" where
  "Server_getAcceptorSocket N port autoListen bufferSize =
     na_acceptor N port (case autoListen of None \<Rightarrow> False | Some b \<Rightarrow> b)
       (case bufferSize of None \<Rightarrow> na_BB_DEFAULT_SIZE N | Some n \<Rightarrow> n)"

definition Server_getDatabaseConnection :: "('s, 'a, 'd) net_api \<Rightarrow> database_details \<Rightarrow> 'd" where
  "Server_getDatabaseConnection N details =
     na_mysql_database N (c_str (dd_userName details)) (c_str (dd_password details)) ''ppg''
       (c_str (dd_hostName details)) (dd_port details)"

text \<open>The seed of the random numbers: two draws of \<open>std::random_device\<close>, the left operand's above the
  right one's; which of them is drawn first is the compiler's choice.\<close>

unbundle bit_operations_syntax

definition twister_seed :: "u32 \<Rightarrow> u32 \<Rightarrow> u64" where
  "twister_seed first second = push_bit 32 (ucast first) OR ucast second"

record 'd server_base =
  sb_serverDetails :: server_details
  sb_databaseDetails :: database_details
  sb_db :: 'd
  sb_seed :: u64

text \<open>The constructor; the draws are what the random device gives.\<close>

definition Server_new ::
  "('s, 'a, 'd) net_api \<Rightarrow> server_details \<Rightarrow> database_details \<Rightarrow> u32 \<times> u32 \<Rightarrow> 'd server_base" where
  "Server_new N serverDetails databaseDetails draws =
     \<lparr>sb_serverDetails = serverDetails, sb_databaseDetails = databaseDetails,
      sb_db = Server_getDatabaseConnection N databaseDetails,
      sb_seed = twister_seed (fst draws) (snd draws)\<rparr>"

text \<open>No randomness is lost: the seed determines both draws.\<close>

lemma twister_seed_parts:
  "ucast (drop_bit 32 (twister_seed a b)) = a" "ucast (twister_seed a b) = b"
  unfolding twister_seed_def by (rule bit_word_eqI, auto simp: bit_simps dest: bit_imp_le_length)+

lemma twister_seed_inject: "twister_seed a b = twister_seed c d \<longleftrightarrow> a = c \<and> b = d"
  by (metis twister_seed_parts)

end
