(* ===== verification/LoginState.thy ===== *)
theory LoginState imports PlayerSession ServerCommon LoginPackets begin

text \<open>
  The state of the login server (server-include/LoginServer.hpp): connections that have not
  authenticated, sessions and their index by user name, map servers and their index by map name.
  Sessions live on a heap, owned by the list \<open>playerSessions\<close> and pointed to by the index; map
  servers live in a vector, with pointers into it from their index.
\<close>

section \<open>Incoming connections\<close>

datatype incoming_state = FRESH | CHALLENGE_SENT | LOGIN_FAILED | MAP_LIST | MAP_WAIT_ACK | DONE

text \<open>The enumeration's order is the order in which a connection goes through its states.\<close>

primrec state_rank :: "incoming_state \<Rightarrow> nat" where
  "state_rank FRESH = 0"
| "state_rank CHALLENGE_SENT = 1"
| "state_rank LOGIN_FAILED = 2"
| "state_rank MAP_LIST = 3"
| "state_rank MAP_WAIT_ACK = 4"
| "state_rank DONE = 5"

instantiation incoming_state :: linorder
begin

definition less_eq_incoming_state :: "incoming_state \<Rightarrow> incoming_state \<Rightarrow> bool" where
  "less_eq_incoming_state a b = (state_rank a \<le> state_rank b)"

definition less_incoming_state :: "incoming_state \<Rightarrow> incoming_state \<Rightarrow> bool" where
  "less_incoming_state a b = (state_rank a < state_rank b)"

instance
proof
  fix a b c :: incoming_state
  show "a < b \<longleftrightarrow> a \<le> b \<and> \<not> b \<le> a"
    by (auto simp: less_eq_incoming_state_def less_incoming_state_def)
  show "a \<le> a" by (simp add: less_eq_incoming_state_def)
  show "a \<le> b \<Longrightarrow> b \<le> c \<Longrightarrow> a \<le> c" by (simp add: less_eq_incoming_state_def)
  show "a \<le> b \<Longrightarrow> b \<le> a \<Longrightarrow> a = b"
    by (cases a; cases b) (simp_all add: less_eq_incoming_state_def)
  show "a \<le> b \<or> b \<le> a" by (auto simp: less_eq_incoming_state_def)
qed

end

lemmas state_order = less_eq_incoming_state_def less_incoming_state_def

definition MAX_ATTEMPTS_ALLOWED :: int where
  "MAX_ATTEMPTS_ALLOWED = 3"

record 's incoming =
  ic_socket :: "'s option"
  ic_state :: incoming_state
  ic_loginAttempts :: int
  ic_mapServerFriendlyName :: "string option"
  ic_mapServerPort :: "u16 option"
  ic_mapServerListenAddress :: "string option"
  ic_maps :: "location list option"

definition IncomingConnection_new :: "'s \<Rightarrow> 's incoming" where
  "IncomingConnection_new socket =
     \<lparr>ic_socket = Some socket, ic_state = FRESH, ic_loginAttempts = 0,
      ic_mapServerFriendlyName = None, ic_mapServerPort = None,
      ic_mapServerListenAddress = None, ic_maps = None\<rparr>"

definition getAttemptsRemaining :: "'s incoming \<Rightarrow> int" where
  "getAttemptsRemaining c = MAX_ATTEMPTS_ALLOWED - ic_loginAttempts c"

section \<open>The server\<close>

record 's map_server_connection =
  mc_connection :: "'s option"
  mc_maps :: "location list"
  mc_friendlyName :: string
  mc_hostname :: string
  mc_port :: u16

definition MapServerConnection_new ::
  "string \<Rightarrow> u16 \<Rightarrow> 's option \<Rightarrow> location list \<Rightarrow> string \<Rightarrow> 's map_server_connection" where
  "MapServerConnection_new hostname port connection maps friendlyName =
     \<lparr>mc_connection = connection, mc_maps = maps, mc_friendlyName = friendlyName,
      mc_hostname = hostname, mc_port = port\<rparr>"

text \<open>
  \<open>ls_sessionHeap\<close> holds the sessions by address; a slot of \<open>ls_playerSessions\<close> is the address its
  \<open>unique_ptr\<close> owns, or null. \<open>ls_nextGUID\<close> is the static counter of \<open>PlayerSession\<close>; \<open>ls_world\<close> the
  database, the clock and the random source.
\<close>

record ('s, 'k, 'w) login_server =
  ls_details :: server_details
  ls_crypto :: "'k rsa_crypto option"
  ls_hasher :: sha_crypto
  ls_playerSessions :: "nat option list"
  ls_sessionHeap :: "nat \<rightharpoonup> 's player_session"
  ls_nextAddress :: nat
  ls_nextGUID :: u64
  ls_usernameToPlayerSession :: "string \<rightharpoonup> nat"
  ls_incomingConnections :: "'s incoming list"
  ls_allMaps :: "location list"
  ls_mapServers :: "'s map_server_connection vec"
  ls_mapIDToName :: "u64 \<rightharpoonup> string"
  ls_mapNameToConnection :: "string \<rightharpoonup> vec_ptr"
  ls_done :: bool
  ls_world :: 'w

end
