(* ===== verification/LoginIncoming.thy ===== *)
theory LoginIncoming imports LoginState begin

text \<open>
  The handlers of connections that have not authenticated (server/LoginServerIncomingHandler.cpp).
  A handler takes a connection and the server and gives both afterwards. \<open>processIncoming\<close> runs
  the handler of each connection's state, again and again, and purges the connections that are done.
\<close>

section \<open>Replies\<close>

definition auth_reply ::
  "('b, 's, 'm) socket_api_scheme \<Rightarrow> bool \<Rightarrow> int \<Rightarrow> string \<Rightarrow> 's \<Rightarrow> 's" where
  "auth_reply E ok attempts message s =
     snd (reply E (AuthenticationResponse_new E ok (of_int attempts) message) s)"

text \<open>A lost attempt: the state, the count, and a response that tells what is left.\<close>

definition lose_attempt ::
  "('b, 's, 'm) socket_api_scheme \<Rightarrow> string \<Rightarrow> 's \<Rightarrow> 's incoming \<Rightarrow> 's incoming" where
  "lose_attempt E message s c =
     (let c1 = c\<lparr>ic_state := LOGIN_FAILED, ic_loginAttempts := ic_loginAttempts c + 1\<rparr>
      in c1\<lparr>ic_socket := Some (auth_reply E False (getAttemptsRemaining c1) message s)\<rparr>)"

definition LOCKED_MESSAGE :: string where
  "LOCKED_MESSAGE = ''Account is locked. If you think this is an error, please contact an administrator.''"

section \<open>Sessions\<close>

text \<open>
  \<open>playerSessions.emplace_back(move(newSession))\<close> and the entry in the index, which stays with
  the first session of a user name.
\<close>

definition add_session ::
  "'s player_session \<Rightarrow> ('s, 'k, 'w) login_server \<Rightarrow> ('s, 'k, 'w) login_server" where
  "add_session session ls =
     (let back = ls_nextAddress ls in
      ls\<lparr>ls_sessionHeap := (ls_sessionHeap ls)(back \<mapsto> session),
         ls_nextAddress := Suc back,
         ls_playerSessions := ls_playerSessions ls @ [Some back],
         ls_usernameToPlayerSession :=
           um_emplace (ps_username session) back (ls_usernameToPlayerSession ls)\<rparr>)"

text \<open>The second transaction: the time of the login is stored.\<close>

definition loginUpdate ::
  "('b, 's, 'k, 'w, 'm) platform_scheme \<Rightarrow> u64 \<Rightarrow> 'w \<Rightarrow> 'w res" where
  "loginUpdate E playerID w =
     (let (loaded, w1) = db_load_player E playerID (db_begin E w) in
      andThen (deref DbException loaded) (\<lambda>player.
      let (now, w2) = clock_universal E w1 in
      Inr (db_commit E (db_update_player E (player\<lparr>pl_lastLogin := Some now\<rparr>) w2))))"

section \<open>processLoginAttempt\<close>

definition processLoginAttempt ::
  "('b, 's, 'k, 'w, 'm) platform_scheme \<Rightarrow> auth_identity \<Rightarrow> 's incoming \<Rightarrow> ('s, 'k, 'w) login_server
     \<Rightarrow> (bool \<times> 's incoming \<times> ('s, 'k, 'w) login_server) res" where
  "processLoginAttempt E authID c ls =
     andThen (deref NullDeref (ls_crypto ls)) (\<lambda>crypto.
     andThen (decryptStringPrivate E crypto (ai_password authID)) (\<lambda>decPass.
     let (result, w) = db_players_by_username E (ai_username authID) (db_begin E (ls_world ls)) in
     andThen (deref NullDeref (ic_socket c)) (\<lambda>s.
     case result of
       [] \<Rightarrow> Inr (False, lose_attempt E ''Authentication failure.'' s c, ls\<lparr>ls_world := db_commit E w\<rparr>)
     | person # _ \<Rightarrow>
        let dbSalt = stringToSalt (pl_salt person) in
        if pl_locked person then
          Inr (False,
               c\<lparr>ic_socket := Some (so_disconnect E (auth_reply E False 0 LOCKED_MESSAGE s)),
                 ic_state := DONE\<rparr>,
               ls\<lparr>ls_world := db_commit E w\<rparr>)
        else if pl_password person = sha256ToString (hashPasswordSHA256 E (ls_hasher ls) decPass dbSalt) then
          let s1 = auth_reply E True (getAttemptsRemaining c) ''Authentication successful.'' s in
          andThen (PlayerSession_new E (pl_id person) (ai_username authID) s1 (ls_nextGUID ls) w)
            (\<lambda>(newSession, guid, w1).
          let ls1 = add_session newSession (ls\<lparr>ls_nextGUID := guid\<rparr>) in
          andThen (loginUpdate E (pl_id person) (db_commit E w1)) (\<lambda>w2.
          Inr (True, c\<lparr>ic_socket := None, ic_state := DONE\<rparr>, ls1\<lparr>ls_world := w2\<rparr>)))
        else Inr (False, lose_attempt E ''Authentication failure.'' s c, ls\<lparr>ls_world := db_commit E w\<rparr>))))"

section \<open>processMapAuthenticationRequest\<close>

definition processMapAuthenticationRequest ::
  "('b, 's, 'm) socket_api_scheme \<Rightarrow> 's incoming \<Rightarrow> (bool \<times> 's incoming) res" where
  "processMapAuthenticationRequest E c =
     andThen (deref NullDeref (ic_socket c)) (\<lambda>s.
     let (respSent, s1) = reply E (MapServerRegistrationResponse_new E ''hello, world'') s in
     if respSent \<le> 0 then Inr (False, c\<lparr>ic_socket := Some s1\<rparr>)
     else Inr (True, c\<lparr>ic_socket := Some s1, ic_state := MAP_LIST\<rparr>))"

section \<open>processFreshSocket\<close>

definition processFreshSocket ::
  "('b, 's, 'k, 'w, 'm) platform_scheme \<Rightarrow> 'b packet \<Rightarrow> 's incoming \<Rightarrow> ('s, 'k, 'w) login_server
     \<Rightarrow> ('s incoming \<times> ('s, 'k, 'w) login_server) res" where
  "processFreshSocket E challenge c ls =
     andThen (deref NullDeref (ic_socket c)) (\<lambda>s.
     let (_, s1) = reply E challenge s in
     Inr (c\<lparr>ic_socket := Some s1,
            ic_state := if so_hasError E s1 then DONE else CHALLENGE_SENT\<rparr>, ls))"

section \<open>processChallengeSentSocket\<close>

text \<open>Both handlers of login packets end with the check of the attempts.\<close>

definition exhaust_attempts :: "'s incoming \<Rightarrow> 's incoming" where
  "exhaust_attempts c =
     (if ic_loginAttempts c = MAX_ATTEMPTS_ALLOWED then c\<lparr>ic_state := DONE\<rparr> else c)"

definition login_packet ::
  "('b, 's, 'k, 'w, 'm) platform_scheme \<Rightarrow> string \<Rightarrow> 's incoming \<Rightarrow> ('s, 'k, 'w) login_server
     \<Rightarrow> ('s incoming \<times> ('s, 'k, 'w) login_server) res" where
  "login_packet E json c ls =
     andThen (fromJSON E identity_decode json) (\<lambda>authID.
     andThen (processLoginAttempt E authID c ls) (\<lambda>(_, c', ls').
     Inr (exhaust_attempts c', ls')))"

definition read_registration ::
  "('b, 's, 'm) socket_api_scheme \<Rightarrow> 's \<Rightarrow> string \<times> string \<times> u16 \<times> 's" where
  "read_registration E s =
     (let (nameLen, s1) = so_getShort E s; (name, s2) = so_getStringByLength E nameLen s1;
          (addressLen, s3) = so_getShort E s2; (address, s4) = so_getStringByLength E addressLen s3;
          (port, s5) = so_getShort E s4
      in (name, address, port, s5))"

definition processChallengeSentSocket ::
  "('b, 's, 'k, 'w, 'm) platform_scheme \<Rightarrow> 's incoming \<Rightarrow> ('s, 'k, 'w) login_server
     \<Rightarrow> ('s incoming \<times> ('s, 'k, 'w) login_server) res" where
  "processChallengeSentSocket E c ls =
     andThen (deref NullDeref (ic_socket c)) (\<lambda>s.
     let (activity, s0) = so_hasActivity E s in
     if \<not> activity then Inr (c\<lparr>ic_socket := Some s0\<rparr>, ls)
     else let (bytesFromChallenge, s1) = so_recv E (Some 2048) s0 in
     if bytesFromChallenge = 0 then Inr (c\<lparr>ic_socket := Some s1, ic_state := DONE\<rparr>, ls)
     else let (opcode, s2) = so_getShort E s1 in
     if opcode = client_opcode LOGIN_AUTHENTICATION_IDENTITY then
       let (jsonLength, s3) = so_getShort E s2; (json, s4) = so_getStringByLength E jsonLength s3 in
       login_packet E json (c\<lparr>ic_socket := Some (so_clear E s4)\<rparr>) ls
     else if opcode = client_opcode VERSION_MISMATCH then
       Inr (c\<lparr>ic_socket := Some (so_clear E s2), ic_state := DONE\<rparr>, ls)
     else if opcode = server_opcode MAP_SERVER_REGISTRATION_REQUEST then
       let (name, address, port, s3) = read_registration E s2 in
       andThen (processMapAuthenticationRequest E
           (c\<lparr>ic_socket := Some (so_clear E s3), ic_mapServerFriendlyName := Some name,
              ic_mapServerListenAddress := Some address, ic_mapServerPort := Some port\<rparr>))
         (\<lambda>(ok, c'). if \<not> ok then Inr (c', ls) else Inr (exhaust_attempts c', ls))
     else Inr (exhaust_attempts (lose_attempt E ''Unexpected data.'' s2 c), ls))"

section \<open>processLoginFailedSocket\<close>

definition processLoginFailedSocket ::
  "('b, 's, 'k, 'w, 'm) platform_scheme \<Rightarrow> 's incoming \<Rightarrow> ('s, 'k, 'w) login_server
     \<Rightarrow> ('s incoming \<times> ('s, 'k, 'w) login_server) res" where
  "processLoginFailedSocket E c ls =
     andThen (deref NullDeref (ic_socket c)) (\<lambda>s.
     let (activity, s0) = so_hasActivity E s in
     if \<not> activity then Inr (c\<lparr>ic_socket := Some s0\<rparr>, ls)
     else let (dataRec, s1) = so_recv E (Some 2048) s0 in
     if dataRec \<le> 0 then Inr (c\<lparr>ic_socket := Some s1, ic_state := DONE\<rparr>, ls)
     else let (opcode, s2) = so_getShort E s1 in
     if opcode = client_opcode LOGIN_AUTHENTICATION_IDENTITY then
       let (jsonLength, s3) = so_getShort E s2; (json, s4) = so_getStringByLength E jsonLength s3 in
       login_packet E json (c\<lparr>ic_socket := Some s4\<rparr>) ls
     else Inr (exhaust_attempts (lose_attempt E ''Unexpected data.'' s2 c), ls))"


section \<open>processMapListSocket\<close>

text \<open>
  The inner loop: the first map of this server with the offered name decides. What is logged is
  left out; \<open>responseMapList\<close> grows by this server's entry when the hashes agree and no map server
  has the map yet.
\<close>

fun checkMap ::
  "location \<Rightarrow> (string \<rightharpoonup> vec_ptr) \<Rightarrow> location list \<Rightarrow> location list \<Rightarrow> location list" where
  "checkMap mapID mapNameToConnection [] responseMapList = responseMapList"
| "checkMap mapID mapNameToConnection (ourMap # allMaps) responseMapList =
     (if lo_locationName mapID = lo_locationName ourMap then
        if lo_knownMD5Hash mapID = lo_knownMD5Hash ourMap then
          if um_find mapNameToConnection (lo_locationName mapID) = None
          then responseMapList @ [ourMap]
          else responseMapList
        else responseMapList
      else checkMap mapID mapNameToConnection allMaps responseMapList)"

definition requiredMaps ::
  "location list \<Rightarrow> (string \<rightharpoonup> vec_ptr) \<Rightarrow> location list \<Rightarrow> location list" where
  "requiredMaps allMaps mapNameToConnection mapHashes =
     fold (\<lambda>mapID. checkMap mapID mapNameToConnection allMaps) mapHashes []"

definition processMapListSocket ::
  "('b, 's, 'k, 'w, 'm) platform_scheme \<Rightarrow> 's incoming \<Rightarrow> ('s, 'k, 'w) login_server
     \<Rightarrow> ('s incoming \<times> ('s, 'k, 'w) login_server) res" where
  "processMapListSocket E c ls =
     andThen (deref NullDeref (ic_socket c)) (\<lambda>s.
     let (activity, s0) = so_hasActivity E s in
     if \<not> activity then Inr (c\<lparr>ic_socket := Some s0\<rparr>, ls)
     else let (listBytes, s1) = so_recv E None s0 in
     if listBytes = 0 then Inr (c\<lparr>ic_socket := Some s1, ic_state := DONE\<rparr>, ls)
     else let (opcode, s2) = so_getShort E s1 in
     if opcode \<noteq> server_opcode MAP_SERVER_MAP_LIST then
       Inr (c\<lparr>ic_socket := Some s2, ic_state := DONE\<rparr>, ls)
     else let (jsonLength, s3) = so_getShort E s2; (json, s4) = so_getStringByLength E jsonLength s3 in
     andThen (fromJSON E map_list_decode json) (\<lambda>mapHashes.
     let responseMapList = requiredMaps (ls_allMaps ls) (ls_mapNameToConnection ls) mapHashes in
     if responseMapList = [] then
       let (_, s5) = so_send E (so_putShort E (server_opcode MAP_SERVER_NOT_NEEDED) (so_clear E s4)) in
       Inr (c\<lparr>ic_socket := Some s5, ic_state := DONE\<rparr>, ls)
     else
       let (_, s5) = reply E (MapServerMapList_new E responseMapList) s4 in
       Inr (c\<lparr>ic_socket := Some s5, ic_maps := Some responseMapList, ic_state := MAP_WAIT_ACK\<rparr>, ls)))"

section \<open>processMapWaitAckSocket\<close>

text \<open>The new server at the back of the vector, and an index entry for each of its maps.\<close>

definition register_map_server ::
  "'s map_server_connection \<Rightarrow> ('s, 'k, 'w) login_server \<Rightarrow> ('s, 'k, 'w) login_server" where
  "register_map_server server ls =
     (let servers = vec_emplace_back server (ls_mapServers ls);
          newestServer = vec_back_ptr servers
      in ls\<lparr>ls_mapServers := servers,
            ls_mapNameToConnection :=
              fold (\<lambda>(name, p). um_emplace name p)
                (map (\<lambda>m. (lo_locationName m, newestServer)) (mc_maps server))
                (ls_mapNameToConnection ls)\<rparr>)"

text \<open>
  The four \<open>REQUIRE\<close>s come before the read. The socket and the maps are moved out of the connection:
  a null pointer and an empty vector stay behind. What the map server sent is not looked at.
\<close>

definition processMapWaitAckSocket ::
  "('b, 's, 'k, 'w, 'm) platform_scheme \<Rightarrow> 's incoming \<Rightarrow> ('s, 'k, 'w) login_server
     \<Rightarrow> ('s incoming \<times> ('s, 'k, 'w) login_server) res" where
  "processMapWaitAckSocket E c ls =
     andThen (deref NullDeref (ic_socket c)) (\<lambda>s.
     let (activity, s0) = so_hasActivity E s in
     if \<not> activity then Inr (c\<lparr>ic_socket := Some s0\<rparr>, ls)
     else
     andThen (deref RequireFailed (ic_maps c)) (\<lambda>maps.
     andThen (deref RequireFailed (ic_mapServerFriendlyName c)) (\<lambda>friendlyName.
     andThen (deref RequireFailed (ic_mapServerPort c)) (\<lambda>port.
     andThen (deref RequireFailed (ic_mapServerListenAddress c)) (\<lambda>address.
     let (bytesRec, s1) = so_recv E None s0 in
     if bytesRec = 0 then Inr (c\<lparr>ic_socket := Some s1, ic_state := DONE\<rparr>, ls)
     else Inr (c\<lparr>ic_socket := None, ic_maps := Some [], ic_state := DONE\<rparr>,
               register_map_server (MapServerConnection_new address port (Some s1) maps friendlyName) ls))))))"

definition processDoneSocket ::
  "'s incoming \<Rightarrow> ('s, 'k, 'w) login_server \<Rightarrow> ('s incoming \<times> ('s, 'k, 'w) login_server) res" where
  "processDoneSocket c ls = Inr (c, ls)"

section \<open>processIncoming\<close>

text \<open>One connection's turn: the check for a socket error, then the handler of its state.\<close>

definition check_error :: "('b, 's, 'm) socket_api_scheme \<Rightarrow> 's incoming \<Rightarrow> 's incoming res" where
  "check_error E c =
     (if ic_state c \<noteq> DONE then
        andThen (deref NullDeref (ic_socket c)) (\<lambda>s.
        Inr (if so_hasError E s then c\<lparr>ic_state := DONE\<rparr> else c))
      else Inr c)"

definition processState ::
  "('b, 's, 'k, 'w, 'm) platform_scheme \<Rightarrow> 'b packet \<Rightarrow> 's incoming \<Rightarrow> ('s, 'k, 'w) login_server
     \<Rightarrow> ('s incoming \<times> ('s, 'k, 'w) login_server) res" where
  "processState E challenge c ls =
     (case ic_state c of
        FRESH \<Rightarrow> processFreshSocket E challenge c ls
      | CHALLENGE_SENT \<Rightarrow> processChallengeSentSocket E c ls
      | LOGIN_FAILED \<Rightarrow> processLoginFailedSocket E c ls
      | MAP_LIST \<Rightarrow> processMapListSocket E c ls
      | MAP_WAIT_ACK \<Rightarrow> processMapWaitAckSocket E c ls
      | DONE \<Rightarrow> processDoneSocket c ls)"

definition processConnection ::
  "('b, 's, 'k, 'w, 'm) platform_scheme \<Rightarrow> 'b packet \<Rightarrow> 's incoming \<Rightarrow> ('s, 'k, 'w) login_server
     \<Rightarrow> ('s incoming \<times> ('s, 'k, 'w) login_server) res" where
  "processConnection E challenge c ls =
     andThen (check_error E c) (\<lambda>c'. processState E challenge c' ls)"

fun processConnections ::
  "('b, 's, 'k, 'w, 'm) platform_scheme \<Rightarrow> 'b packet \<Rightarrow> 's incoming list \<Rightarrow> ('s, 'k, 'w) login_server
     \<Rightarrow> ('s incoming list \<times> ('s, 'k, 'w) login_server) res" where
  "processConnections E challenge [] ls = Inr ([], ls)"
| "processConnections E challenge (c # cs) ls =
     andThen (processConnection E challenge c ls) (\<lambda>(c', ls1).
     andThen (processConnections E challenge cs ls1) (\<lambda>(cs', ls2).
     Inr (c' # cs', ls2)))"

definition purge_done :: "'s incoming list \<Rightarrow> 's incoming list" where
  "purge_done cs = filter (\<lambda>ic. ic_state ic \<noteq> DONE) cs"

text \<open>\<open>DONE_PURGE_TIME\<close> is 5.0; the time since the last purge is whole seconds.\<close>

definition DONE_PURGE_TIME :: int where
  "DONE_PURGE_TIME = 5"

text \<open>
  One pass of the loop \<open>while (!done)\<close>, with the seconds since the last purge; the flag tells that
  the purge ran, which restarts the clock.
\<close>

definition incomingPass ::
  "('b, 's, 'k, 'w, 'm) platform_scheme \<Rightarrow> 'b packet \<Rightarrow> int \<Rightarrow> ('s, 'k, 'w) login_server
     \<Rightarrow> (bool \<times> ('s, 'k, 'w) login_server) res" where
  "incomingPass E challenge timeSinceLastPurge ls =
     andThen (processConnections E challenge (ls_incomingConnections ls) ls) (\<lambda>(cs, ls').
     if timeSinceLastPurge > DONE_PURGE_TIME
     then Inr (True, ls'\<lparr>ls_incomingConnections := purge_done cs\<rparr>)
     else Inr (False, ls'\<lparr>ls_incomingConnections := cs\<rparr>))"

text \<open>The challenge that \<open>processIncoming\<close> makes once, before its loop.\<close>

definition incomingChallenge ::
  "('b, 's, 'k, 'w, 'm) platform_scheme \<Rightarrow> ('s, 'k, 'w) login_server \<Rightarrow> 'b packet res" where
  "incomingChallenge E ls =
     andThen (deref NullDeref (ls_crypto ls)) (\<lambda>crypto.
     Inr (AuthenticationChallenge_new E
       \<lparr>ac_version = Version_versionString E, ac_versionHash = Version_gitHash E,
        ac_name = sd_friendlyName (ls_details ls), ac_pubKey = rc_publicKey crypto\<rparr>))"

end
