(* ===== verification/LoginInvariants.thy ===== *)
theory LoginInvariants imports LoginIncoming begin

text \<open>
  Well-formedness of a connection and of the login server, and the contract of the incoming
  handlers: each keeps both, moves a connection only forward through its states, and can only
  fault on a malformed packet or a database exception. Every handler and the dispatcher interpret
  the contract; the loop over the connections is a client of it.
\<close>

section \<open>Well-formedness\<close>

definition registered_details :: "'s incoming \<Rightarrow> bool" where
  "registered_details c =
     (ic_mapServerFriendlyName c \<noteq> None \<and> ic_mapServerPort c \<noteq> None \<and> ic_mapServerListenAddress c \<noteq> None)"

text \<open>What each state of a connection promises, given the maps of the server.\<close>

definition conn_inv :: "location list \<Rightarrow> 's incoming \<Rightarrow> bool" where
  "conn_inv maps c =
     ((ic_socket c = None \<longrightarrow> ic_state c = DONE) \<and>
      (case ic_state c of
         FRESH \<Rightarrow> ic_loginAttempts c = 0
       | CHALLENGE_SENT \<Rightarrow> ic_loginAttempts c = 0
       | LOGIN_FAILED \<Rightarrow> 1 \<le> ic_loginAttempts c \<and> ic_loginAttempts c < MAX_ATTEMPTS_ALLOWED
       | MAP_LIST \<Rightarrow> ic_loginAttempts c = 0 \<and> registered_details c
       | MAP_WAIT_ACK \<Rightarrow> ic_loginAttempts c = 0 \<and> registered_details c
           \<and> (case ic_maps c of None \<Rightarrow> False | Some ms \<Rightarrow> ms \<noteq> [] \<and> set ms \<subseteq> set maps)
       | DONE \<Rightarrow> 0 \<le> ic_loginAttempts c \<and> ic_loginAttempts c \<le> MAX_ATTEMPTS_ALLOWED))"

definition owned :: "('s, 'k, 'w) login_server \<Rightarrow> nat set" where
  "owned ls = {a. Some a \<in> set (ls_playerSessions ls)}"

text \<open>
  Sessions: the owning pointers are present and distinct and own exactly what is allocated; an
  index entry points to a live session of its user name.
\<close>

definition sessions_inv :: "('s, 'k, 'w) login_server \<Rightarrow> bool" where
  "sessions_inv ls =
     (None \<notin> set (ls_playerSessions ls) \<and> distinct (ls_playerSessions ls) \<and>
      dom (ls_sessionHeap ls) = owned ls \<and>
      (\<forall>a \<in> owned ls. a < ls_nextAddress ls) \<and>
      (\<forall>u a. ls_usernameToPlayerSession ls u = Some a \<longrightarrow>
         (\<exists>s. ls_sessionHeap ls a = Some s \<and> ps_username s = u)))"

definition offers :: "'s map_server_connection \<Rightarrow> string \<Rightarrow> bool" where
  "offers server name = (name \<in> lo_locationName ` set (mc_maps server))"

text \<open>
  Map servers: an index entry leads to a server that offers the map, one of the login server's
  maps; while there are no more servers than maps, which is what the vector was reserved for, the
  pointer itself is valid.
\<close>

definition maps_inv :: "('s, 'k, 'w) login_server \<Rightarrow> bool" where
  "maps_inv ls =
     (length (ls_allMaps ls) \<le> v_cap (ls_mapServers ls) \<and>
      (\<forall>m \<in> set (v_elems (ls_mapServers ls)). set (mc_maps m) \<subseteq> set (ls_allMaps ls)) \<and>
      (\<forall>name p. ls_mapNameToConnection ls name = Some p \<longrightarrow>
         snd p < length (v_elems (ls_mapServers ls)) \<and>
         offers (v_elems (ls_mapServers ls) ! snd p) name \<and>
         (length (v_elems (ls_mapServers ls)) \<le> length (ls_allMaps ls) \<longrightarrow>
            vec_valid (ls_mapServers ls) p)))"

definition crypto_ready :: "('s, 'k, 'w) login_server \<Rightarrow> bool" where
  "crypto_ready ls = (case ls_crypto ls of None \<Rightarrow> False | Some c \<Rightarrow> usable c)"

definition server_inv :: "('s, 'k, 'w) login_server \<Rightarrow> bool" where
  "server_inv ls = (sessions_inv ls \<and> maps_inv ls \<and> crypto_ready ls)"

text \<open>The whole state: the server and every connection.\<close>

definition login_inv :: "('s, 'k, 'w) login_server \<Rightarrow> bool" where
  "login_inv ls = (server_inv ls \<and> (\<forall>c \<in> set (ls_incomingConnections ls). conn_inv (ls_allMaps ls) c))"

section \<open>State changes that keep the server well formed\<close>

lemma server_inv_world [inv_intros]: "server_inv (ls\<lparr>ls_world := w\<rparr>) = server_inv ls"
  by (simp add: server_inv_def sessions_inv_def maps_inv_def crypto_ready_def owned_def)

lemma server_inv_guid [inv_intros]: "server_inv (ls\<lparr>ls_nextGUID := g\<rparr>) = server_inv ls"
  by (simp add: server_inv_def sessions_inv_def maps_inv_def crypto_ready_def owned_def)

lemma server_inv_connections [inv_intros]:
  "server_inv (ls\<lparr>ls_incomingConnections := cs\<rparr>) = server_inv ls"
  by (simp add: server_inv_def sessions_inv_def maps_inv_def crypto_ready_def owned_def)

lemma add_session_simps [simp]:
  "ls_sessionHeap (add_session session ls) = (ls_sessionHeap ls)(ls_nextAddress ls \<mapsto> session)"
  "ls_nextAddress (add_session session ls) = Suc (ls_nextAddress ls)"
  "ls_playerSessions (add_session session ls) = ls_playerSessions ls @ [Some (ls_nextAddress ls)]"
  "ls_usernameToPlayerSession (add_session session ls) =
     um_emplace (ps_username session) (ls_nextAddress ls) (ls_usernameToPlayerSession ls)"
  "ls_allMaps (add_session session ls) = ls_allMaps ls"
  "ls_mapServers (add_session session ls) = ls_mapServers ls"
  "ls_mapNameToConnection (add_session session ls) = ls_mapNameToConnection ls"
  "ls_crypto (add_session session ls) = ls_crypto ls"
  by (simp_all add: add_session_def Let_def)

lemma server_inv_add_session [inv_intros]:
  assumes "server_inv ls"
  shows "server_inv (add_session session ls)"
proof -
  let ?a = "ls_nextAddress ls" and ?ls = "add_session session ls"
  have s: "sessions_inv ls" using assms by (simp add: server_inv_def)
  have owned: "owned ?ls = insert ?a (owned ls)"
    by (auto simp: owned_def)
  have fresh: "?a \<notin> owned ls" using s by (auto simp: sessions_inv_def)
  have unallocated: "ls_sessionHeap ls ?a = None"
    using s fresh by (auto simp: sessions_inv_def)
  have "\<exists>t. ls_sessionHeap ?ls a = Some t \<and> ps_username t = u"
    if "ls_usernameToPlayerSession ?ls u = Some a" for u a
  proof (cases "ls_usernameToPlayerSession ls u = Some a")
    case True
    then have "\<exists>t. ls_sessionHeap ls a = Some t \<and> ps_username t = u"
      using s by (simp add: sessions_inv_def)
    then show ?thesis using unallocated by auto
  next
    case False
    then show ?thesis
      using that by (auto simp: um_emplace_def split: if_splits)
  qed
  moreover have "dom (ls_sessionHeap ?ls) = owned ?ls"
    using s by (auto simp: owned sessions_inv_def)
  moreover have "\<forall>a \<in> owned ?ls. a < ls_nextAddress ?ls"
    using s by (auto simp: owned sessions_inv_def)
  moreover have "distinct (ls_playerSessions ?ls)" "None \<notin> set (ls_playerSessions ?ls)"
    using s fresh by (auto simp: sessions_inv_def owned_def)
  ultimately have "sessions_inv ?ls" by (simp add: sessions_inv_def)
  then show ?thesis
    using assms by (simp add: server_inv_def maps_inv_def crypto_ready_def)
qed

text \<open>The index after a registration: old entries stay, the server's other maps point to it.\<close>

lemma register_index:
  "ls_mapNameToConnection (register_map_server server ls) name =
     (case ls_mapNameToConnection ls name of
        Some p \<Rightarrow> Some p
      | None \<Rightarrow> if offers server name then Some (vec_back_ptr (vec_emplace_back server (ls_mapServers ls)))
               else None)"
proof -
  let ?p = "vec_back_ptr (vec_emplace_back server (ls_mapServers ls))"
  have "map_of (map (\<lambda>m. (lo_locationName m, ?p)) ms) name =
          (if name \<in> lo_locationName ` set ms then Some ?p else None)" for ms :: "location list"
    by (induction ms) auto
  then show ?thesis
    using um.lookup_emplace_many
      [of "map (\<lambda>m. (lo_locationName m, ?p)) (mc_maps server)" "ls_mapNameToConnection ls" name]
    by (simp add: register_map_server_def Let_def um_find_def offers_def split: option.split)
qed

lemma register_servers [simp]:
  "ls_mapServers (register_map_server server ls) = vec_emplace_back server (ls_mapServers ls)"
  "ls_allMaps (register_map_server server ls) = ls_allMaps ls"
  "ls_crypto (register_map_server server ls) = ls_crypto ls"
  by (simp_all add: register_map_server_def Let_def)

lemma maps_inv_register:
  assumes "maps_inv ls" "set (mc_maps server) \<subseteq> set (ls_allMaps ls)"
  shows "maps_inv (register_map_server server ls)"
proof -
  let ?v = "ls_mapServers ls" and ?ls = "register_map_server server ls"
  let ?p = "vec_back_ptr (vec_emplace_back server ?v)"
  have cap: "length (ls_allMaps ls) \<le> v_cap ?v" using assms by (simp add: maps_inv_def)
  have entry: "snd p < length (v_elems (ls_mapServers ?ls)) \<and> offers (v_elems (ls_mapServers ?ls) ! snd p) name
      \<and> (length (v_elems (ls_mapServers ?ls)) \<le> length (ls_allMaps ls) \<longrightarrow> vec_valid (ls_mapServers ?ls) p)"
    if "ls_mapNameToConnection ?ls name = Some p" for name p
  proof (cases "ls_mapNameToConnection ls name")
    case None
    then have "p = ?p" "offers server name"
      using that by (auto simp: register_index split: if_splits)
    then show ?thesis by (simp add: vec_back_ptr_def vec_valid_def)
  next
    case (Some q)
    then have q: "q = p" using that by (simp add: register_index)
    have old: "snd p < length (v_elems ?v)" "offers (v_elems ?v ! snd p) name"
        "length (v_elems ?v) \<le> length (ls_allMaps ls) \<longrightarrow> vec_valid ?v p"
      using assms(1) Some q by (cases p, auto simp: maps_inv_def)+
    have "vec_valid (vec_emplace_back server ?v) p"
      if "Suc (length (v_elems ?v)) \<le> length (ls_allMaps ls)"
      using that cap old(3) by (intro vec_emplace_back_within_cap) auto
    then show ?thesis using old by (auto simp: nth_append)
  qed
  have "length (ls_allMaps ls) \<le> v_cap (vec_emplace_back server ?v)"
    using cap by (auto simp: vec_emplace_back_def)
  then show ?thesis
    unfolding maps_inv_def using entry assms by (auto simp: maps_inv_def)
qed

lemma server_inv_register [inv_intros]:
  assumes "server_inv ls" "set (mc_maps server) \<subseteq> set (ls_allMaps ls)"
  shows "server_inv (register_map_server server ls)"
  using assms maps_inv_register [of ls server]
  by (simp add: server_inv_def sessions_inv_def crypto_ready_def owned_def register_map_server_def Let_def)


section \<open>State changes that keep a connection well formed\<close>

lemma conn_inv_attempts:
  "conn_inv maps c \<Longrightarrow> 0 \<le> ic_loginAttempts c \<and> ic_loginAttempts c \<le> MAX_ATTEMPTS_ALLOWED"
  by (cases "ic_state c") (auto simp: conn_inv_def MAX_ATTEMPTS_ALLOWED_def)

lemma conn_inv_socket: "conn_inv maps c \<Longrightarrow> ic_state c \<noteq> DONE \<Longrightarrow> \<exists>s. ic_socket c = Some s"
  by (auto simp: conn_inv_def)

lemma conn_inv_set_socket [inv_intros]: "conn_inv maps c \<Longrightarrow> conn_inv maps (c\<lparr>ic_socket := Some s\<rparr>)"
  by (auto simp: conn_inv_def registered_details_def split: incoming_state.splits)

lemma conn_inv_done [inv_intros]:
  "conn_inv maps c \<Longrightarrow> conn_inv maps (c\<lparr>ic_state := DONE\<rparr>)"
  "conn_inv maps c \<Longrightarrow> conn_inv maps (c\<lparr>ic_socket := s, ic_state := DONE\<rparr>)"
  "conn_inv maps c \<Longrightarrow> conn_inv maps (c\<lparr>ic_socket := s, ic_state := DONE, ic_maps := ms\<rparr>)"
  using conn_inv_attempts [of maps c] by (simp_all add: conn_inv_def)

lemma forward_done [simp]: "s \<le> DONE"
  by (cases s) (simp_all add: state_order)

lemma lose_attempt_simps [simp]:
  "ic_state (lose_attempt E m s c) = LOGIN_FAILED"
  "ic_loginAttempts (lose_attempt E m s c) = ic_loginAttempts c + 1"
  "ic_socket (lose_attempt E m s c) \<noteq> None"
  by (simp_all add: lose_attempt_def Let_def)

text \<open>A lost attempt, then the check of the attempts.\<close>

lemma conn_inv_lose_attempt [inv_intros]:
  assumes "conn_inv maps c" "ic_state c = CHALLENGE_SENT \<or> ic_state c = LOGIN_FAILED"
  shows "conn_inv maps (exhaust_attempts (lose_attempt E m s c))"
    and "ic_state c \<le> ic_state (exhaust_attempts (lose_attempt E m s c))"
proof -
  have "0 \<le> ic_loginAttempts c" "ic_loginAttempts c < MAX_ATTEMPTS_ALLOWED"
    using assms by (auto simp: conn_inv_def MAX_ATTEMPTS_ALLOWED_def)
  then show "conn_inv maps (exhaust_attempts (lose_attempt E m s c))"
    by (auto simp: conn_inv_def exhaust_attempts_def)
  show "ic_state c \<le> ic_state (exhaust_attempts (lose_attempt E m s c))"
    using assms(2) by (auto simp: exhaust_attempts_def state_order)
qed

section \<open>The outcomes of a login attempt\<close>

lemma processLoginAttempt_cases:
  assumes "processLoginAttempt E authID c ls = Inr (b, c', ls')"
  obtains
    (lost) s w where "ic_socket c = Some s" "\<not> b"
      "c' = lose_attempt E ''Authentication failure.'' s c" "ls' = ls\<lparr>ls_world := w\<rparr>"
  | (locked) s w where "\<not> b" "c' = c\<lparr>ic_socket := Some s, ic_state := DONE\<rparr>" "ls' = ls\<lparr>ls_world := w\<rparr>"
  | (success) session g w where "b" "c' = c\<lparr>ic_socket := None, ic_state := DONE\<rparr>"
      "ls' = (add_session session (ls\<lparr>ls_nextGUID := g\<rparr>))\<lparr>ls_world := w\<rparr>"
      "ps_username session = ai_username authID"
proof -
  obtain crypto decPass where dec: "ls_crypto ls = Some crypto"
      "decryptStringPrivate E crypto (ai_password authID) = Inr decPass"
    using assms by (auto simp: processLoginAttempt_def andThen_eq_Inr deref_eq_Inr)
  obtain result w where q: "db_players_by_username E (ai_username authID) (db_begin E (ls_world ls)) = (result, w)"
    by fastforce
  obtain s where s: "ic_socket c = Some s"
    using assms by (auto simp: processLoginAttempt_def andThen_eq_Inr deref_eq_Inr Let_def q)
  note run = assms [unfolded processLoginAttempt_def dec q s deref_simps andThen_Inr Let_def prod.case]
  show thesis
  proof (cases result)
    case Nil
    with run have "\<not> b" "c' = lose_attempt E ''Authentication failure.'' s c"
      "ls' = ls\<lparr>ls_world := db_commit E w\<rparr>" by simp_all
    then show thesis by (rule lost [OF s])
  next
    case (Cons person rest)
    note run = run [unfolded Cons list.case]
    show thesis
    proof (cases "pl_locked person")
      case True
      with run have "\<not> b" "c' = c\<lparr>ic_socket := Some (so_disconnect E (auth_reply E False 0 LOCKED_MESSAGE s)),
          ic_state := DONE\<rparr>" "ls' = ls\<lparr>ls_world := db_commit E w\<rparr>" by simp_all
      then show thesis by (rule locked)
    next
      case unlocked: False
      show thesis
      proof (cases "pl_password person =
          sha256ToString (hashPasswordSHA256 E (ls_hasher ls) decPass (stringToSalt (pl_salt person)))")
        case False
        with run unlocked have "\<not> b" "c' = lose_attempt E ''Authentication failure.'' s c"
          "ls' = ls\<lparr>ls_world := db_commit E w\<rparr>" by simp_all
        then show thesis by (rule lost [OF s])
      next
        case True
        note run = run [simplified unlocked True if_True if_False simp_thms]
        then obtain session g w1 w2 where new: "PlayerSession_new E (pl_id person) (ai_username authID)
              (auth_reply E True (getAttemptsRemaining c) ''Authentication successful.'' s) (ls_nextGUID ls) w
            = Inr (session, g, w1)"
          and out: "b" "c' = c\<lparr>ic_socket := None, ic_state := DONE\<rparr>"
            "ls' = (add_session session (ls\<lparr>ls_nextGUID := g\<rparr>))\<lparr>ls_world := w2\<rparr>"
          by (auto simp: andThen_eq_Inr)
        have "ps_username session = ai_username authID"
          using PlayerSession_new_total [of E "pl_id person" "ai_username authID"
              "auth_reply E True (getAttemptsRemaining c) ''Authentication successful.'' s" "ls_nextGUID ls" w] new
          by auto
        then show thesis using success out by blast
      qed
    qed
  qed
qed

text \<open>What a login that succeeded had found, and all it left behind.\<close>

lemma processLoginAttempt_success:
  assumes "processLoginAttempt E authID c ls = Inr (True, c', ls')"
  obtains crypto password s person rest w session v where
    "ls_crypto ls = Some crypto" "decryptStringPrivate E crypto (ai_password authID) = Inr password"
    "ic_socket c = Some s"
    "db_players_by_username E (ai_username authID) (db_begin E (ls_world ls)) = (person # rest, w)"
    "\<not> pl_locked person"
    "pl_password person = sha256ToString (hashPasswordSHA256 E (ls_hasher ls) password (stringToSalt (pl_salt person)))"
    "c' = c\<lparr>ic_socket := None, ic_state := DONE\<rparr>"
    "ls' = (add_session session (ls\<lparr>ls_nextGUID := ls_nextGUID ls + 1\<rparr>))\<lparr>ls_world := v\<rparr>"
    "ps_username session = ai_username authID" "ps_playerID session = pl_id person" "ps_characterID session = 0"
    "ps_socket session = auth_reply E True (getAttemptsRemaining c) ''Authentication successful.'' s"
proof -
  obtain crypto password where dec: "ls_crypto ls = Some crypto"
      "decryptStringPrivate E crypto (ai_password authID) = Inr password"
    using assms by (auto simp: processLoginAttempt_def andThen_eq_Inr deref_eq_Inr)
  obtain result w where q: "db_players_by_username E (ai_username authID) (db_begin E (ls_world ls)) = (result, w)"
    by fastforce
  obtain s where s: "ic_socket c = Some s"
    using assms by (auto simp: processLoginAttempt_def andThen_eq_Inr deref_eq_Inr Let_def q)
  obtain person rest where r: "result = person # rest" "\<not> pl_locked person"
      "pl_password person = sha256ToString (hashPasswordSHA256 E (ls_hasher ls) password (stringToSalt (pl_salt person)))"
    using assms dec q s by (cases result) (auto simp: processLoginAttempt_def Let_def split: if_splits)
  let ?s = "auth_reply E True (getAttemptsRemaining c) ''Authentication successful.'' s"
  obtain session u where new: "PlayerSession_new E (pl_id person) (ai_username authID) ?s (ls_nextGUID ls) w
      = Inr (session, ls_nextGUID ls + 1, u)" "ps_username session = ai_username authID"
      "ps_playerID session = pl_id person" "ps_characterID session = 0" "ps_socket session = ?s"
    using PlayerSession_new_total [of E "pl_id person" "ai_username authID" ?s "ls_nextGUID ls" w] by blast
  obtain v where "c' = c\<lparr>ic_socket := None, ic_state := DONE\<rparr>"
      "ls' = (add_session session (ls\<lparr>ls_nextGUID := ls_nextGUID ls + 1\<rparr>))\<lparr>ls_world := v\<rparr>"
    using assms dec q s r new(1) by (auto simp: processLoginAttempt_def Let_def andThen_eq_Inr)
  with dec s q r new show thesis by (intro that) auto
qed

definition input_fault :: "fault \<Rightarrow> bool" where
  "input_fault e = (e = JsonPrecondition \<or> e = AssertFailed \<or> e = DbException)"

text \<open>A login that the server has no reason to refuse; the account is still there for the second transaction.\<close>

lemma processLoginAttempt_succeeds:
  assumes "ls_crypto ls = Some crypto" "decryptStringPrivate E crypto (ai_password authID) = Inr password"
    and "ic_socket c = Some s"
    and "db_players_by_username E (ai_username authID) (db_begin E (ls_world ls)) = (person # rest, w)"
    and "\<not> pl_locked person"
      "pl_password person = sha256ToString (hashPasswordSHA256 E (ls_hasher ls) password (stringToSalt (pl_salt person)))"
    and "fst (db_load_player E (pl_id person) (db_begin E (db_commit E (snd (rnd_getDiceRoll E w))))) \<noteq> None"
  shows "\<exists>session g v. processLoginAttempt E authID c ls
      = Inr (True, c\<lparr>ic_socket := None, ic_state := DONE\<rparr>, (add_session session (ls\<lparr>ls_nextGUID := g\<rparr>))\<lparr>ls_world := v\<rparr>)
    \<and> ps_username session = ai_username authID \<and> ps_playerID session = pl_id person
    \<and> ps_socket session = auth_reply E True (getAttemptsRemaining c) ''Authentication successful.'' s"
proof -
  let ?s = "auth_reply E True (getAttemptsRemaining c) ''Authentication successful.'' s"
  let ?v = "snd (rnd_getDiceRoll E w)"
  obtain session where new: "PlayerSession_new E (pl_id person) (ai_username authID) ?s (ls_nextGUID ls) w
        = Inr (session, ls_nextGUID ls + 1, ?v)"
      "ps_username session = ai_username authID" "ps_playerID session = pl_id person" "ps_socket session = ?s"
    by (simp add: PlayerSession_new_def generateSessionKey_eq case_prod_beta)
  obtain u where "loginUpdate E (pl_id person) (db_commit E ?v) = Inr u"
    using assms(7) by (auto simp: loginUpdate_def case_prod_beta Let_def)
  then have "processLoginAttempt E authID c ls = Inr (True, c\<lparr>ic_socket := None, ic_state := DONE\<rparr>,
      (add_session session (ls\<lparr>ls_nextGUID := ls_nextGUID ls + 1\<rparr>))\<lparr>ls_world := u\<rparr>)"
    using assms(1-6) new(1) by (simp add: processLoginAttempt_def Let_def)
  then show ?thesis using new(2-4) by blast
qed

lemma processLoginAttempt_faults:
  assumes "processLoginAttempt E authID c ls = Inl e" "crypto_ready ls" "ic_socket c \<noteq> None"
  shows "e = DbException"
proof -
  obtain crypto where crypto: "ls_crypto ls = Some crypto" "usable crypto"
    using assms(2) by (auto simp: crypto_ready_def split: option.splits)
  obtain s where s: "ic_socket c = Some s" using assms(3) by auto
  obtain str where dec: "decryptStringPrivate E crypto (ai_password authID) = Inr str"
    using decrypt_total [OF crypto(2)] by blast
  have new: "PlayerSession_new E p u so g w \<noteq> Inl e" for p u so g w
    using PlayerSession_new_total [of E p u so g w] by auto
  have load: "loginUpdate E p w = Inl e \<Longrightarrow> e = DbException" for p w
    by (auto simp: loginUpdate_def andThen_eq_Inl deref_def Let_def split: option.splits prod.splits)
  show ?thesis
    using assms(1) unfolding processLoginAttempt_def crypto(1) s
    by (auto simp: dec Let_def andThen_eq_Inl new dest: load split: prod.splits list.splits if_splits)
qed

lemma text_input_fault: "text_fault e \<Longrightarrow> input_fault e"
  by (auto simp: text_fault_def input_fault_def)

lemmas identity_decode_faults = text_input_fault [OF identity_decode_text]
lemmas map_list_decode_faults = text_input_fault [OF map_list_decode_text]

end
