(* ===== verification/LoginHandlers.thy ===== *)
theory LoginHandlers imports LoginInvariants begin

text \<open>
  The contract \<open>incoming_handler\<close>, its interpretation for every handler of an incoming connection
  and for the dispatcher, and its client, the loop over all connections.
\<close>

section \<open>The contract\<close>

text \<open>What no handler changes.\<close>

definition static ::
  "('s, 'k, 'w) login_server \<Rightarrow> server_details \<times> 'k rsa_crypto option \<times> sha_crypto \<times> location list
     \<times> (u64 \<rightharpoonup> string) \<times> bool \<times> 's incoming list" where
  "static ls = (ls_details ls, ls_crypto ls, ls_hasher ls, ls_allMaps ls, ls_mapIDToName ls, ls_done ls,
     ls_incomingConnections ls)"

locale incoming_handler =
  fixes handle :: "'s incoming \<Rightarrow> ('s, 'k, 'w) login_server
      \<Rightarrow> ('s incoming \<times> ('s, 'k, 'w) login_server) res"
    and accepts :: "incoming_state set"
  assumes keeps_connection: "ic_state c \<in> accepts \<Longrightarrow> conn_inv (ls_allMaps ls) c \<Longrightarrow> server_inv ls \<Longrightarrow>
      handle c ls = Inr (c', ls') \<Longrightarrow> conn_inv (ls_allMaps ls) c'"
    and keeps_server: "ic_state c \<in> accepts \<Longrightarrow> conn_inv (ls_allMaps ls) c \<Longrightarrow> server_inv ls \<Longrightarrow>
      handle c ls = Inr (c', ls') \<Longrightarrow> server_inv ls'"
    and keeps_static: "ic_state c \<in> accepts \<Longrightarrow> conn_inv (ls_allMaps ls) c \<Longrightarrow> server_inv ls \<Longrightarrow>
      handle c ls = Inr (c', ls') \<Longrightarrow> static ls' = static ls"
    and forward: "ic_state c \<in> accepts \<Longrightarrow> conn_inv (ls_allMaps ls) c \<Longrightarrow> server_inv ls \<Longrightarrow>
      handle c ls = Inr (c', ls') \<Longrightarrow> ic_state c \<le> ic_state c'"
    and faults: "ic_state c \<in> accepts \<Longrightarrow> conn_inv (ls_allMaps ls) c \<Longrightarrow> server_inv ls \<Longrightarrow>
      handle c ls = Inl e \<Longrightarrow> input_fault e"
begin

lemma keeps_maps:
  "ic_state c \<in> accepts \<Longrightarrow> conn_inv (ls_allMaps ls) c \<Longrightarrow> server_inv ls \<Longrightarrow>
   handle c ls = Inr (c', ls') \<Longrightarrow> ls_allMaps ls' = ls_allMaps ls"
  using keeps_static [of c ls c' ls'] by (simp add: static_def)

lemma done_stays:
  "DONE \<in> accepts \<Longrightarrow> ic_state c = DONE \<Longrightarrow> conn_inv (ls_allMaps ls) c \<Longrightarrow> server_inv ls \<Longrightarrow>
   handle c ls = Inr (c', ls') \<Longrightarrow> ic_state c' = DONE"
  using forward [of c ls c' ls'] by (cases "ic_state c'") (simp_all add: state_order)

lemma step_keeps:
  "ic_state c \<in> accepts \<Longrightarrow> conn_inv (ls_allMaps ls) c \<Longrightarrow> server_inv ls \<Longrightarrow> handle c ls = Inr (c', ls')
    \<Longrightarrow> conn_inv (ls_allMaps ls') c' \<and> server_inv ls' \<and> static ls' = static ls"
  using keeps_connection keeps_server keeps_static keeps_maps by metis

lemma socket_or_fault:
  "ic_state c \<in> accepts \<Longrightarrow> conn_inv (ls_allMaps ls) c \<Longrightarrow> server_inv ls \<Longrightarrow>
   handle c ls \<noteq> Inl NullDeref \<and> handle c ls \<noteq> Inl RequireFailed"
  using faults [of c ls NullDeref] faults [of c ls RequireFailed] by (auto simp: input_fault_def)

end

text \<open>The laws in one piece, for the proofs of the handlers.\<close>

definition well_handled ::
  "'s incoming \<Rightarrow> ('s, 'k, 'w) login_server \<Rightarrow> ('s incoming \<times> ('s, 'k, 'w) login_server) res \<Rightarrow> bool" where
  "well_handled c ls r =
     (case r of
        Inl e \<Rightarrow> input_fault e
      | Inr (c', ls') \<Rightarrow> conn_inv (ls_allMaps ls) c' \<and> server_inv ls' \<and> static ls' = static ls
          \<and> ic_state c \<le> ic_state c')"

lemma well_Inr: "well_handled c ls (Inr (c', ls')) \<longleftrightarrow>
  conn_inv (ls_allMaps ls) c' \<and> server_inv ls' \<and> static ls' = static ls \<and> ic_state c \<le> ic_state c'"
  by (simp add: well_handled_def)

lemma well_andThen: "well_handled c ls (andThen m f) \<longleftrightarrow>
  (\<forall>e. m = Inl e \<longrightarrow> input_fault e) \<and> (\<forall>x. m = Inr x \<longrightarrow> well_handled c ls (f x))"
  by (cases m) (auto simp: well_handled_def)

lemma incoming_handlerI:
  assumes "\<And>c ls. ic_state c \<in> accepts \<Longrightarrow> conn_inv (ls_allMaps ls) c \<Longrightarrow> server_inv ls \<Longrightarrow>
    well_handled c ls (handle c ls)"
  shows "incoming_handler handle accepts"
  using assms by unfold_locales (fastforce simp: well_handled_def)+

section \<open>Helpers of the handlers\<close>

lemma static_updates [simp]:
  "static (ls\<lparr>ls_world := w\<rparr>) = static ls" "static (ls\<lparr>ls_nextGUID := g\<rparr>) = static ls"
  "static (add_session session ls) = static ls" "static (register_map_server server ls) = static ls"
  by (simp_all add: static_def add_session_def register_map_server_def Let_def)

lemma server_inv_login [inv_intros]:
  "server_inv ls \<Longrightarrow> server_inv ((add_session session (ls\<lparr>ls_nextGUID := g\<rparr>))\<lparr>ls_world := w\<rparr>)"
  by (simp add: server_inv_world server_inv_add_session server_inv_guid)

lemma exhaust_done: "ic_state c = DONE \<Longrightarrow> exhaust_attempts c = c"
  by (simp add: exhaust_attempts_def)

lemma exhaust_lost [simp]:
  "CHALLENGE_SENT \<le> ic_state (exhaust_attempts (lose_attempt E m s c))"
  "LOGIN_FAILED \<le> ic_state (exhaust_attempts (lose_attempt E m s c))"
  by (auto simp: exhaust_attempts_def state_order)

text \<open>A login packet, in the two states that take one.\<close>

lemma login_packet_keeps:
  assumes "login_packet E json c ls = Inr (c', ls')"
  shows "conn_inv maps c \<Longrightarrow> ic_state c = CHALLENGE_SENT \<or> ic_state c = LOGIN_FAILED \<Longrightarrow> conn_inv maps c'"
    and "server_inv ls \<Longrightarrow> server_inv ls'"
    and "static ls' = static ls"
    and "ic_state c = CHALLENGE_SENT \<or> ic_state c = LOGIN_FAILED \<Longrightarrow> ic_state c \<le> ic_state c'"
proof -
  obtain authID b c1 where run: "processLoginAttempt E authID c ls = Inr (b, c1, ls')"
      and c': "c' = exhaust_attempts c1"
    using assms by (auto simp: login_packet_def andThen_eq_Inr)
  note outcome = run [THEN processLoginAttempt_cases]
  show "conn_inv maps c'" if "conn_inv maps c" "ic_state c = CHALLENGE_SENT \<or> ic_state c = LOGIN_FAILED"
    by (rule outcome) (use that in \<open>auto simp: c' exhaust_done conn_inv_lose_attempt conn_inv_done\<close>)
  show "server_inv ls'" if "server_inv ls"
    by (rule outcome) (use that in \<open>auto simp: server_inv_world server_inv_guid server_inv_add_session\<close>)
  show "static ls' = static ls" by (rule outcome) auto
  show "ic_state c \<le> ic_state c'" if "ic_state c = CHALLENGE_SENT \<or> ic_state c = LOGIN_FAILED"
    by (rule outcome) (use that in \<open>auto simp: c' exhaust_done exhaust_attempts_def state_order\<close>)
qed

lemma login_packet_faults:
  assumes "login_packet E json c ls = Inl e" "server_inv ls" "ic_socket c \<noteq> None"
  shows "input_fault e"
  using assms
  by (auto simp: login_packet_def andThen_eq_Inl fromJSON_def server_inv_def input_fault_def
      dest: processLoginAttempt_faults dest!: identity_decode_faults split: prod.splits)

text \<open>What is requested of a map server are maps of the login server.\<close>

lemma checkMap_subset: "set (checkMap m idx all acc) \<subseteq> set all \<union> set acc"
  by (induction all) auto

lemma requiredMaps_subset: "set (requiredMaps all idx offered) \<subseteq> set all"
proof -
  have "set (fold (\<lambda>mapID. checkMap mapID idx all) offered acc) \<subseteq> set all \<union> set acc" for acc
  proof (induction offered arbitrary: acc)
    case (Cons m offered)
    show ?case using Cons [of "checkMap m idx all acc"] checkMap_subset [of m idx all acc] by auto
  qed simp
  from this [of "[]"] show ?thesis by (simp add: requiredMaps_def)
qed

text \<open>With distinct names, a map is asked for exactly when it is one of the server's, was offered with the same name
  and hash, and has no map server.\<close>

lemma requiredMaps_set:
  assumes "distinct (map lo_locationName allMaps)"
  shows "set (requiredMaps allMaps idx offered) =
    {m \<in> set allMaps. idx (lo_locationName m) = None \<and>
       (\<exists>q \<in> set offered. lo_locationName q = lo_locationName m \<and> lo_knownMD5Hash q = lo_knownMD5Hash m)}"
proof -
  have find: "find (\<lambda>m. n = lo_locationName m) ms = Some m \<longleftrightarrow> m \<in> set ms \<and> n = lo_locationName m"
    if "distinct (map lo_locationName ms)" for n m and ms :: "location list"
    using that by (induction ms) (auto simp: image_iff)
  have one: "set (checkMap q idx all acc) = set acc \<union>
      {m \<in> set all. idx (lo_locationName m) = None \<and> lo_locationName q = lo_locationName m
          \<and> lo_knownMD5Hash q = lo_knownMD5Hash m}"
    if "distinct (map lo_locationName all)" for q all acc
    using that by (induction all) (auto simp: um_find_def image_iff)
  have "set (fold (\<lambda>q. checkMap q idx allMaps) os acc) = set acc \<union>
    {m \<in> set allMaps. idx (lo_locationName m) = None \<and>
       (\<exists>q \<in> set os. lo_locationName q = lo_locationName m \<and> lo_knownMD5Hash q = lo_knownMD5Hash m)}" for os acc
    by (induction os arbitrary: acc) (auto simp: one [OF assms])
  then show ?thesis by (simp add: requiredMaps_def)
qed

section \<open>The handlers meet the contract\<close>

lemma processFreshSocket_well:
  assumes "ic_state c = FRESH" "conn_inv (ls_allMaps ls) c" "server_inv ls"
  shows "well_handled c ls (processFreshSocket E challenge c ls)"
proof -
  obtain s where "ic_socket c = Some s" using assms conn_inv_socket [of "ls_allMaps ls" c] by auto
  then show ?thesis
    using assms
    by (simp add: processFreshSocket_def well_Inr case_prod_beta conn_inv_def state_order
        MAX_ATTEMPTS_ALLOWED_def)
qed

interpretation fresh_handler: incoming_handler "processFreshSocket E challenge" "{FRESH}"
  for E :: "('b, 's, 'k, 'w, 'm) platform_scheme" and challenge
  by (rule incoming_handlerI) (simp add: processFreshSocket_well)

lemma processMapAuthenticationRequest_cases:
  assumes "ic_socket c \<noteq> None"
  obtains s where "processMapAuthenticationRequest E c = Inr (False, c\<lparr>ic_socket := Some s\<rparr>)"
  | s where "processMapAuthenticationRequest E c = Inr (True, c\<lparr>ic_socket := Some s, ic_state := MAP_LIST\<rparr>)"
proof -
  obtain t where "ic_socket c = Some t" using assms by auto
  then show thesis
    using that
    by (cases "fst (reply E (MapServerRegistrationResponse_new E ''hello, world'') t) \<le> 0")
      (simp_all add: processMapAuthenticationRequest_def case_prod_beta)
qed

lemma processChallengeSentSocket_well:
  assumes "ic_state c = CHALLENGE_SENT" "conn_inv (ls_allMaps ls) c" "server_inv ls"
  shows "well_handled c ls (processChallengeSentSocket E c ls)"
proof -
  obtain s where s: "ic_socket c = Some s" using assms conn_inv_socket [of "ls_allMaps ls" c] by auto
  have login: "well_handled c ls (login_packet E json (c\<lparr>ic_socket := Some t\<rparr>) ls)" for json t
    using login_packet_keeps [of E json "c\<lparr>ic_socket := Some t\<rparr>" ls]
      login_packet_faults [of E json "c\<lparr>ic_socket := Some t\<rparr>" ls] assms
    by (cases "login_packet E json (c\<lparr>ic_socket := Some t\<rparr>) ls")
      (auto simp: well_handled_def conn_inv_set_socket)
  have register: "well_handled c ls (andThen (processMapAuthenticationRequest E d)
       (\<lambda>(ok, c'). if \<not> ok then Inr (c', ls) else Inr (exhaust_attempts c', ls)))"
    if d: "d = c\<lparr>ic_socket := Some t, ic_mapServerFriendlyName := Some name,
           ic_mapServerListenAddress := Some address, ic_mapServerPort := Some port\<rparr>"
    for d t name address port
  proof -
    have "ic_socket d \<noteq> None" using d by simp
    then show ?thesis
      using assms d
      by (cases rule: processMapAuthenticationRequest_cases [where E = E])
        (simp_all add: well_Inr conn_inv_def registered_details_def exhaust_attempts_def
          MAX_ATTEMPTS_ALLOWED_def state_order)
  qed
  show ?thesis
    using assms
    by (simp add: processChallengeSentSocket_def s Let_def case_prod_beta well_Inr
        conn_inv_set_socket conn_inv_done login register conn_inv_lose_attempt)
qed

interpretation challenge_sent_handler: incoming_handler "processChallengeSentSocket E" "{CHALLENGE_SENT}"
  for E :: "('b, 's, 'k, 'w, 'm) platform_scheme"
  by (rule incoming_handlerI) (simp add: processChallengeSentSocket_well)


lemma processLoginFailedSocket_well:
  assumes "ic_state c = LOGIN_FAILED" "conn_inv (ls_allMaps ls) c" "server_inv ls"
  shows "well_handled c ls (processLoginFailedSocket E c ls)"
proof -
  obtain s where s: "ic_socket c = Some s" using assms conn_inv_socket [of "ls_allMaps ls" c] by auto
  have login: "well_handled c ls (login_packet E json (c\<lparr>ic_socket := Some t\<rparr>) ls)" for json t
    using login_packet_keeps [of E json "c\<lparr>ic_socket := Some t\<rparr>" ls]
      login_packet_faults [of E json "c\<lparr>ic_socket := Some t\<rparr>" ls] assms
    by (cases "login_packet E json (c\<lparr>ic_socket := Some t\<rparr>) ls")
      (auto simp: well_handled_def conn_inv_set_socket)
  show ?thesis
    using assms
    by (simp add: processLoginFailedSocket_def s Let_def case_prod_beta well_Inr
        conn_inv_set_socket conn_inv_done login conn_inv_lose_attempt)
qed

interpretation login_failed_handler: incoming_handler "processLoginFailedSocket E" "{LOGIN_FAILED}"
  for E :: "('b, 's, 'k, 'w, 'm) platform_scheme"
  by (rule incoming_handlerI) (simp add: processLoginFailedSocket_well)

lemma processMapListSocket_well:
  assumes "ic_state c = MAP_LIST" "conn_inv (ls_allMaps ls) c" "server_inv ls"
  shows "well_handled c ls (processMapListSocket E c ls)"
proof -
  obtain s where s: "ic_socket c = Some s" using assms conn_inv_socket [of "ls_allMaps ls" c] by auto
  have accept: "conn_inv (ls_allMaps ls) (c\<lparr>ic_socket := Some t, ic_maps := Some (requiredMaps (ls_allMaps ls) idx offered),
      ic_state := MAP_WAIT_ACK\<rparr>)"
    if "requiredMaps (ls_allMaps ls) idx offered \<noteq> []" for t idx offered
    using that assms requiredMaps_subset [of "ls_allMaps ls" idx offered]
    by (simp add: conn_inv_def registered_details_def)
  have decode: "fromJSON E map_list_decode json = Inl e \<Longrightarrow> input_fault e" for json e
    by (simp add: fromJSON_def map_list_decode_faults)
  show ?thesis
    using assms
    by (auto simp add: processMapListSocket_def s Let_def case_prod_beta well_Inr well_andThen
        conn_inv_set_socket conn_inv_done accept state_order dest: decode)
qed

interpretation map_list_handler: incoming_handler "processMapListSocket E" "{MAP_LIST}"
  for E :: "('b, 's, 'k, 'w, 'm) platform_scheme"
  by (rule incoming_handlerI) (simp add: processMapListSocket_well)

lemma processMapWaitAckSocket_well:
  assumes "ic_state c = MAP_WAIT_ACK" "conn_inv (ls_allMaps ls) c" "server_inv ls"
  shows "well_handled c ls (processMapWaitAckSocket E c ls)"
proof -
  obtain s where s: "ic_socket c = Some s" using assms conn_inv_socket [of "ls_allMaps ls" c] by auto
  obtain maps name port address where details: "ic_maps c = Some maps" "set maps \<subseteq> set (ls_allMaps ls)"
      "ic_mapServerFriendlyName c = Some name" "ic_mapServerPort c = Some port"
      "ic_mapServerListenAddress c = Some address"
    using assms(1,2) by (auto simp: conn_inv_def registered_details_def split: option.splits)
  have finished: "conn_inv (ls_allMaps ls) (c\<lparr>ic_socket := None, ic_maps := ms, ic_state := DONE\<rparr>)" for ms
    using conn_inv_attempts [OF assms(2)] by (simp add: conn_inv_def)
  show ?thesis
    using assms details
    by (simp add: processMapWaitAckSocket_def s Let_def case_prod_beta well_Inr
        conn_inv_set_socket conn_inv_done finished server_inv_register MapServerConnection_new_def)
qed

interpretation map_wait_ack_handler: incoming_handler "processMapWaitAckSocket E" "{MAP_WAIT_ACK}"
  for E :: "('b, 's, 'k, 'w, 'm) platform_scheme"
  by (rule incoming_handlerI) (simp add: processMapWaitAckSocket_well)

interpretation done_handler: incoming_handler processDoneSocket "{DONE}"
  by (rule incoming_handlerI) (simp add: processDoneSocket_def well_Inr)

section \<open>The dispatcher\<close>

text \<open>Each state's handler accepts the state; the check for a socket error can only finish a connection.\<close>

lemma processState_well:
  assumes "conn_inv (ls_allMaps ls) c" "server_inv ls"
  shows "well_handled c ls (processState E challenge c ls)"
  using assms
  by (cases "ic_state c")
    (simp_all add: processState_def processFreshSocket_well processChallengeSentSocket_well
      processLoginFailedSocket_well processMapListSocket_well processMapWaitAckSocket_well
      processDoneSocket_def well_Inr)

lemma check_error_cases:
  assumes "conn_inv maps c"
  shows "check_error E c = Inr c \<or> check_error E c = Inr (c\<lparr>ic_state := DONE\<rparr>)"
  using conn_inv_socket [OF assms] by (auto simp: check_error_def)

lemma processConnection_well:
  assumes "conn_inv (ls_allMaps ls) c" "server_inv ls"
  shows "well_handled c ls (processConnection E challenge c ls)"
  using check_error_cases [OF assms(1), of E]
proof
  assume "check_error E c = Inr c"
  then show ?thesis using processState_well [OF assms] by (simp add: processConnection_def)
next
  assume "check_error E c = Inr (c\<lparr>ic_state := DONE\<rparr>)"
  then show ?thesis
    using assms
    by (simp add: processConnection_def processState_def processDoneSocket_def well_Inr conn_inv_done)
qed

interpretation dispatcher: incoming_handler "processConnection E challenge" UNIV
  for E :: "('b, 's, 'k, 'w, 'm) platform_scheme" and challenge
  by (rule incoming_handlerI) (simp add: processConnection_well)

section \<open>The loop\<close>

text \<open>A pass over the connections keeps the invariant of the whole state, connection by connection.\<close>

lemma processConnections_keeps:
  assumes "processConnections E challenge cs ls = Inr (cs', ls')"
    and "server_inv ls" "\<forall>c \<in> set cs. conn_inv (ls_allMaps ls) c"
  shows "server_inv ls' \<and> static ls' = static ls \<and> (\<forall>c \<in> set cs'. conn_inv (ls_allMaps ls) c)
    \<and> list_all2 (\<lambda>c c'. ic_state c \<le> ic_state c') cs cs'"
  using assms
proof (induction cs arbitrary: ls cs')
  case (Cons c cs)
  obtain c1 ls1 cs1 where run: "processConnection E challenge c ls = Inr (c1, ls1)"
      "processConnections E challenge cs ls1 = Inr (cs1, ls')" "cs' = c1 # cs1"
    using Cons.prems(1) by (auto simp: andThen_eq_Inr)
  have c: "conn_inv (ls_allMaps ls) c" using Cons.prems(3) by simp
  note d = dispatcher.step_keeps [OF UNIV_I c Cons.prems(2) run(1)]
  have maps: "ls_allMaps ls1 = ls_allMaps ls" using d by (simp add: static_def)
  have "server_inv ls' \<and> static ls' = static ls1 \<and> (\<forall>c \<in> set cs1. conn_inv (ls_allMaps ls) c)
      \<and> list_all2 (\<lambda>c c'. ic_state c \<le> ic_state c') cs cs1"
    using Cons.IH [OF run(2)] d Cons.prems(3) by (simp add: maps)
  then show ?case
    using d maps run(3) dispatcher.forward [OF UNIV_I c Cons.prems(2) run(1)] by auto
qed simp

lemma processConnections_faults:
  assumes "processConnections E challenge cs ls = Inl e"
    and "server_inv ls" "\<forall>c \<in> set cs. conn_inv (ls_allMaps ls) c"
  shows "input_fault e"
  using assms
proof (induction cs arbitrary: ls)
  case (Cons c cs)
  have c: "conn_inv (ls_allMaps ls) c" using Cons.prems(3) by simp
  show ?case
  proof (cases "processConnection E challenge c ls")
    case (Inl e')
    then show ?thesis using Cons.prems dispatcher.faults [OF UNIV_I c Cons.prems(2) Inl] by simp
  next
    case (Inr r)
    obtain c1 ls1 where r: "r = (c1, ls1)" by (cases r)
    note d = dispatcher.step_keeps [OF UNIV_I c Cons.prems(2) Inr [unfolded r]]
    have "ls_allMaps ls1 = ls_allMaps ls" using d by (simp add: static_def)
    moreover have "processConnections E challenge cs ls1 = Inl e"
      using Cons.prems(1) Inr r by (auto simp: andThen_eq_Inl)
    ultimately show ?thesis using Cons.IH [of ls1] Cons.prems(3) d by simp
  qed
qed simp

lemma incomingPass_keeps:
  assumes "incomingPass E challenge elapsed ls = Inr (purged, ls')" "login_inv ls"
  shows "login_inv ls'" "ls_allMaps ls' = ls_allMaps ls"
proof -
  obtain cs ls1 where run: "processConnections E challenge (ls_incomingConnections ls) ls = Inr (cs, ls1)"
      and ls': "ls' = ls1\<lparr>ls_incomingConnections := purge_done cs\<rparr> \<or> ls' = ls1\<lparr>ls_incomingConnections := cs\<rparr>"
    using assms(1) by (auto simp: incomingPass_def andThen_eq_Inr split: if_splits)
  have k: "server_inv ls1" "static ls1 = static ls" "\<forall>c \<in> set cs. conn_inv (ls_allMaps ls) c"
    using processConnections_keeps [OF run] assms(2) by (auto simp: login_inv_def)
  then have maps: "ls_allMaps ls1 = ls_allMaps ls" by (simp add: static_def)
  show "login_inv ls'"
    using ls' k maps by (auto simp: login_inv_def server_inv_connections purge_done_def)
  show "ls_allMaps ls' = ls_allMaps ls" using ls' maps by auto
qed

end
