(* ===== verification/LoginConnected.thy ===== *)
theory LoginConnected imports LoginIncoming CharacterPackets begin

text \<open>
  The handlers of logged-in players (server/LoginServerConnectedHandler.cpp): the list of their
  characters, the choice of one, and the pass over all sessions that serves requests and drops
  sessions whose socket failed.
\<close>

section \<open>processCharacterRequest\<close>

definition processCharacterRequest ::
  "('b, 's, 'k, 'w, 'm) platform_scheme \<Rightarrow> 's player_session \<Rightarrow> 'w \<Rightarrow> 's player_session \<times> 'w" where
  "processCharacterRequest E session w =
     (let (characters, w1) = db_characters_of_player E (ps_playerID session) (db_begin E w);
          (charBytesSent, s1) = reply E (PlayerCharacters_new E characters) (ps_socket session);
          s2 = (if charBytesSent = 0 then so_setError E (so_disconnect E s1) else s1)
      in (session\<lparr>ps_socket := s2\<rparr>, db_commit E w1))"

section \<open>processCharacterSelect\<close>

definition UNKNOWN_MAP_MESSAGE :: string where
  "UNKNOWN_MAP_MESSAGE =
     ''That character's current map is not recognised by this server. Are you connecting to the correct server?''"

definition NO_MAP_SERVER_MESSAGE :: string where
  "NO_MAP_SERVER_MESSAGE =
     ''That character's current map doesn't currently have a connected map server. Please try again later.''"

text \<open>
  The packet that answers the choice of a character on a location, and whether it is the success
  answer. The pointer from the index is dereferenced here.
\<close>

definition selectAnswer ::
  "('b, 's, 'k, 'w, 'm) platform_scheme \<Rightarrow> ('s, 'k, 'w) login_server \<Rightarrow> u64 \<Rightarrow> (bool \<times> 'b packet) res" where
  "selectAnswer E ls locationID =
     (case ls_mapIDToName ls locationID of
        None \<Rightarrow> Inr (False, NoMapServerError_new E UNKNOWN_MAP_MESSAGE)
      | Some name \<Rightarrow>
         (case um_find (ls_mapNameToConnection ls) name of
            None \<Rightarrow> Inr (False, NoMapServerError_new E NO_MAP_SERVER_MESSAGE)
          | Some mapConnectionPtr \<Rightarrow>
              andThen (vec_deref (ls_mapServers ls) mapConnectionPtr) (\<lambda>server.
              Inr (True, MapServerConnectionInstructions_new E (mc_friendlyName server)
                     (mc_hostname server) (mc_port server)))))"

text \<open>
  The transaction that is left by the early return is rolled back by its destructor. The character
  is stored in the session only when its map server's instructions were sent.
\<close>

definition processCharacterSelect ::
  "('b, 's, 'k, 'w, 'm) platform_scheme \<Rightarrow> ('s, 'k, 'w) login_server \<Rightarrow> 's player_session \<Rightarrow> 'w
     \<Rightarrow> ('s player_session \<times> 'w) res" where
  "processCharacterSelect E ls session w =
     (let (n, s1) = so_recv E (Some 8) (ps_socket session) in
      if n \<noteq> 8 then
        Inr (session\<lparr>ps_socket := snd (reply E (MalformedPacket_new E) s1)\<rparr>, w)
      else
      let (theirCharacterID, s2) = so_getLong E s1;
          (queryResult, w1) =
            db_characters_of_player_with_id E (ps_playerID session) theirCharacterID (db_begin E w)
      in
      case queryResult of
        [character] \<Rightarrow>
          andThen (selectAnswer E ls (ch_locationID character)) (\<lambda>(found, answer).
          let (sent, s3) = reply E answer s2; failed = (\<not> found \<or> sent = 0) in
          Inr ((session\<lparr>ps_socket := s3\<rparr>)
                 \<lparr>ps_characterID := if failed then ps_characterID session else theirCharacterID\<rparr>,
               db_commit E w1))
      | _ \<Rightarrow> Inr (session\<lparr>ps_socket := so_disconnect E (so_clear E s2)\<rparr>, db_rollback E w1))"

section \<open>processConnected\<close>

text \<open>What a session with activity asks for: an opcode of two bytes, then the request.\<close>

definition serveSession ::
  "('b, 's, 'k, 'w, 'm) platform_scheme \<Rightarrow> ('s, 'k, 'w) login_server \<Rightarrow> 's player_session \<Rightarrow> 'w
     \<Rightarrow> ('s player_session \<times> 'w) res" where
  "serveSession E ls session w =
     (let (activity, s0) = so_hasActivity E (ps_socket session) in
      if \<not> activity then Inr (session\<lparr>ps_socket := s0\<rparr>, w)
      else let (opcodeBytes, s1) = so_recv E (Some 2) s0 in
      if opcodeBytes \<noteq> 2 then Inr (session\<lparr>ps_socket := so_setError E s1\<rparr>, w)
      else let (opcode, s2) = so_getShort E s1; session' = session\<lparr>ps_socket := s2\<rparr> in
      if opcode = client_opcode REQUEST_CHARACTERS then Inr (processCharacterRequest E session' w)
      else if opcode = client_opcode CHARACTER_SELECT then processCharacterSelect E ls session' w
      else Inr (session', w))"

text \<open>A session whose socket failed leaves the index and is freed; its owning pointer is null until the
  end of the pass.\<close>

definition drop_session ::
  "nat \<Rightarrow> 's player_session \<Rightarrow> ('s, 'k, 'w) login_server \<Rightarrow> ('s, 'k, 'w) login_server" where
  "drop_session a session ls =
     ls\<lparr>ls_usernameToPlayerSession :=
          (case um_find (ls_usernameToPlayerSession ls) (ps_username session) of
             None \<Rightarrow> ls_usernameToPlayerSession ls
           | Some _ \<Rightarrow> um_erase (ps_username session) (ls_usernameToPlayerSession ls)),
        ls_sessionHeap := (ls_sessionHeap ls)(a := None)\<rparr>"

definition processSession ::
  "('b, 's, 'k, 'w, 'm) platform_scheme \<Rightarrow> nat option \<Rightarrow> ('s, 'k, 'w) login_server
     \<Rightarrow> (nat option \<times> ('s, 'k, 'w) login_server) res" where
  "processSession E slot ls =
     andThen (deref NullDeref slot) (\<lambda>a.
     andThen (deref DanglingPointer (ls_sessionHeap ls a)) (\<lambda>session.
     if so_hasError E (ps_socket session) then Inr (None, drop_session a session ls)
     else
       andThen (serveSession E ls session (ls_world ls)) (\<lambda>(session', w).
       Inr (slot, ls\<lparr>ls_sessionHeap := (ls_sessionHeap ls)(a \<mapsto> session'), ls_world := w\<rparr>))))"

fun processSessions ::
  "('b, 's, 'k, 'w, 'm) platform_scheme \<Rightarrow> nat option list \<Rightarrow> ('s, 'k, 'w) login_server
     \<Rightarrow> (nat option list \<times> ('s, 'k, 'w) login_server) res" where
  "processSessions E [] ls = Inr ([], ls)"
| "processSessions E (slot # slots) ls =
     andThen (processSession E slot ls) (\<lambda>(slot', ls1).
     andThen (processSessions E slots ls1) (\<lambda>(slots', ls2).
     Inr (slot' # slots', ls2)))"

text \<open>\<open>RUN_WAIT_TIME\<close> is 0.5; the time since the last run is whole seconds.\<close>

definition RUN_WAIT_TIME :: rat where
  "RUN_WAIT_TIME = 1 / 2"

text \<open>
  One pass of the loop with the seconds since the last run; the flag tells that the sessions were
  served, which restarts the clock. Null slots are removed when a session was dropped, and only
  then are there any.
\<close>

definition connectedPass ::
  "('b, 's, 'k, 'w, 'm) platform_scheme \<Rightarrow> int \<Rightarrow> ('s, 'k, 'w) login_server
     \<Rightarrow> (bool \<times> ('s, 'k, 'w) login_server) res" where
  "connectedPass E timeSinceLastRun ls =
     (if of_int timeSinceLastRun > RUN_WAIT_TIME then
        andThen (processSessions E (ls_playerSessions ls) ls) (\<lambda>(slots, ls').
        let shouldClear = (None \<in> set slots) in
        Inr (True, ls'\<lparr>ls_playerSessions :=
               if shouldClear then filter (\<lambda>p. p \<noteq> None) slots else slots\<rparr>))
      else Inr (False, ls))"

end
