(* ===== verification/LoginSessions.thy ===== *)
theory LoginSessions imports LoginConnected LoginInvariants begin

text \<open>
  The pass over the sessions keeps the invariant of the login server. In the middle of a pass some
  owning pointers are null, so the invariant is stated for a list of slots; each session's turn
  meets the contract \<open>session_turn\<close>, whose client is the pass.
\<close>

section \<open>The invariant in the middle of a pass\<close>

definition slots_inv :: "nat option list \<Rightarrow> ('s, 'k, 'w) login_server \<Rightarrow> bool" where
  "slots_inv slots ls =
     (distinct (filter (\<lambda>p. p \<noteq> None) slots) \<and>
      dom (ls_sessionHeap ls) = {a. Some a \<in> set slots} \<and>
      (\<forall>a. Some a \<in> set slots \<longrightarrow> a < ls_nextAddress ls) \<and>
      (\<forall>u a. ls_usernameToPlayerSession ls u = Some a \<longrightarrow>
         (\<exists>s. ls_sessionHeap ls a = Some s \<and> ps_username s = u)))"

lemma filter_present: "None \<notin> set ps \<Longrightarrow> filter (\<lambda>p. p \<noteq> None) ps = ps"
proof (induction ps)
  case (Cons p ps)
  then show ?case by (cases p) auto
qed simp

lemma slots_inv_whole:
  "sessions_inv ls \<longleftrightarrow> None \<notin> set (ls_playerSessions ls) \<and> slots_inv (ls_playerSessions ls) ls"
  using filter_present [of "ls_playerSessions ls"]
  by (auto simp: sessions_inv_def slots_inv_def owned_def)

lemma slots_inv_index:
  "slots_inv slots ls \<Longrightarrow> ls_usernameToPlayerSession ls u = Some a \<Longrightarrow>
   \<exists>s. ls_sessionHeap ls a = Some s \<and> ps_username s = u"
  by (simp add: slots_inv_def)

text \<open>What a pass over the sessions does not change.\<close>

definition same_but_sessions :: "('s, 'k, 'w) login_server \<Rightarrow> ('s, 'k, 'w) login_server \<Rightarrow> bool" where
  "same_but_sessions ls ls' =
     (ls' = ls\<lparr>ls_sessionHeap := ls_sessionHeap ls', ls_world := ls_world ls',
               ls_usernameToPlayerSession := ls_usernameToPlayerSession ls'\<rparr>)"

lemma same_but_sessions_refl [simp]: "same_but_sessions ls ls"
  by (simp add: same_but_sessions_def)

lemma same_but_sessions_trans:
  "same_but_sessions a b \<Longrightarrow> same_but_sessions b c \<Longrightarrow> same_but_sessions a c"
  by (cases a; cases b; cases c) (simp add: same_but_sessions_def)

lemma same_but_sessions_simps:
  assumes "same_but_sessions ls ls'"
  shows "ls_allMaps ls' = ls_allMaps ls" "ls_mapServers ls' = ls_mapServers ls"
    "ls_mapNameToConnection ls' = ls_mapNameToConnection ls" "ls_crypto ls' = ls_crypto ls"
    "ls_incomingConnections ls' = ls_incomingConnections ls" "ls_playerSessions ls' = ls_playerSessions ls"
    "ls_mapIDToName ls' = ls_mapIDToName ls" "ls_details ls' = ls_details ls"
  using assms by (cases ls; cases ls'; simp add: same_but_sessions_def)+

section \<open>One session's turn\<close>

lemma serveSession_identity:
  assumes "serveSession E ls session w = Inr (session', w')"
  shows "ps_username session' = ps_username session \<and> ps_playerID session' = ps_playerID session
    \<and> ps_guid session' = ps_guid session \<and> ps_sessionKey session' = ps_sessionKey session"
  using assms
  by (auto simp: serveSession_def processCharacterSelect_def processCharacterRequest_def Let_def
      case_prod_beta andThen_eq_Inr split: if_splits list.splits)

text \<open>A pointer of the index can only dangle once there are more map servers than maps.\<close>

definition overfull :: "('s, 'k, 'w) login_server \<Rightarrow> bool" where
  "overfull ls = (length (ls_allMaps ls) < length (v_elems (ls_mapServers ls)))"

lemma selectAnswer_faults:
  assumes "selectAnswer E ls i = Inl e" "maps_inv ls"
  shows "e = DanglingPointer \<and> overfull ls"
proof -
  obtain name p where "ls_mapIDToName ls i = Some name" "ls_mapNameToConnection ls name = Some p"
      and d: "vec_deref (ls_mapServers ls) p = Inl e"
    using assms(1) by (auto simp: selectAnswer_def um_find_def andThen_eq_Inl split: option.splits)
  then have "vec_valid (ls_mapServers ls) p \<or> overfull ls"
    using assms(2) by (cases p) (fastforce simp: maps_inv_def overfull_def not_le)
  with d show ?thesis by (auto simp: vec_deref_def split: if_splits)
qed

lemma serveSession_faults:
  assumes "serveSession E ls session w = Inl e" "maps_inv ls"
  shows "e = DanglingPointer \<and> overfull ls"
  using assms(1) selectAnswer_faults [OF _ assms(2)]
  by (auto simp: serveSession_def processCharacterSelect_def Let_def case_prod_beta andThen_eq_Inl
      split: if_splits list.splits)

lemma slots_inv_drop:
  assumes "slots_inv (pre @ Some a # post) ls" "ls_sessionHeap ls a = Some session"
  shows "slots_inv (pre @ None # post) (drop_session a session ls)"
proof -
  let ?ls = "drop_session a session ls"
  have index: "ls_usernameToPlayerSession ?ls = um_erase (ps_username session) (ls_usernameToPlayerSession ls)"
    by (auto simp: drop_session_def um_find_def um_erase_def split: option.split)
  have heap: "ls_sessionHeap ?ls = (ls_sessionHeap ls)(a := None)" "ls_nextAddress ?ls = ls_nextAddress ls"
    by (simp_all add: drop_session_def)
  have a: "Some a \<notin> set pre" "Some a \<notin> set post"
    using assms(1) by (auto simp: slots_inv_def)
  have "\<exists>s. ls_sessionHeap ?ls b = Some s \<and> ps_username s = u"
    if "ls_usernameToPlayerSession ?ls u = Some b" for u b
  proof -
    have "u \<noteq> ps_username session" "ls_usernameToPlayerSession ls u = Some b"
      using that by (auto simp: index um_erase_def split: if_splits)
    moreover from this obtain s where "ls_sessionHeap ls b = Some s" "ps_username s = u"
      using slots_inv_index [OF assms(1)] by blast
    ultimately show ?thesis using assms(2) heap(1) by auto
  qed
  then show ?thesis
    using assms a by (auto simp: slots_inv_def heap)
qed

lemma slots_inv_serve:
  assumes "slots_inv slots ls" "ls_sessionHeap ls a = Some session" "ps_username session' = ps_username session"
  shows "slots_inv slots (ls\<lparr>ls_sessionHeap := (ls_sessionHeap ls)(a \<mapsto> session'), ls_world := w\<rparr>)"
  using assms by (fastforce simp: slots_inv_def)

text \<open>
  The contract of a turn: the slot keeps its session or loses it, the invariant holds for the
  slots after the turn, and nothing but sessions changes.
\<close>

fun slot_loop :: "(nat option \<Rightarrow> 'x \<Rightarrow> (nat option \<times> 'x) res) \<Rightarrow> nat option list \<Rightarrow> 'x
    \<Rightarrow> (nat option list \<times> 'x) res" where
  "slot_loop turn [] ls = Inr ([], ls)"
| "slot_loop turn (slot # slots) ls =
     andThen (turn slot ls) (\<lambda>(slot', ls1).
     andThen (slot_loop turn slots ls1) (\<lambda>(slots', ls2). Inr (slot' # slots', ls2)))"

locale session_turn =
  fixes turn :: "nat option \<Rightarrow> ('s, 'k, 'w) login_server \<Rightarrow> (nat option \<times> ('s, 'k, 'w) login_server) res"
  assumes keeps_slots: "turn slot ls = Inr (slot', ls') \<Longrightarrow> slots_inv (pre @ slot # post) ls \<Longrightarrow>
      slots_inv (pre @ slot' # post) ls'"
    and slot_kept_or_lost: "turn slot ls = Inr (slot', ls') \<Longrightarrow> slot' = slot \<or> slot' = None"
    and keeps_rest: "turn slot ls = Inr (slot', ls') \<Longrightarrow> same_but_sessions ls ls'"
    and faults: "turn slot ls = Inl e \<Longrightarrow> slot \<noteq> None \<Longrightarrow> slots_inv (pre @ slot # post) ls \<Longrightarrow>
      maps_inv ls \<Longrightarrow> e = DanglingPointer \<and> overfull ls"
begin

lemma pass_keeps:
  "slot_loop turn slots ls = Inr (slots', ls') \<Longrightarrow> slots_inv (pre @ slots) ls \<Longrightarrow>
   slots_inv (pre @ slots') ls' \<and> same_but_sessions ls ls'
   \<and> list_all2 (\<lambda>p p'. p' = p \<or> p' = None) slots slots'"
proof (induction slots arbitrary: ls slots' pre)
  case (Cons slot slots)
  obtain slot1 ls1 slots1 where run: "turn slot ls = Inr (slot1, ls1)" "slot_loop turn slots ls1 = Inr (slots1, ls')"
      "slots' = slot1 # slots1"
    using Cons.prems(1) by (auto simp: andThen_eq_Inr)
  have "slots_inv ((pre @ [slot1]) @ slots) ls1"
    using keeps_slots [OF run(1), of pre slots] Cons.prems(2) by simp
  from Cons.IH [OF run(2) this] show ?case
    using run(3) slot_kept_or_lost [OF run(1)] same_but_sessions_trans [OF keeps_rest [OF run(1)]]
    by auto
qed simp

lemma pass_faults:
  "slot_loop turn slots ls = Inl e \<Longrightarrow> None \<notin> set slots \<Longrightarrow> slots_inv (pre @ slots) ls \<Longrightarrow> maps_inv ls \<Longrightarrow>
   e = DanglingPointer \<and> overfull ls"
proof (induction slots arbitrary: ls pre)
  case (Cons slot slots)
  show ?case
  proof (cases "turn slot ls")
    case (Inl e')
    have "slot \<noteq> None" using Cons.prems(2) by (cases slot) auto
    then show ?thesis using faults [OF Inl _ Cons.prems(3,4)] Cons.prems(1) Inl by simp
  next
    case (Inr r)
    obtain slot1 ls1 where r: "r = (slot1, ls1)" by (cases r)
    have "slots_inv ((pre @ [slot1]) @ slots) ls1"
      using keeps_slots [OF Inr [unfolded r], of pre slots] Cons.prems(3) by simp
    moreover have "maps_inv ls1" "overfull ls1 = overfull ls"
      using same_but_sessions_simps [OF keeps_rest [OF Inr [unfolded r]]] Cons.prems(4)
      by (simp_all add: maps_inv_def overfull_def)
    moreover have "slot_loop turn slots ls1 = Inl e" using Cons.prems(1) Inr r by (auto simp: andThen_eq_Inl)
    ultimately show ?thesis using Cons.IH [of ls1 "pre @ [slot1]"] Cons.prems(2) by simp
  qed
qed simp

end

lemma processSession_cases:
  assumes "processSession E slot ls = Inr (slot', ls')"
  obtains
    (dropped) a session where "slot = Some a" "ls_sessionHeap ls a = Some session" "slot' = None"
      "ls' = drop_session a session ls" "so_hasError E (ps_socket session)"
  | (served) a session session' w where "slot = Some a" "ls_sessionHeap ls a = Some session" "slot' = slot"
      "serveSession E ls session (ls_world ls) = Inr (session', w)"
      "ls' = ls\<lparr>ls_sessionHeap := (ls_sessionHeap ls)(a \<mapsto> session'), ls_world := w\<rparr>"
proof -
  obtain a session where s: "slot = Some a" "ls_sessionHeap ls a = Some session"
    using assms by (auto simp: processSession_def andThen_eq_Inr deref_eq_Inr)
  show thesis
  proof (cases "so_hasError E (ps_socket session)")
    case True
    then show thesis using assms s dropped by (simp add: processSession_def)
  next
    case False
    then obtain session' w where "serveSession E ls session (ls_world ls) = Inr (session', w)"
        "slot' = slot" "ls' = ls\<lparr>ls_sessionHeap := (ls_sessionHeap ls)(a \<mapsto> session'), ls_world := w\<rparr>"
      using assms s by (auto simp: processSession_def andThen_eq_Inr)
    then show thesis using s served by blast
  qed
qed

interpretation session: session_turn "processSession E"
  for E :: "('b, 's, 'k, 'w, 'm) platform_scheme"
proof
  fix slot slot' :: "nat option" and ls ls' :: "('s, 'k, 'w) login_server" and pre post e
  { assume run: "processSession E slot ls = Inr (slot', ls')"
    show "slots_inv (pre @ slot' # post) ls'" if "slots_inv (pre @ slot # post) ls"
      using run
    proof (cases rule: processSession_cases)
      case (dropped a session)
      then show ?thesis using slots_inv_drop that by auto
    next
      case (served a session session' w)
      then show ?thesis
        using slots_inv_serve [OF that served(2)] serveSession_identity [OF served(4)] by simp
    qed
    show "slot' = slot \<or> slot' = None" using run by (cases rule: processSession_cases) auto
    show "same_but_sessions ls ls'"
      using run by (cases rule: processSession_cases) (auto simp: same_but_sessions_def drop_session_def)
  }
  assume run: "processSession E slot ls = Inl e" "slot \<noteq> None" "slots_inv (pre @ slot # post) ls" "maps_inv ls"
  then obtain a where a: "slot = Some a" by auto
  have "a \<in> dom (ls_sessionHeap ls)" using run(3) a by (auto simp: slots_inv_def)
  then obtain session where "ls_sessionHeap ls a = Some session" by auto
  then show "e = DanglingPointer \<and> overfull ls"
    using run(1) a serveSession_faults [OF _ run(4)]
    by (auto simp: processSession_def andThen_eq_Inl split: if_splits)
qed

lemma processSessions_pass: "processSessions E slots ls = slot_loop (processSession E) slots ls"
  by (induction slots arbitrary: ls) (simp_all add: case_prod_beta)

section \<open>The pass\<close>

lemma connectedPass_keeps:
  assumes "connectedPass E elapsed ls = Inr (active, ls')" "login_inv ls"
  shows "login_inv ls'" "ls_allMaps ls' = ls_allMaps ls"
proof -
  have "login_inv ls' \<and> ls_allMaps ls' = ls_allMaps ls"
  proof (cases "of_int elapsed > RUN_WAIT_TIME")
    case False
    then show ?thesis using assms by (simp add: connectedPass_def)
  next
    case True
    then obtain slots ls1 where run: "processSessions E (ls_playerSessions ls) ls = Inr (slots, ls1)"
        and ls': "ls' = ls1\<lparr>ls_playerSessions := if None \<in> set slots then filter (\<lambda>p. p \<noteq> None) slots else slots\<rparr>"
      using assms(1) by (auto simp: connectedPass_def andThen_eq_Inr Let_def)
    have "slots_inv (ls_playerSessions ls) ls"
      using assms(2) by (simp add: login_inv_def server_inv_def slots_inv_whole)
    then have k: "slots_inv slots ls1" "same_but_sessions ls ls1"
      using session.pass_keeps [of E "ls_playerSessions ls" ls slots ls1 "[]"] run
      by (simp_all add: processSessions_pass)
    have "ls_playerSessions ls' = filter (\<lambda>p. p \<noteq> None) slots"
      using filter_present [of slots] by (cases "None \<in> set slots") (simp_all add: ls')
    then have "sessions_inv ls'"
      using k(1) by (auto simp: slots_inv_whole slots_inv_def ls')
    moreover have "maps_inv ls'" "crypto_ready ls'" "ls_incomingConnections ls' = ls_incomingConnections ls"
        "ls_allMaps ls' = ls_allMaps ls"
      using same_but_sessions_simps [OF k(2)] assms(2)
      by (simp_all add: ls' login_inv_def server_inv_def maps_inv_def crypto_ready_def)
    ultimately show ?thesis using assms(2) by (simp add: login_inv_def server_inv_def)
  qed
  then show "login_inv ls'" "ls_allMaps ls' = ls_allMaps ls" by auto
qed

lemma connectedPass_faults:
  assumes "connectedPass E elapsed ls = Inl e" "login_inv ls"
  shows "e = DanglingPointer \<and> overfull ls"
proof -
  have inv: "slots_inv (ls_playerSessions ls) ls" "None \<notin> set (ls_playerSessions ls)" "maps_inv ls"
    using assms(2) by (auto simp: login_inv_def server_inv_def slots_inv_whole)
  show ?thesis
    using assms(1) session.pass_faults [of E "ls_playerSessions ls" ls e "[]"] inv
    by (auto simp: connectedPass_def andThen_eq_Inl processSessions_pass Let_def split: if_splits)
qed

text \<open>What is left of the slots, in terms of what was there.\<close>

lemma survivors_in_order:
  fixes ps ss :: "nat option list"
  assumes "list_all2 (\<lambda>p p'. p' = p \<or> p' = None) ps ss" "None \<notin> set ps" "distinct ps"
  shows "filter (\<lambda>p. p \<noteq> None) ss = filter (\<lambda>p. p \<in> set ss) ps"
  using assms
proof (induction rule: list_all2_induct)
  case (Cons p ps s ss)
  have "set ss \<subseteq> insert None (set ps)"
    using Cons.hyps(2) by (induction rule: list_all2_induct) auto
  then have "p \<notin> set ss" using Cons.prems by auto
  moreover have "filter (\<lambda>q. q = p \<or> q \<in> set ss) ps = filter (\<lambda>q. q \<in> set ss) ps"
    using Cons.prems(2) by (intro filter_cong) auto
  moreover have "filter (\<lambda>q. q = None \<or> q \<in> set ss) ps = filter (\<lambda>q. q \<in> set ss) ps"
    using Cons.prems(1) by (intro filter_cong) auto
  ultimately show ?case using Cons by (cases p) auto
qed simp

end
