(* ===== verification/LoginServer.thy ===== *)
theory LoginServer imports LoginHandlers LoginSessions TileMap begin

text \<open>
  The login server as a whole (server/LoginServer.cpp): its construction, the maps and the super
  user it sets up, and its run, in which accepted connections, turns of the incoming handlers and
  passes over the sessions interleave.
\<close>

section \<open>The constructor\<close>

text \<open>A server without maps stops being built early and has no keys.\<close>

definition LoginServer_new ::
  "('b, 's, 'k, 'w, 'm) platform_scheme \<Rightarrow> server_details \<Rightarrow> bool \<Rightarrow> 'w \<Rightarrow> ('s, 'k, 'w) login_server res" where
  "LoginServer_new E details makeNewKeys w =
     (let base = \<lparr>ls_details = details, ls_crypto = None, ls_hasher = \<lparr>iterationCount = 32000\<rparr>,
        ls_playerSessions = [], ls_sessionHeap = (\<lambda>_. None), ls_nextAddress = 0, ls_nextGUID = 0,
        ls_usernameToPlayerSession = (\<lambda>_. None), ls_incomingConnections = [], ls_allMaps = [],
        ls_mapServers = vec_empty, ls_mapIDToName = (\<lambda>_. None), ls_mapNameToConnection = (\<lambda>_. None),
        ls_done = False, ls_world = w\<rparr>;
        pubKeyFile = (case sd_publicKeyFile details of Some f \<Rightarrow> f | None \<Rightarrow> ''login.pub'');
        priKeyFile = (case sd_privateKeyFile details of Some f \<Rightarrow> f | None \<Rightarrow> ''login.prv'')
      in if sd_maps details = None then Inr base
      else if makeNewKeys then
        andThen (RSACrypto_generate E w) (\<lambda>(crypto, w1).
        Inr (base\<lparr>ls_crypto := Some crypto,
               ls_world := writePrivateKeyFile E crypto priKeyFile (writePublicKeyFile E crypto pubKeyFile w1)\<rparr>))
      else andThen (fromFiles E pubKeyFile priKeyFile w) (\<lambda>crypto. Inr (base\<lparr>ls_crypto := crypto\<rparr>)))"

section \<open>processMaps\<close>

text \<open>
  What the database and a loaded map agree on: a new map is stored and gets its id, a known one
  takes the stored id, and a newer version replaces the stored hash and version.
\<close>

definition reconcile ::
  "('b, 's, 'k, 'w, 'm) platform_scheme \<Rightarrow> location \<Rightarrow> location list \<Rightarrow> 'w \<Rightarrow> location \<times> 'w" where
  "reconcile E loadedLocation results w =
     (case results of
        [] \<Rightarrow> let (newLocID, w1) = db_persist_location E loadedLocation w
              in (loadedLocation\<lparr>lo_id := newLocID\<rparr>, w1)
      | databaseLocation # _ \<Rightarrow>
          let loaded = loadedLocation\<lparr>lo_id := lo_id databaseLocation\<rparr> in
          if lo_version loaded = lo_version databaseLocation then (loaded, w)
          else if lo_version loaded > lo_version databaseLocation then
            (loaded, db_update_location E
               (databaseLocation\<lparr>lo_knownMD5Hash := lo_knownMD5Hash loaded, lo_version := lo_version loaded\<rparr>) w)
          else (loaded, w))"

definition processMap ::
  "('b, 's, 'k, 'w, 'm) platform_scheme \<Rightarrow> string \<Rightarrow> ('s, 'k, 'w) login_server
     \<Rightarrow> ('s, 'k, 'w) login_server res" where
  "processMap E mapPath ls =
     (case tmx_parse E mapPath (ls_world ls) of
        None \<Rightarrow> Inr ls
      | Some m \<Rightarrow>
          andThen (makeMD5Hash E (tm_filehash m)) (\<lambda>hash.
          let loadedLocation = Location_new (resolveNameFromMap m) mapPath hash (resolveVersionFromMap m);
              (results, w1) = db_locations_by_name E (lo_locationName loadedLocation) (db_begin E (ls_world ls));
              (justAdded, w2) = reconcile E loadedLocation results w1
          in Inr (ls\<lparr>ls_world := db_commit E w2,
                     ls_allMaps := ls_allMaps ls @ [justAdded],
                     ls_mapIDToName := um_emplace (lo_id justAdded) (lo_locationName justAdded) (ls_mapIDToName ls)\<rparr>)))"

definition processMaps ::
  "('b, 's, 'k, 'w, 'm) platform_scheme \<Rightarrow> ('s, 'k, 'w) login_server \<Rightarrow> ('s, 'k, 'w) login_server res" where
  "processMaps E ls =
     andThen (deref AssertFailed (sd_maps (ls_details ls))) (\<lambda>mapPaths.
     andThen (foldR (processMap E) mapPaths ls) (\<lambda>ls1.
     Inr (ls1\<lparr>ls_mapServers := vec_reserve (length (ls_allMaps ls1)) (ls_mapServers ls1)\<rparr>)))"

section \<open>initDB\<close>

definition superUserID :: string where "superUserID = ''SgtCoDFish@example.com''"
definition superUserPassword :: string where "superUserPassword = ''testa''"

text \<open>The transaction is committed when the super user was stored and rolled back otherwise.\<close>

definition initDB ::
  "('b, 's, 'k, 'w, 'm) platform_scheme \<Rightarrow> ('s, 'k, 'w) login_server \<Rightarrow> ('s, 'k, 'w) login_server" where
  "initDB E ls =
     (let (count, w1) = db_player_count E (db_begin E (ls_world ls)) in
      if count = 0 then
        let (salt, w2) = generateSalt E DEFAULT_SALT_BYTES w1;
            hashedPassword = hashPasswordSHA256 E (ls_hasher ls) superUserPassword salt;
            pwdString = sha256ToString hashedPassword;
            saltString = saltToString salt;
            (now, w3) = clock_universal E w2;
            superUser = (Player_new superUserID pwdString saltString)
              \<lparr>pl_id := 1, pl_joinDate := Some now, pl_lastLogin := Some now\<rparr>
        in ls\<lparr>ls_world := db_commit E (db_persist_player E superUser w3)\<rparr>
      else ls\<lparr>ls_world := db_rollback E w1\<rparr>)"

section \<open>run\<close>

text \<open>A connection that the acceptor hands over.\<close>

definition accept :: "'s \<Rightarrow> ('s, 'k, 'w) login_server \<Rightarrow> ('s, 'k, 'w) login_server" where
  "accept newPlayerSocket ls =
     ls\<lparr>ls_incomingConnections := ls_incomingConnections ls @ [IncomingConnection_new newPlayerSocket]\<rparr>"

text \<open>
  The running server: its data, whether the main thread has finished \<open>initDB\<close>, the challenge of
  the incoming thread and how far its pass has come. The incoming thread holds
  \<open>incomingConnectionsMutex\<close> from the first connection of a pass to the purge, so connections are
  accepted only between passes; the passes over the sessions come in between at any time.
\<close>

record ('b, 's, 'k, 'w) running =
  rn_server :: "('s, 'k, 'w) login_server"
  rn_booted :: bool
  rn_challenge :: "'b packet"
  rn_cursor :: nat

definition LoginServer_run ::
  "('b, 's, 'k, 'w, 'm) platform_scheme \<Rightarrow> ('s, 'k, 'w) login_server \<Rightarrow> ('b, 's, 'k, 'w) running res" where
  "LoginServer_run E ls =
     andThen (processMaps E ls) (\<lambda>ls1.
     andThen (incomingChallenge E ls1) (\<lambda>challenge.
     Inr \<lparr>rn_server = ls1, rn_booted = False, rn_challenge = challenge, rn_cursor = 0\<rparr>))"

definition run_start ::
  "('b, 's, 'k, 'w, 'm) platform_scheme \<Rightarrow> server_details \<Rightarrow> bool \<Rightarrow> 'w \<Rightarrow> ('b, 's, 'k, 'w) running res" where
  "run_start E details makeNewKeys w = andThen (LoginServer_new E details makeNewKeys w) (LoginServer_run E)"

inductive login_step ::
  "('b, 's, 'k, 'w, 'm) platform_scheme \<Rightarrow> ('b, 's, 'k, 'w) running \<Rightarrow> ('b, 's, 'k, 'w) running \<Rightarrow> bool"
  for E where
  Boot: "\<not> rn_booted r \<Longrightarrow>
    login_step E r (r\<lparr>rn_booted := True, rn_server := initDB E (rn_server r)\<rparr>)"
| Accept: "rn_booted r \<Longrightarrow> rn_cursor r = 0 \<Longrightarrow>
    login_step E r (r\<lparr>rn_server := accept socket (rn_server r)\<rparr>)"
| Turn: "rn_cursor r < length (ls_incomingConnections (rn_server r)) \<Longrightarrow>
    processConnection E (rn_challenge r) (ls_incomingConnections (rn_server r) ! rn_cursor r) (rn_server r)
      = Inr (c', ls') \<Longrightarrow>
    login_step E r (r\<lparr>rn_server :=
        ls'\<lparr>ls_incomingConnections := (ls_incomingConnections ls')[rn_cursor r := c']\<rparr>,
      rn_cursor := Suc (rn_cursor r)\<rparr>)"
| EndPass: "rn_cursor r = length (ls_incomingConnections (rn_server r)) \<Longrightarrow>
    login_step E r (r\<lparr>rn_server := (rn_server r)\<lparr>ls_incomingConnections :=
        if elapsed > DONE_PURGE_TIME then purge_done (ls_incomingConnections (rn_server r))
        else ls_incomingConnections (rn_server r)\<rparr>,
      rn_cursor := 0\<rparr>)"
| Connected: "connectedPass E elapsed (rn_server r) = Inr (active, ls') \<Longrightarrow>
    login_step E r (r\<lparr>rn_server := ls'\<rparr>)"

text \<open>A statement of a thread that ends in a fault.\<close>

inductive login_fault ::
  "('b, 's, 'k, 'w, 'm) platform_scheme \<Rightarrow> ('b, 's, 'k, 'w) running \<Rightarrow> fault \<Rightarrow> bool"
  for E where
  TurnFault: "rn_cursor r < length (ls_incomingConnections (rn_server r)) \<Longrightarrow>
    processConnection E (rn_challenge r) (ls_incomingConnections (rn_server r) ! rn_cursor r) (rn_server r)
      = Inl e \<Longrightarrow> login_fault E r e"
| ConnectedFault: "connectedPass E elapsed (rn_server r) = Inl e \<Longrightarrow> login_fault E r e"

inductive_cases login_stepE [elim]: "login_step E r r'"
inductive_cases login_faultE [elim]: "login_fault E r e"

definition login_reachable ::
  "('b, 's, 'k, 'w, 'm) platform_scheme \<Rightarrow> ('b, 's, 'k, 'w) running \<Rightarrow> bool" where
  "login_reachable E r =
     (\<exists>details makeNewKeys w r0. run_start E details makeNewKeys w = Inr r0 \<and> (login_step E)\<^sup>*\<^sup>* r0 r)"

lemma login_reachable_step: "login_reachable E r \<Longrightarrow> login_step E r r' \<Longrightarrow> login_reachable E r'"
  unfolding login_reachable_def by (meson rtranclp.rtrancl_into_rtrancl)

lemma login_reachable_start: "run_start E details k w = Inr r \<Longrightarrow> login_reachable E r"
  unfolding login_reachable_def by blast

lemma login_reachable_steps: "(login_step E)\<^sup>*\<^sup>* r r' \<Longrightarrow> login_reachable E r \<Longrightarrow> login_reachable E r'"
  by (induction rule: rtranclp_induct) (auto intro: login_reachable_step)

section \<open>The invariant of the run\<close>

definition run_inv :: "('b, 's, 'k, 'w) running \<Rightarrow> bool" where
  "run_inv r = (login_inv (rn_server r) \<and> rn_cursor r \<le> length (ls_incomingConnections (rn_server r)))"

lemma login_inv_world [inv_intros]: "login_inv (ls\<lparr>ls_world := w\<rparr>) = login_inv ls"
  by (simp add: login_inv_def server_inv_world)

lemma initDB_frame: "\<exists>w. initDB E ls = ls\<lparr>ls_world := w\<rparr>"
proof -
  have *: "\<exists>w. ls\<lparr>ls_world := v\<rparr> = ls\<lparr>ls_world := w\<rparr>" for v by blast
  show ?thesis by (auto simp: initDB_def Let_def case_prod_beta intro: *)
qed

lemma login_inv_initDB [inv_intros]: "login_inv ls \<Longrightarrow> login_inv (initDB E ls)"
  using initDB_frame [of E ls] by (auto simp: login_inv_world)

lemma initDB_connections [simp]: "ls_incomingConnections (initDB E ls) = ls_incomingConnections ls"
  using initDB_frame [of E ls] by auto

lemma conn_inv_new [inv_intros]: "conn_inv maps (IncomingConnection_new s)"
  by (simp add: conn_inv_def IncomingConnection_new_def)

lemma login_inv_accept [inv_intros]: "login_inv ls \<Longrightarrow> login_inv (accept s ls)"
  by (auto simp: login_inv_def accept_def server_inv_connections conn_inv_new)

lemma login_inv_connections:
  "login_inv (ls\<lparr>ls_incomingConnections := cs\<rparr>) \<longleftrightarrow> server_inv ls \<and> (\<forall>c \<in> set cs. conn_inv (ls_allMaps ls) c)"
  by (simp add: login_inv_def server_inv_connections)

text \<open>The start: no connections, no sessions, and room in the vector for a server per map.\<close>

lemma processMap_keeps:
  assumes "processMap E path ls = Inr ls'"
  shows "\<exists>w ms ids. ls' = ls\<lparr>ls_world := w, ls_allMaps := ms, ls_mapIDToName := ids\<rparr>"
proof (cases "tmx_parse E path (ls_world ls)")
  case None
  then have "ls' = ls\<lparr>ls_world := ls_world ls, ls_allMaps := ls_allMaps ls, ls_mapIDToName := ls_mapIDToName ls\<rparr>"
    using assms by (simp add: processMap_def)
  then show ?thesis by blast
next
  case (Some m)
  then show ?thesis
    using assms by (auto simp: processMap_def makeMD5Hash_eq Let_def case_prod_beta)
qed

lemma processMap_adds:
  assumes "processMap E path ls = Inr ls'" "tmx_parse E path (ls_world ls) = Some m"
  shows "\<exists>l. ls_allMaps ls' = ls_allMaps ls @ [l] \<and> lo_locationName l = resolveNameFromMap m
    \<and> makeMD5Hash E (tm_filehash m) = Inr (lo_knownMD5Hash l)"
  using assms
  by (auto simp: processMap_def makeMD5Hash_eq Let_def reconcile_def Location_new_def case_prod_beta split: list.split)

definition pristine :: "('s, 'k, 'w) login_server \<Rightarrow> bool" where
  "pristine ls =
     (ls_playerSessions ls = [] \<and> ls_sessionHeap ls = (\<lambda>_. None) \<and>
      ls_usernameToPlayerSession ls = (\<lambda>_. None) \<and> ls_incomingConnections ls = [] \<and>
      v_elems (ls_mapServers ls) = [] \<and> ls_mapNameToConnection ls = (\<lambda>_. None) \<and>
      (case ls_crypto ls of None \<Rightarrow> True | Some c \<Rightarrow> usable c))"

lemma pristine_new: "LoginServer_new E details k w = Inr ls \<Longrightarrow> pristine ls"
  by (auto simp: LoginServer_new_def pristine_def Let_def andThen_eq_Inr vec_empty_def
      dest: usable_generate usable_fromFiles split: if_splits option.splits)

lemma pristine_processMap: "processMap E path ls = Inr ls' \<Longrightarrow> pristine ls \<Longrightarrow> pristine ls'"
  using processMap_keeps [of E path ls ls'] by (auto simp: pristine_def)

lemma run_start_inv:
  assumes "run_start E details k w = Inr r"
  shows "run_inv r"
proof -
  obtain ls ls2 paths where run: "LoginServer_new E details k w = Inr ls" "foldR (processMap E) paths ls = Inr ls2"
      and r: "rn_server r = ls2\<lparr>ls_mapServers := vec_reserve (length (ls_allMaps ls2)) (ls_mapServers ls2)\<rparr>"
        "rn_cursor r = 0" and crypto: "ls_crypto ls2 \<noteq> None"
    using assms
    by (auto simp: run_start_def LoginServer_run_def processMaps_def incomingChallenge_def andThen_eq_Inr deref_eq_Inr)
  have "pristine ls2"
    by (rule foldR_invariant [OF run(2), where P = pristine])
      (auto simp: pristine_new [OF run(1)] pristine_processMap)
  then show ?thesis
    using crypto vec_cap_reserve [of "length (ls_allMaps ls2)" "ls_mapServers ls2"]
    by (auto simp: run_inv_def r login_inv_def server_inv_def sessions_inv_def maps_inv_def
        crypto_ready_def owned_def pristine_def)
qed

lemma connectedPass_connections:
  "connectedPass E t ls = Inr (a, ls') \<Longrightarrow> login_inv ls \<Longrightarrow> ls_incomingConnections ls' = ls_incomingConnections ls"
  using session.pass_keeps [of E "ls_playerSessions ls" ls _ _ "[]"]
  by (auto simp: connectedPass_def andThen_eq_Inr Let_def processSessions_pass login_inv_def
      server_inv_def slots_inv_whole dest!: same_but_sessions_simps(5) split: if_splits)

lemma login_step_inv:
  assumes "login_step E r r'" "run_inv r"
  shows "run_inv r'"
  using assms(1)
proof (cases rule: login_step.cases)
  case Boot
  then show ?thesis using assms(2) by (simp add: run_inv_def login_inv_initDB)
next
  case (Accept socket)
  then show ?thesis
    using assms(2) login_inv_accept [of "rn_server r" socket] by (simp add: run_inv_def)
next
  case (Turn c' ls')
  let ?cs = "ls_incomingConnections (rn_server r)"
  have c: "conn_inv (ls_allMaps (rn_server r)) (?cs ! rn_cursor r)"
    using assms(2) Turn(2) by (auto simp: run_inv_def login_inv_def)
  have s: "server_inv (rn_server r)" using assms(2) by (simp add: run_inv_def login_inv_def)
  note k = dispatcher.step_keeps [OF UNIV_I c s Turn(3)]
  then have "ls_allMaps ls' = ls_allMaps (rn_server r)" "ls_incomingConnections ls' = ?cs"
    by (simp_all add: static_def)
  moreover have "\<forall>d \<in> set ?cs. conn_inv (ls_allMaps (rn_server r)) d"
    using assms(2) by (simp add: run_inv_def login_inv_def)
  ultimately show ?thesis
    using Turn k set_update_subset_insert [of ?cs "rn_cursor r" c']
    by (auto simp: run_inv_def login_inv_connections)
next
  case (EndPass elapsed)
  then show ?thesis
    using assms(2) by (auto simp: run_inv_def login_inv_def server_inv_connections purge_done_def)
next
  case (Connected elapsed active ls')
  then show ?thesis
    using assms(2) connectedPass_keeps(1) connectedPass_connections
    by (fastforce simp: run_inv_def)
qed

lemma login_reachable_inv: "login_reachable E r \<Longrightarrow> run_inv r"
proof -
  assume "login_reachable E r"
  then obtain details k w r0 where start: "run_start E details k w = Inr r0" and steps: "(login_step E)\<^sup>*\<^sup>* r0 r"
    by (auto simp: login_reachable_def)
  from steps show "run_inv r"
    by (induction rule: rtranclp_induct) (auto simp: run_start_inv [OF start] login_step_inv)
qed

lemma login_fault_kinds:
  assumes "login_fault E r e" "run_inv r"
  shows "input_fault e \<or> e = DanglingPointer \<and> overfull (rn_server r)"
  using assms(1)
proof (cases rule: login_fault.cases)
  case TurnFault
  have "conn_inv (ls_allMaps (rn_server r)) (ls_incomingConnections (rn_server r) ! rn_cursor r)"
    using assms(2) TurnFault(1) by (auto simp: run_inv_def login_inv_def)
  then show ?thesis
    using dispatcher.faults [OF UNIV_I _ _ TurnFault(2)] assms(2) by (simp add: run_inv_def login_inv_def)
next
  case (ConnectedFault elapsed)
  then show ?thesis using connectedPass_faults assms(2) by (fastforce simp: run_inv_def)
qed

end
