(* ===== verification/LoginRun.thy ===== *)
theory LoginRun imports LoginServer begin

text \<open>
  The run of the incoming thread, turn by turn, and the function \<open>incomingPass\<close>: a pass that nobody
  interrupts is a sequence of steps of the run. The handlers do not look at the list of connections
  they are called from, so a turn's effect on the list and its effect on the rest commute.
\<close>

section \<open>Handlers do not depend on the list of connections\<close>

definition with_connections :: "'s incoming list \<Rightarrow> ('s, 'k, 'w) login_server \<Rightarrow> ('s, 'k, 'w) login_server" where
  "with_connections cs ls = ls\<lparr>ls_incomingConnections := cs\<rparr>"

lemma with_connections_simps [simp]:
  "ls_crypto (with_connections cs ls) = ls_crypto ls"
  "ls_world (with_connections cs ls) = ls_world ls"
  "ls_hasher (with_connections cs ls) = ls_hasher ls"
  "ls_nextGUID (with_connections cs ls) = ls_nextGUID ls"
  "ls_allMaps (with_connections cs ls) = ls_allMaps ls"
  "ls_mapNameToConnection (with_connections cs ls) = ls_mapNameToConnection ls"
  "(with_connections cs ls)\<lparr>ls_world := w\<rparr> = with_connections cs (ls\<lparr>ls_world := w\<rparr>)"
  "(with_connections cs ls)\<lparr>ls_nextGUID := g\<rparr> = with_connections cs (ls\<lparr>ls_nextGUID := g\<rparr>)"
  "add_session s (with_connections cs ls) = with_connections cs (add_session s ls)"
  "register_map_server m (with_connections cs ls) = with_connections cs (register_map_server m ls)"
  by (simp_all add: with_connections_def add_session_def register_map_server_def Let_def)

lemma processLoginAttempt_frame: "processLoginAttempt E a c (with_connections cs ls) =
   mapRes (\<lambda>(b, c', ls'). (b, c', with_connections cs ls')) (processLoginAttempt E a c ls)"
  by (cases "fst (db_players_by_username E (ai_username a) (db_begin E (ls_world ls)))")
    (simp_all add: processLoginAttempt_def mapRes_andThen Let_def case_prod_unfold mapRes_if cong: if_cong)

lemma login_packet_frame: "login_packet E a c (with_connections cs ls) =
   mapRes (map_prod id (with_connections cs)) (login_packet E a c ls)"
  by (simp add: login_packet_def processLoginAttempt_frame mapRes_andThen andThen_mapRes case_prod_unfold)

lemma processState_frame: "processState E ch c (with_connections cs ls) =
   mapRes (map_prod id (with_connections cs)) (processState E ch c ls)"
  by (cases "ic_state c") (simp_all add: processState_def processFreshSocket_def processChallengeSentSocket_def
   processLoginFailedSocket_def processMapListSocket_def processMapWaitAckSocket_def processDoneSocket_def login_packet_frame
     mapRes_andThen Let_def case_prod_unfold mapRes_if cong: if_cong)

lemma processConnection_frame:
  "processConnection E ch c (with_connections cs ls) =
     mapRes (map_prod id (with_connections cs)) (processConnection E ch c ls)"
  by (simp add: processConnection_def processState_frame mapRes_andThen)

section \<open>Turns make up a pass\<close>

lemma turns_pass:
  assumes "processConnections E ch rest ls = Inr (cs, ls')"
  shows "(login_step E)\<^sup>*\<^sup>*
    \<lparr>rn_server = with_connections (before @ rest) ls, rn_booted = b, rn_challenge = ch, rn_cursor = length before\<rparr>
    \<lparr>rn_server = with_connections (before @ cs) ls', rn_booted = b, rn_challenge = ch,
       rn_cursor = length (before @ cs)\<rparr>"
  using assms
proof (induction rest arbitrary: ls before cs)
  case (Cons c rest)
  obtain c1 ls1 cs1 where run: "processConnection E ch c ls = Inr (c1, ls1)"
      "processConnections E ch rest ls1 = Inr (cs1, ls')" "cs = c1 # cs1"
    using Cons.prems by (auto simp: andThen_eq_Inr)
  let ?r = "\<lparr>rn_server = with_connections (before @ c # rest) ls, rn_booted = b, rn_challenge = ch,
      rn_cursor = length before\<rparr>"
  have "login_step E ?r \<lparr>rn_server = with_connections ((before @ [c1]) @ rest) ls1, rn_booted = b,
      rn_challenge = ch, rn_cursor = length (before @ [c1])\<rparr>"
    using Turn [of ?r E c1 "with_connections (before @ c # rest) ls1"] run(1)
      processConnection_frame [of E ch c "before @ c # rest" ls]
    by (simp add: with_connections_def)
  also have "(login_step E)\<^sup>*\<^sup>* \<dots> \<lparr>rn_server = with_connections ((before @ [c1]) @ cs1) ls',
      rn_booted = b, rn_challenge = ch, rn_cursor = length ((before @ [c1]) @ cs1)\<rparr>"
    by (rule Cons.IH [OF run(2)])
  finally show ?case using run(3) by simp
qed simp

lemma pass_steps:
  assumes "incomingPass E ch elapsed ls = Inr (purged, ls')"
  shows "(login_step E)\<^sup>*\<^sup>*
    \<lparr>rn_server = ls, rn_booted = b, rn_challenge = ch, rn_cursor = 0\<rparr>
    \<lparr>rn_server = ls', rn_booted = b, rn_challenge = ch, rn_cursor = 0\<rparr>"
proof -
  obtain cs ls1 where run: "processConnections E ch (ls_incomingConnections ls) ls = Inr (cs, ls1)"
      and ls': "ls' = with_connections (if elapsed > DONE_PURGE_TIME then purge_done cs else cs) ls1"
    using assms by (auto simp: incomingPass_def andThen_eq_Inr with_connections_def split: if_splits)
  let ?r = "\<lparr>rn_server = with_connections cs ls1, rn_booted = b, rn_challenge = ch, rn_cursor = length cs\<rparr>"
  have "(login_step E)\<^sup>*\<^sup>*
      \<lparr>rn_server = ls, rn_booted = b, rn_challenge = ch, rn_cursor = 0\<rparr> ?r"
    using turns_pass [OF run, of "[]" b] by (simp add: with_connections_def)
  moreover have "login_step E ?r \<lparr>rn_server = ls', rn_booted = b, rn_challenge = ch, rn_cursor = 0\<rparr>"
    using EndPass [of ?r E elapsed]
    by (cases "elapsed > DONE_PURGE_TIME") (simp_all add: ls' with_connections_def)
  ultimately show ?thesis by (rule rtranclp.rtrancl_into_rtrancl)
qed

end
