(* ===== verification/Sample.thy ===== *)
theory Sample imports Platform CxxStd begin

text \<open>
  A concrete platform on which the properties are exercised: byte-list buffers and sockets, a small
  JSON writer and parser, a table of accounts, characters and locations, and stand-ins for the
  primitives of OpenSSL. Nothing of the program rests on it; witnesses instantiate the parameter
  with it.
\<close>

section \<open>Shorts and longs as bytes\<close>

definition byte_char :: "nat \<Rightarrow> char" where
  "byte_char n = char_of n"

definition sample_s16 :: "u16 \<Rightarrow> string" where
  "sample_s16 w = [byte_char (unat w div 256), byte_char (unat w mod 256)]"

fun bytes_be :: "nat \<Rightarrow> nat \<Rightarrow> string" where
  "bytes_be 0 n = []"
| "bytes_be (Suc k) n = bytes_be k (n div 256) @ [byte_char (n mod 256)]"

definition value_be :: "string \<Rightarrow> nat" where
  "value_be s = foldl (\<lambda>acc c. acc * 256 + of_char c) 0 s"

section \<open>Sockets\<close>

record sample_socket =
  sk_peer :: "string list"
  sk_buf :: string
  sk_sent :: string
  sk_error :: bool
  sk_open :: bool

text \<open>What the peer will send, in the portions in which it arrives.\<close>

definition sample_peer :: "string list \<Rightarrow> sample_socket" where
  "sample_peer portions =
     \<lparr>sk_peer = portions, sk_buf = [], sk_sent = [], sk_error = False, sk_open = True\<rparr>"

definition sample_recv :: "nat option \<Rightarrow> sample_socket \<Rightarrow> int \<times> sample_socket" where
  "sample_recv limit s =
     (case sk_peer s of
        [] \<Rightarrow> (0, s)
      | m # ms \<Rightarrow>
          let n = (case limit of None \<Rightarrow> length m | Some k \<Rightarrow> min k (length m)) in
          (int n, s\<lparr>sk_buf := sk_buf s @ take n m, sk_peer := if n < length m then drop n m # ms else ms\<rparr>))"

definition sample_send :: "sample_socket \<Rightarrow> int \<times> sample_socket" where
  "sample_send s =
     (if sk_open s then (int (length (sk_buf s)), s\<lparr>sk_sent := sk_sent s @ sk_buf s, sk_buf := []\<rparr>)
      else (0, s\<lparr>sk_error := True\<rparr>))"

definition sample_getString :: "nat \<Rightarrow> sample_socket \<Rightarrow> string \<times> sample_socket" where
  "sample_getString n s = (take n (sk_buf s), s\<lparr>sk_buf := drop n (sk_buf s)\<rparr>)"

section \<open>A JSON writer and parser\<close>

text \<open>
  Strings are written in quotes with a backslash in front of a quote or a backslash, integers in
  decimal with a semicolon behind; there are no commas and colons.
\<close>

fun sample_escape :: "string \<Rightarrow> string" where
  "sample_escape [] = []"
| "sample_escape (c # cs) =
     (if c = CHR 0x22 \<or> c = CHR 0x5C then CHR 0x5C # c # sample_escape cs else c # sample_escape cs)"

fun sample_token :: "jevent \<Rightarrow> string" where
  "sample_token StartObject = ''{''"
| "sample_token EndObject = ''}''"
| "sample_token StartArray = ''[''"
| "sample_token EndArray = '']''"
| "sample_token (WBool b) = (if b then ''t'' else ''f'')"
| "sample_token (WInt i) = (if i < 0 then ''-'' else ''+'') @ dec_string (nat (abs i)) @ '';''"
| "sample_token (WString s) = CHR 0x22 # sample_escape s @ [CHR 0x22]"

definition sample_render :: "jevent list \<Rightarrow> string" where
  "sample_render evs = concat (map sample_token evs)"

datatype lexing = Outside | InString string | Escaped string | InInt bool nat

fun sample_lex :: "lexing \<Rightarrow> string \<Rightarrow> jevent list" where
  "sample_lex st [] = []"
| "sample_lex Outside (c # cs) =
     (if c = CHR ''{'' then StartObject # sample_lex Outside cs
      else if c = CHR ''}'' then EndObject # sample_lex Outside cs
      else if c = CHR ''['' then StartArray # sample_lex Outside cs
      else if c = CHR '']'' then EndArray # sample_lex Outside cs
      else if c = CHR ''t'' then WBool True # sample_lex Outside cs
      else if c = CHR ''f'' then WBool False # sample_lex Outside cs
      else if c = CHR ''-'' then sample_lex (InInt True 0) cs
      else if c = CHR ''+'' then sample_lex (InInt False 0) cs
      else if c = CHR 0x22 then sample_lex (InString []) cs
      else [])"
| "sample_lex (InString acc) (c # cs) =
     (if c = CHR 0x22 then WString acc # sample_lex Outside cs
      else if c = CHR 0x5C then sample_lex (Escaped acc) cs
      else sample_lex (InString (acc @ [c])) cs)"
| "sample_lex (Escaped acc) (c # cs) = sample_lex (InString (acc @ [c])) cs"
| "sample_lex (InInt neg n) (c # cs) =
     (if c = CHR '';'' then WInt (if neg then - int n else int n) # sample_lex Outside cs
      else sample_lex (InInt neg (n * 10 + (of_char c - 48))) cs)"

text \<open>The value at the front of a list of events; the fuel bounds the depth and the width.\<close>

fun sample_value :: "nat \<Rightarrow> jevent list \<Rightarrow> (json \<times> jevent list) option"
  and sample_elems :: "nat \<Rightarrow> jevent list \<Rightarrow> (json list \<times> jevent list) option"
  and sample_members :: "nat \<Rightarrow> jevent list \<Rightarrow> ((string \<times> json) list \<times> jevent list) option" where
  "sample_value 0 evs = None"
| "sample_value (Suc k) evs =
     (case evs of
        WBool b # rest \<Rightarrow> Some (JBool b, rest)
      | WInt i # rest \<Rightarrow> Some (JInt i, rest)
      | WString s # rest \<Rightarrow> Some (JString s, rest)
      | StartArray # rest \<Rightarrow> map_option (\<lambda>(vs, r). (JArray vs, r)) (sample_elems k rest)
      | StartObject # rest \<Rightarrow> map_option (\<lambda>(ms, r). (JObject ms, r)) (sample_members k rest)
      | _ \<Rightarrow> None)"
| "sample_elems 0 evs = None"
| "sample_elems (Suc k) evs =
     (case evs of
        EndArray # rest \<Rightarrow> Some ([], rest)
      | _ \<Rightarrow>
         (case sample_value k evs of
            None \<Rightarrow> None
          | Some (v, rest) \<Rightarrow> map_option (\<lambda>(vs, r). (v # vs, r)) (sample_elems k rest)))"
| "sample_members 0 evs = None"
| "sample_members (Suc k) evs =
     (case evs of
        EndObject # rest \<Rightarrow> Some ([], rest)
      | WString m # rest \<Rightarrow>
         (case sample_value k rest of
            None \<Rightarrow> None
          | Some (v, rest') \<Rightarrow> map_option (\<lambda>(ms, r). ((m, v) # ms, r)) (sample_members k rest'))
      | _ \<Rightarrow> None)"

definition sample_parse :: "string \<Rightarrow> json" where
  "sample_parse s =
     (let evs = sample_lex Outside s in
      case sample_value (length evs) evs of Some (v, []) \<Rightarrow> v | _ \<Rightarrow> JNull)"

text \<open>The parser inverts the writer on every value without null and doubles whose strings are C strings.\<close>

fun plain :: "json \<Rightarrow> bool" where
  "plain JNull = False"
| "plain JDouble = False"
| "plain (JBool b) = True"
| "plain (JInt i) = True"
| "plain (JString s) = nul_free s"
| "plain (JArray vs) = list_all plain vs"
| "plain (JObject ms) = list_all (\<lambda>m. nul_free (fst m) \<and> plain (snd m)) ms"

lemma lex_string: "sample_lex (InString acc) (sample_escape s @ CHR 0x22 # r) = WString (acc @ s) # sample_lex Outside r"
  by (induction s arbitrary: acc) auto


lemma foldl_digits: "foldl (\<lambda>a c. a * 10 + (of_char c - 48)) n (dec_string m) = n * 10 ^ length (dec_string m) + m"
proof (induction m rule: dec_string.induct)
  case (1 m)
  show ?case
  proof (cases "m < 10")
    case True
    then show ?thesis by (subst (1 2) dec_string.simps) simp
  next
    case False
    have "dec_string m = dec_string (m div 10) @ [char_of (48 + m mod 10)]"
      using False by (subst dec_string.simps) simp
    moreover have "(of_char (char_of (48 + m mod 10) :: char) :: nat) = 48 + m mod 10"
    proof -
      have "m mod 10 < 10" by simp
      then show ?thesis by simp
    qed
    ultimately show ?thesis using 1 [OF False] by (simp add: algebra_simps)
  qed
qed

lemma lex_digit_list:
  "list_all is_digit ds \<Longrightarrow>
   sample_lex (InInt neg n) (ds @ r) = sample_lex (InInt neg (foldl (\<lambda>a c. a * 10 + (of_char c - 48)) n ds)) r"
  by (induction ds arbitrary: n) (auto simp: is_digit_def)

lemma lex_int:
  "sample_lex (InInt neg 0) (dec_string m @ '';'' @ r) = WInt (if neg then - int m else int m) # sample_lex Outside r"
  using lex_digit_list [OF dec_string_digits, of neg 0 m "'';'' @ r"] foldl_digits [of 0 m] by simp

lemma lex_token: "sample_lex Outside (sample_token e @ r) = e # sample_lex Outside r"
proof (cases e)
  case (WString s)
  then show ?thesis using lex_string [of "[]" s r] by simp
next
  case (WInt i)
  then show ?thesis
    using lex_int [of True "nat \<bar>i\<bar>" r] lex_int [of False "nat \<bar>i\<bar>" r] by (cases "i < 0") simp_all
qed simp_all

lemma lex_render: "sample_lex Outside (sample_render evs) = evs"
proof (induction evs)
  case (Cons e evs)
  then show ?case using lex_token [of e "sample_render evs"] by (simp add: sample_render_def)
qed (simp add: sample_render_def)

lemma plain_events: "plain v \<Longrightarrow> \<exists>e es. events_of v = e # es \<and> e \<noteq> EndArray"
  by (cases v) simp_all

lemma parse_value:
  "plain v \<Longrightarrow> length (events_of v) \<le> k \<Longrightarrow> sample_value k (events_of v @ r) = Some (v, r)"
proof (induction v arbitrary: k r)
  case (JArray vs)
  have elems: "sample_elems k (concat (map events_of ws) @ EndArray # r) = Some (ws, r)"
    if "set ws \<subseteq> set vs" "length (concat (map events_of ws)) < k" for ws k
    using that
  proof (induction ws arbitrary: k)
    case Nil
    then show ?case by (cases k) simp_all
  next
    case (Cons w ws)
    obtain j where k: "k = Suc j" using Cons.prems(2) by (cases k) auto
    have w: "plain w" using Cons.prems(1) JArray.prems(1) by (auto simp: list_all_iff)
    obtain e es where ev: "events_of w = e # es" "e \<noteq> EndArray" using plain_events [OF w] by auto
    have "sample_value j (events_of w @ s) = Some (w, s)" for s
      using JArray.IH [of w j s] w Cons.prems k by auto
    moreover have "sample_elems j (concat (map events_of ws) @ EndArray # r) = Some (ws, r)"
      using Cons.IH [of j] Cons.prems ev k by auto
    ultimately show ?case using ev by (cases e) (simp_all add: k)
  qed
  then show ?case using JArray.prems(2) by (cases k) auto
next
  case (JObject ms)
  have members: "sample_members k (concat (map member_events ns) @ EndObject # r) = Some (ns, r)"
    if "set ns \<subseteq> set ms" "length (concat (map member_events ns)) < k" for ns k
    using that
  proof (induction ns arbitrary: k)
    case Nil
    then show ?case by (cases k) simp_all
  next
    case (Cons n ns)
    obtain j where k: "k = Suc j" using Cons.prems(2) by (cases k) auto
    obtain m v where n: "n = (m, v)" by (cases n)
    have v: "plain v" using Cons.prems(1) JObject.prems(1) n by (auto simp: list_all_iff)
    have "sample_value j (events_of v @ s) = Some (v, s)" for s
      using JObject.IH [of n v j s] v Cons.prems k n by auto
    moreover have "sample_members j (concat (map member_events ns) @ EndObject # r) = Some (ns, r)"
      using Cons.IH [of j] Cons.prems n k by auto
    ultimately show ?case by (simp add: k n)
  qed
  then show ?case using JObject.prems(2) by (cases k) auto
qed (auto simp: Suc_le_eq gr0_conv_Suc)

lemma nul_free_concat: "nul_free (concat ss) \<longleftrightarrow> list_all nul_free ss"
  by (induction ss) (simp_all add: nul_free_def)

lemma nul_free_token: "(\<forall>s. e = WString s \<longrightarrow> nul_free s) \<Longrightarrow> nul_free (sample_token e)"
proof -
  assume e: "\<forall>s. e = WString s \<longrightarrow> nul_free s"
  have esc: "nul_free s \<Longrightarrow> nul_free (sample_escape s)" for s
    by (induction s) (simp_all add: nul_free_def)
  have dig: "nul_free (dec_string n)" for n
    using dec_string_digits [of n] by (auto simp: nul_free_def list_all_iff is_digit_def)
  show ?thesis
    using e esc dig by (cases e) (auto simp: nul_free_def list_all_iff)
qed

lemma plain_strings: "plain v \<Longrightarrow> WString s \<in> set (events_of v) \<Longrightarrow> nul_free s"
  by (induction v) (fastforce simp: list_all_iff)+

section \<open>The rest of the world\<close>

record sample_world =
  sw_players :: "player list"
  sw_characters :: "chara list"
  sw_locations :: "location list"
  sw_files :: "(string \<times> string) list"
  sw_maps :: "(string \<times> tmx_map) list"
  sw_time :: int
  sw_log :: "string list"

definition sample_note :: "string \<Rightarrow> sample_world \<Rightarrow> sample_world" where
  "sample_note what w = w\<lparr>sw_log := sw_log w @ [what]\<rparr>"

definition sample_world_of :: "player list \<Rightarrow> chara list \<Rightarrow> location list \<Rightarrow> sample_world" where
  "sample_world_of ps cs ls =
     \<lparr>sw_players = ps, sw_characters = cs, sw_locations = ls, sw_files = [], sw_maps = [], sw_time = 0, sw_log = []\<rparr>"

definition sample_pbkdf2 :: "string \<Rightarrow> u8 list \<Rightarrow> u32 \<Rightarrow> nat \<Rightarrow> u8 list" where
  "sample_pbkdf2 password salt iterations bytes =
     take bytes (map of_char password @ salt @ replicate bytes 0)"

definition sample_update_player :: "player \<Rightarrow> sample_world \<Rightarrow> sample_world" where
  "sample_update_player p w =
     w\<lparr>sw_players := map (\<lambda>q. if pl_id q = pl_id p then p else q) (sw_players w)\<rparr>"

definition sample_update_location :: "location \<Rightarrow> sample_world \<Rightarrow> sample_world" where
  "sample_update_location l w =
     w\<lparr>sw_locations := map (\<lambda>k. if lo_id k = lo_id l then l else k) (sw_locations w)\<rparr>"

definition sample_platform :: "(string, sample_socket, unit, sample_world) platform" where
  "sample_platform =
     \<lparr>bb_new = [], bb_putShort = (\<lambda>n b. b @ sample_s16 n),
      bb_putLong = (\<lambda>n b. b @ bytes_be 8 (unat n)), bb_putString = (\<lambda>x b. b @ x),
      js_render = sample_render, js_parse = sample_parse,
      so_hasError = sk_error, so_setError = (\<lambda>s. s\<lparr>sk_error := True\<rparr>), so_isConnected = sk_open,
      so_connect = (\<lambda>s. s\<lparr>sk_open := True\<rparr>), so_disconnect = (\<lambda>s. s\<lparr>sk_open := False\<rparr>),
      so_hasActivity = (\<lambda>s. (sk_peer s \<noteq> [], s)), so_waitForActivity = (\<lambda>t s. (sk_peer s \<noteq> [], s)),
      so_recv = sample_recv, so_send = sample_send, so_clear = (\<lambda>s. s\<lparr>sk_buf := []\<rparr>),
      so_put = (\<lambda>b s. s\<lparr>sk_buf := sk_buf s @ b\<rparr>),
      so_putShort = (\<lambda>n s. s\<lparr>sk_buf := sk_buf s @ sample_s16 n\<rparr>),
      so_getShort = (\<lambda>s. (of_nat (value_be (take 2 (sk_buf s))), s\<lparr>sk_buf := drop 2 (sk_buf s)\<rparr>)),
      so_getLong = (\<lambda>s. (of_nat (value_be (take 8 (sk_buf s))), s\<lparr>sk_buf := drop 8 (sk_buf s)\<rparr>)),
      so_getStringByLength = (\<lambda>n s. sample_getString (unat n) s),
      Version_versionString = ''0.0.1'', Version_gitHash = ''abc'',
      ssl_MD5 = (\<lambda>s. of_nat (length s)), ssl_PBKDF2_SHA256 = sample_pbkdf2,
      ssl_RAND_bytes = (\<lambda>n w. (Some (replicate n 7), w)),
      ssl_RSA_new = Some (), ssl_PEM_read_public = (\<lambda>_. Some ()),
      ssl_PEM_read_private_into = (\<lambda>_ k. k), ssl_PEM_read_public_into = (\<lambda>_ k. k),
      ssl_generate_key = (\<lambda>_ _ w. (Some (), w)),
      ssl_PEM_write_private = (\<lambda>_. ''PRIVATE''), ssl_PEM_write_public = (\<lambda>_. ''PUBLIC''),
      ssl_RSA_size = (\<lambda>_. 8),
      ssl_public_encrypt = (\<lambda>_ s w. (Some (map of_char s), w)),
      ssl_private_decrypt = (\<lambda>_ bs. Some (map (\<lambda>b. byte_char (unat b)) (filter (\<lambda>b. b \<noteq> 0) bs))),
      ssl_private_encrypt = (\<lambda>_ _. None), ssl_public_decrypt = (\<lambda>_ _. None),
      fs_read = (\<lambda>f w. map_of (sw_files w) f),
      fs_write = (\<lambda>f t w. w\<lparr>sw_files := (f, t) # sw_files w\<rparr>),
      fs_exists = (\<lambda>d w. True), fs_is_directory = (\<lambda>d w. True),
      fs_list = (\<lambda>d w. map (\<lambda>(f, m). (f, ''.tmx'')) (sw_maps w)),
      tmx_parse = (\<lambda>f w. map_of (sw_maps w) f),
      rnd_getDiceRoll = (\<lambda>w. (4, w)), clock_universal = (\<lambda>w. (sw_time w, w)),
      db_begin = sample_note ''begin'', db_commit = sample_note ''commit'',
      db_rollback = sample_note ''rollback'',
      db_players_by_username = (\<lambda>u w. (filter (\<lambda>p. pl_username p = u) (sw_players w), w)),
      db_player_count = (\<lambda>w. (length (sw_players w), w)),
      db_load_player = (\<lambda>i w. (find (\<lambda>p. pl_id p = i) (sw_players w), w)),
      db_update_player = sample_update_player,
      db_persist_player = (\<lambda>p w. w\<lparr>sw_players := sw_players w @ [p]\<rparr>),
      db_characters_of_player = (\<lambda>i w. (filter (\<lambda>c. ch_playerID c = i) (sw_characters w), w)),
      db_characters_of_player_with_id =
        (\<lambda>i j w. (filter (\<lambda>c. ch_playerID c = i \<and> ch_id c = j) (sw_characters w), w)),
      db_locations_by_name = (\<lambda>n w. (filter (\<lambda>l. lo_locationName l = n) (sw_locations w), w)),
      db_persist_location =
        (\<lambda>l w. let i = of_nat (Suc (length (sw_locations w))) in
           (i, w\<lparr>sw_locations := sw_locations w @ [l\<lparr>lo_id := i\<rparr>]\<rparr>)),
      db_update_location = sample_update_location\<rparr>"


text \<open>Each function of the platform by itself, so that evaluation does not carry the whole record.\<close>

lemma sample_simps [simp]:
  "bb_new sample_platform = []"
  "bb_putShort sample_platform = (\<lambda>n b. b @ sample_s16 n)"
  "bb_putLong sample_platform = (\<lambda>n b. b @ bytes_be 8 (unat n))"
  "bb_putString sample_platform = (\<lambda>x b. b @ x)"
  "js_render sample_platform = sample_render"
  "js_parse sample_platform = sample_parse"
  "so_hasError sample_platform = sk_error"
  "so_setError sample_platform = (\<lambda>s. s\<lparr>sk_error := True\<rparr>)"
  "so_isConnected sample_platform = sk_open"
  "so_connect sample_platform = (\<lambda>s. s\<lparr>sk_open := True\<rparr>)"
  "so_disconnect sample_platform = (\<lambda>s. s\<lparr>sk_open := False\<rparr>)"
  "so_hasActivity sample_platform = (\<lambda>s. (sk_peer s \<noteq> [], s))"
  "so_waitForActivity sample_platform = (\<lambda>t s. (sk_peer s \<noteq> [], s))"
  "so_recv sample_platform = sample_recv"
  "so_send sample_platform = sample_send"
  "so_clear sample_platform = (\<lambda>s. s\<lparr>sk_buf := []\<rparr>)"
  "so_put sample_platform = (\<lambda>b s. s\<lparr>sk_buf := sk_buf s @ b\<rparr>)"
  "so_putShort sample_platform = (\<lambda>n s. s\<lparr>sk_buf := sk_buf s @ sample_s16 n\<rparr>)"
  "so_getShort sample_platform = (\<lambda>s. (of_nat (value_be (take 2 (sk_buf s))), s\<lparr>sk_buf := drop 2 (sk_buf s)\<rparr>))"
  "so_getLong sample_platform = (\<lambda>s. (of_nat (value_be (take 8 (sk_buf s))), s\<lparr>sk_buf := drop 8 (sk_buf s)\<rparr>))"
  "so_getStringByLength sample_platform = (\<lambda>n s. sample_getString (unat n) s)"
  "Version_versionString sample_platform = ''0.0.1''"
  "Version_gitHash sample_platform = ''abc''"
  "ssl_MD5 sample_platform = (\<lambda>s. of_nat (length s))"
  "ssl_PBKDF2_SHA256 sample_platform = sample_pbkdf2"
  "ssl_RAND_bytes sample_platform = (\<lambda>n w. (Some (replicate n 7), w))"
  "ssl_RSA_new sample_platform = Some ()"
  "ssl_PEM_read_public sample_platform = (\<lambda>_. Some ())"
  "ssl_PEM_read_private_into sample_platform = (\<lambda>_ k. k)"
  "ssl_PEM_read_public_into sample_platform = (\<lambda>_ k. k)"
  "ssl_generate_key sample_platform = (\<lambda>_ _ w. (Some (), w))"
  "ssl_PEM_write_private sample_platform = (\<lambda>_. ''PRIVATE'')"
  "ssl_PEM_write_public sample_platform = (\<lambda>_. ''PUBLIC'')"
  "ssl_RSA_size sample_platform = (\<lambda>_. 8)"
  "ssl_public_encrypt sample_platform = (\<lambda>_ s w. (Some (map of_char s), w))"
  "ssl_private_decrypt sample_platform = (\<lambda>_ bs. Some (map (\<lambda>b. byte_char (unat b)) (filter (\<lambda>b. b \<noteq> 0) bs)))"
  "ssl_private_encrypt sample_platform = (\<lambda>_ _. None)"
  "ssl_public_decrypt sample_platform = (\<lambda>_ _. None)"
  "fs_read sample_platform = (\<lambda>f w. map_of (sw_files w) f)"
  "fs_write sample_platform = (\<lambda>f t w. w\<lparr>sw_files := (f, t) # sw_files w\<rparr>)"
  "fs_exists sample_platform = (\<lambda>d w. True)"
  "fs_is_directory sample_platform = (\<lambda>d w. True)"
  "fs_list sample_platform = (\<lambda>d w. map (\<lambda>(f, m). (f, ''.tmx'')) (sw_maps w))"
  "tmx_parse sample_platform = (\<lambda>f w. map_of (sw_maps w) f)"
  "rnd_getDiceRoll sample_platform = (\<lambda>w. (4, w))"
  "clock_universal sample_platform = (\<lambda>w. (sw_time w, w))"
  "db_begin sample_platform = sample_note ''begin''"
  "db_commit sample_platform = sample_note ''commit''"
  "db_rollback sample_platform = sample_note ''rollback''"
  "db_players_by_username sample_platform = (\<lambda>u w. (filter (\<lambda>p. pl_username p = u) (sw_players w), w))"
  "db_player_count sample_platform = (\<lambda>w. (length (sw_players w), w))"
  "db_load_player sample_platform = (\<lambda>i w. (find (\<lambda>p. pl_id p = i) (sw_players w), w))"
  "db_update_player sample_platform = sample_update_player"
  "db_persist_player sample_platform = (\<lambda>p w. w\<lparr>sw_players := sw_players w @ [p]\<rparr>)"
  "db_characters_of_player sample_platform = (\<lambda>i w. (filter (\<lambda>c. ch_playerID c = i) (sw_characters w), w))"
  "db_characters_of_player_with_id sample_platform = (\<lambda>i j w. (filter (\<lambda>c. ch_playerID c = i \<and> ch_id c = j) (sw_characters w), w))"
  "db_locations_by_name sample_platform = (\<lambda>n w. (filter (\<lambda>l. lo_locationName l = n) (sw_locations w), w))"
  "db_persist_location sample_platform = (\<lambda>l w. let i = of_nat (Suc (length (sw_locations w))) in
           (i, w\<lparr>sw_locations := sw_locations w @ [l\<lparr>lo_id := i\<rparr>]\<rparr>))"
  "db_update_location sample_platform = sample_update_location"
  by (simp_all add: sample_platform_def)

section \<open>The sample meets what is assumed of the libraries\<close>

lemma of_char_byte_char [simp]: "n < 256 \<Longrightarrow> (of_char (byte_char n) :: nat) = n"
  by (simp add: byte_char_def)

lemma value_be_s16: "of_nat (value_be (sample_s16 w)) = (w :: u16)"
proof -
  have "unat w < 2 ^ LENGTH(16)" by (rule unsigned_less)
  then have "unat w < 65536" by simp
  then have "unat w div 256 < 256" "unat w mod 256 < 256" by auto
  then have "value_be (sample_s16 w) = unat w"
    by (simp add: value_be_def sample_s16_def)
  then show ?thesis by simp
qed

lemma length_sample_s16 [simp]: "length (sample_s16 w) = 2"
  by (simp add: sample_s16_def)

lemma length_bytes_be [simp]: "length (bytes_be k n) = k"
  by (induction k arbitrary: n) simp_all

lemma value_bytes_be: "value_be (bytes_be k n) = n mod 256 ^ k"
proof (induction k arbitrary: n)
  case (Suc k)
  have "value_be (bytes_be (Suc k) n) = value_be (bytes_be k (n div 256)) * 256 + n mod 256"
    by (simp add: value_be_def)
  also have "\<dots> = n mod 256 ^ Suc k"
    using Suc [of "n div 256"] mod_mult2_eq [of n 256 "256 ^ k"] by simp
  finally show ?case .
qed (simp add: value_be_def)

lemma sample_fifo_put: "fifo_put sample_platform (\<lambda>b. b) sample_s16"
  by (simp add: fifo_put_def)

lemma sample_wire: "wire sample_platform (\<lambda>b. b) sk_sent"
  by (simp add: wire_def sample_send_def sample_recv_def sample_getString_def Let_def split: list.split)

lemma sample_fifo_get: "fifo_get sample_platform sk_buf sample_s16"
  by (simp add: fifo_get_def sample_getString_def value_be_s16)


lemma sample_reads_back: "plain v \<Longrightarrow> reads_back sample_platform v"
proof -
  assume v: "plain v"
  have "nul_free (sample_render (events_of v))"
    unfolding sample_render_def nul_free_concat list_all_iff set_map
    by (intro ballI) (auto intro: nul_free_token dest: plain_strings [OF v])
  then show ?thesis
    using parse_value [OF v order_refl, of "[]"]
    by (simp add: reads_back_def json_text_def sample_parse_def lex_render)
qed

end
