(* ===== verification/SampleRun.thy ===== *)
theory SampleRun imports LoginRun Sample begin

text \<open>
  Sample states and runs of the login server on the sample platform: a server with one map, a
  connection that was just accepted, and a run in which two map servers offer the same map at the
  same time. The witnesses of the properties use them.
\<close>

section \<open>Documents and sockets\<close>

lemma plain_docs [simp]:
  "plain (challenge_doc ch)" "plain (identity_doc t)" "plain (response_doc re)"
  "plain (instructions_doc mi)" "plain (map_list_doc ls)" "plain (characters_doc cs)"
  by (simp_all add: challenge_doc_def identity_doc_def response_doc_def instructions_doc_def
      map_list_doc_def map_list_entry_doc_def characters_doc_def character_doc_def
      bau.nul_free_render list_all_iff)

lemmas sample_docs = plain_docs [THEN sample_reads_back]

text \<open>A socket whose reader has these bytes in front of it.\<close>

definition sample_holding :: "string \<Rightarrow> sample_socket" where
  "sample_holding bytes = (sample_peer [])\<lparr>sk_buf := bytes\<rparr>"

lemma sk_buf_sample_holding [simp]: "sk_buf (sample_holding bytes) = bytes"
  by (simp add: sample_holding_def sample_peer_def)

lemmas json_text_eval = toJSON_def sample_render_def json_simps char_of_def

lemma take_s16 [simp]: "take 2 (sample_s16 w @ r) = sample_s16 w" "drop 2 (sample_s16 w @ r) = r"
    "take 2 (sample_s16 w) = sample_s16 w" "drop 2 (sample_s16 w) = []"
  by simp_all

declare value_be_s16 [simp]

lemma sample_reply:
  "sk_open s \<Longrightarrow> reply sample_platform p s =
     (int (length (pk_buffer p)), s\<lparr>sk_sent := sk_sent s @ pk_buffer p, sk_buf := []\<rparr>)"
  by (simp add: reply_def sample_send_def)

section \<open>A map and a server for it\<close>

definition sample_layer :: "string \<Rightarrow> bool \<Rightarrow> (int \<times> int) list \<Rightarrow> tmx_layer" where
  "sample_layer name solid tiles = \<lparr>tl_name = name, tl_visible = True,
     tl_stringProperty = (\<lambda>p. if solid \<and> p = ''solid'' then ''1'' else []),
     tl_tilesetIndex = (\<lambda>x y. if (x, y) \<in> set tiles then 0 else - 1), tl_tileId = (\<lambda>x y. 5)\<rparr>"

definition sample_tmx :: tmx_map where
  "sample_tmx = \<lparr>tm_filename = ''a.tmx'', tm_filehash = ''hash'', tm_width = 3, tm_height = 2,
     tm_tileWidth = 32, tm_tileHeight = 32,
     tm_stringProperty = (\<lambda>p. if p = ''PPG_NAME'' then ''town'' else []),
     tm_intProperty = (\<lambda>p d. if p = ''PPG_VERSION'' then 1 else d),
     tm_tileLayers = [sample_layer ''ground'' False [(0, 0), (1, 0), (2, 0), (0, 1), (1, 1), (2, 1)],
                      sample_layer ''walls'' True [(1, 0)], sample_layer ''__playerSpawn'' False [(2, 1)]],
     tm_tile = (\<lambda>_ _. None)\<rparr>"

definition sample_hash :: string where
  "sample_hash = byteVectorToString (md5_bytes (ssl_MD5 sample_platform ''hash''))"

definition sample_location :: location where
  "sample_location = (Location_new ''town'' ''a.tmx'' sample_hash 1)\<lparr>lo_id := 1\<rparr>"

definition sample_details :: server_details where
  "sample_details = ServerDetails_new ''ppg'' ''localhost'' 10419 LOGIN_SERVER (Some [''a.tmx'']) None None"

definition sample_keys :: "unit rsa_crypto" where
  "sample_keys = \<lparr>rc_privateKey = ''PRIVATE'', rc_publicKey = ''PUBLIC'', rc_keyPair = Some (),
     rc_pubKeyLength = 6, rc_priKeyLength = 7, rc_hasPubKey = True, rc_hasPriKey = True\<rparr>"

definition sample_world_0 :: sample_world where
  "sample_world_0 = (sample_world_of [] [] [])\<lparr>sw_maps := [(''a.tmx'', sample_tmx)]\<rparr>"

definition sample_world_1 :: sample_world where
  "sample_world_1 = sample_world_0\<lparr>sw_files := [(''login.prv'', ''PRIVATE''), (''login.pub'', ''PUBLIC'')],
     sw_locations := [sample_location], sw_log := [''begin'', ''commit'']\<rparr>"

definition sample_server :: "(sample_socket, unit, sample_world) login_server" where
  "sample_server = \<lparr>ls_details = sample_details, ls_crypto = Some sample_keys,
     ls_hasher = \<lparr>iterationCount = 32000\<rparr>, ls_playerSessions = [], ls_sessionHeap = (\<lambda>_. None),
     ls_nextAddress = 0, ls_nextGUID = 0, ls_usernameToPlayerSession = (\<lambda>_. None),
     ls_incomingConnections = [], ls_allMaps = [sample_location],
     ls_mapServers = \<lparr>v_elems = [], v_cap = 1, v_gen = 1\<rparr>,
     ls_mapIDToName = [1 \<mapsto> ''town''], ls_mapNameToConnection = (\<lambda>_. None), ls_done = False,
     ls_world = sample_world_1\<rparr>"

definition sample_run :: "(string, sample_socket, unit, sample_world) running" where
  "sample_run = \<lparr>rn_server = sample_server, rn_booted = False,
     rn_challenge = AuthenticationChallenge_new sample_platform
       \<lparr>ac_version = ''0.0.1'', ac_versionHash = ''abc'', ac_name = ''ppg'', ac_pubKey = ''PUBLIC''\<rparr>,
     rn_cursor = 0\<rparr>"

lemma sample_processMap:
  "processMap sample_platform ''a.tmx''
     (sample_server\<lparr>ls_world := sample_world_0\<lparr>sw_files := fs\<rparr>, ls_allMaps := [], ls_mapIDToName := (\<lambda>_. None),
        ls_mapServers := vec_empty\<rparr>)
   = Inr (sample_server\<lparr>ls_world := sample_world_1\<lparr>sw_files := fs\<rparr>, ls_mapServers := vec_empty\<rparr>)"
  by (simp add: processMap_def sample_server_def sample_world_0_def sample_world_1_def sample_world_of_def
      sample_tmx_def makeMD5Hash_eq resolveNameFromMap_def resolveVersionFromMap_def reconcile_def
      sample_location_def sample_hash_def sample_note_def um_emplace_def Location_new_def)

lemma sample_run_start: "run_start sample_platform sample_details True sample_world_0 = Inr sample_run"
proof -
  let ?fs = "[(''login.prv'', ''PRIVATE''), (''login.pub'', ''PUBLIC'')]"
  have "LoginServer_new sample_platform sample_details True sample_world_0
      = Inr (sample_server\<lparr>ls_world := sample_world_0\<lparr>sw_files := ?fs\<rparr>, ls_allMaps := [],
          ls_mapIDToName := (\<lambda>_. None), ls_mapServers := vec_empty\<rparr>)"
    by (simp add: LoginServer_new_def sample_details_def ServerDetails_new_def RSACrypto_generate_def
        writePrivateKeyFile_def writePublicKeyFile_def sample_server_def sample_keys_def
        sample_world_0_def sample_world_of_def)
  moreover have "processMaps sample_platform (sample_server\<lparr>ls_world := sample_world_0\<lparr>sw_files := ?fs\<rparr>,
        ls_allMaps := [], ls_mapIDToName := (\<lambda>_. None), ls_mapServers := vec_empty\<rparr>) = Inr sample_server"
  proof -
    have "sample_world_1\<lparr>sw_files := ?fs\<rparr> = sample_world_1" by (simp add: sample_world_1_def)
    moreover have "ls_details sample_server = sample_details" by (simp add: sample_server_def)
    moreover have "sd_maps sample_details = Some [''a.tmx'']"
      by (simp add: sample_details_def ServerDetails_new_def)
    ultimately show ?thesis
      by (simp add: processMaps_def sample_processMap) (simp add: sample_server_def vec_reserve_def vec_empty_def)
  qed
  ultimately show ?thesis
    by (simp add: run_start_def LoginServer_run_def)
      (simp add: incomingChallenge_def sample_run_def sample_server_def sample_keys_def sample_details_def
        ServerDetails_new_def)
qed

text \<open>The sample server after \<open>initDB\<close>, with accepted connections.\<close>

definition sample_booted :: "(string, sample_socket, unit, sample_world) running" where
  "sample_booted = sample_run\<lparr>rn_booted := True, rn_server := initDB sample_platform sample_server\<rparr>"

definition sample_accepted :: "sample_socket list \<Rightarrow> (string, sample_socket, unit, sample_world) running" where
  "sample_accepted ss = sample_booted\<lparr>rn_server := fold accept ss (rn_server sample_booted)\<rparr>"

lemma sample_accepted_reachable: "login_reachable sample_platform (sample_accepted ss)"
proof -
  have "(login_step sample_platform)\<^sup>*\<^sup>* sample_booted (sample_booted\<lparr>rn_server := fold accept ss (rn_server sample_booted)\<rparr>)"
  proof (induction ss rule: rev_induct)
    case (snoc s ss)
    have "login_step sample_platform (sample_booted\<lparr>rn_server := fold accept ss (rn_server sample_booted)\<rparr>)
        (sample_booted\<lparr>rn_server := accept s (fold accept ss (rn_server sample_booted))\<rparr>)"
      using Accept [of "sample_booted\<lparr>rn_server := fold accept ss (rn_server sample_booted)\<rparr>" sample_platform s]
      by (simp add: sample_booted_def sample_run_def)
    then show ?case using snoc by simp
  qed simp
  moreover have "login_step sample_platform sample_run sample_booted"
    using Boot [of sample_run sample_platform] by (simp add: sample_booted_def sample_run_def)
  ultimately show ?thesis
    unfolding login_reachable_def sample_accepted_def using sample_run_start
    by (meson converse_rtranclp_into_rtranclp)
qed

lemma sample_accepted_connections:
  "ls_incomingConnections (rn_server (sample_accepted ss)) = map IncomingConnection_new ss"
proof -
  have "ls_incomingConnections (fold accept ss ls) = ls_incomingConnections ls @ map IncomingConnection_new ss"
    for ls :: "(sample_socket, unit, sample_world) login_server"
    by (induction ss arbitrary: ls) (simp_all add: accept_def)
  then show ?thesis by (simp add: sample_accepted_def sample_booted_def sample_server_def)
qed


section \<open>Two map servers that offer the same map\<close>

definition sample_sock :: "string list \<Rightarrow> string \<Rightarrow> sample_socket" where
  "sample_sock portions sent =
     \<lparr>sk_peer = portions, sk_buf = [], sk_sent = sent, sk_error = False, sk_open = True\<rparr>"

text \<open>The three packets of a map server.\<close>

definition sample_m1 :: string where
  "sample_m1 = pk_buffer (MapServerRegistrationRequest_new sample_platform ''map'' ''host'' 10420)"

definition sample_m2 :: string where
  "sample_m2 = pk_buffer (MapServerMapList_new sample_platform [sample_location])"

definition sample_m3 :: string where
  "sample_m3 = sample_s16 (server_opcode MAP_SERVER_ACK)"

definition sample_conn :: "sample_socket option \<Rightarrow> incoming_state \<Rightarrow> location list option \<Rightarrow> sample_socket incoming" where
  "sample_conn s st ms = \<lparr>ic_socket = s, ic_state = st, ic_loginAttempts = 0,
     ic_mapServerFriendlyName = Some ''map'', ic_mapServerPort = Some 10420,
     ic_mapServerListenAddress = Some ''host'', ic_maps = ms\<rparr>"

definition sample_challenged :: "string list \<Rightarrow> string \<Rightarrow> sample_socket incoming" where
  "sample_challenged portions sent = (IncomingConnection_new (sample_sock portions sent))\<lparr>ic_state := CHALLENGE_SENT\<rparr>"

lemma sample_turn_fresh:
  "processConnection sample_platform ch (IncomingConnection_new (sample_sock ps sent)) ls
   = Inr (sample_challenged ps (sent @ pk_buffer ch), ls)"
  by (simp add: processConnection_def check_error_def IncomingConnection_new_def sample_sock_def
      processState_def processFreshSocket_def sample_reply sample_challenged_def)

lemma sample_turn_registration:
  "\<exists>sent'. processConnection sample_platform ch (sample_challenged (sample_m1 # ps) sent) ls
   = Inr (sample_conn (Some (sample_sock ps sent')) MAP_LIST None, ls)"
proof -
  have "0 < length (pk_buffer (MapServerRegistrationResponse_new sample_platform ''hello, world''))"
    by (simp add: MapServerRegistrationResponse_new_def pkSized_def pkString_def pkShort_def
        ServerPacket_new_def Packet_new_def)
  then show ?thesis
    by (simp add: processConnection_def check_error_def sample_challenged_def IncomingConnection_new_def
        sample_sock_def processState_def processChallengeSentSocket_def sample_recv_def sample_m1_def
        MapServerRegistrationRequest_new_def pkSized_def pkString_def pkShort_def ServerPacket_new_def
        Packet_new_def read_registration_def sample_getString_def processMapAuthenticationRequest_def
        sample_reply exhaust_attempts_def MAX_ATTEMPTS_ALLOWED_def sample_conn_def)
qed

lemma length_sample_escape: "length (sample_escape s) \<le> 2 * length s"
  by (induction s) auto

lemma sample_offered_text:
  "length (toJSON sample_platform (map_list_events [sample_location])) < 65536"
proof -
  have "length (sample_escape (c_str sample_hash)) \<le> 2 * length sample_hash"
    using length_sample_escape [of "c_str sample_hash"] length_c_str_le [of sample_hash] by linarith
  also have "\<dots> = 64" by (simp add: sample_hash_def length_byteVectorToString del: sample_simps)
  finally have hash: "length (sample_escape (c_str sample_hash)) \<le> 64" .
  have "length (toJSON sample_platform (map_list_events [sample_location]))
      \<le> length (sample_render (map_list_events [sample_location]))"
    by (simp add: toJSON_def length_c_str_le)
  also have "\<dots> < 65536"
    using hash
    by (simp add: sample_render_def json_simps map_list_events_def sample_location_def dec_string.simps)
  finally show ?thesis .
qed

lemma sample_offered_list:
  "fromJSON sample_platform map_list_decode (toJSON sample_platform (map_list_events [sample_location]))
   = Inr [sample_location\<lparr>lo_id := 0\<rparr>]"
proof -
  have "nul_free sample_hash" by (simp add: sample_hash_def bau.nul_free_render del: sample_simps)
  then have "map_list_view [sample_location] = [sample_location\<lparr>lo_id := 0\<rparr>]"
    by (simp add: map_list_view_def sample_location_def Location_new_def json_simps)
  then show ?thesis using map_list.text_round_trip [OF sample_docs(5)] by simp
qed

lemma sample_turn_list:
  assumes "ls_allMaps ls = [sample_location]" "ls_mapNameToConnection ls = (\<lambda>_. None)"
  shows "\<exists>sent'. processConnection sample_platform ch
      (sample_conn (Some (sample_sock (sample_m2 # ps) sent)) MAP_LIST None) ls
   = Inr (sample_conn (Some (sample_sock ps sent')) MAP_WAIT_ACK (Some [sample_location]), ls)"
proof -
  have "requiredMaps [sample_location] (\<lambda>_. None) [sample_location\<lparr>lo_id := 0\<rparr>] = [sample_location]"
    by (simp add: requiredMaps_def um_find_def)
  then show ?thesis
    using assms sample_offered_text
    by (simp add: processConnection_def check_error_def sample_conn_def sample_sock_def processState_def
        processMapListSocket_def sample_recv_def sample_m2_def MapServerMapList_new_def pkSized_def
        pkString_def pkShort_def ServerPacket_new_def Packet_new_def sample_getString_def
        sample_offered_list sample_reply Let_def)
qed

definition sample_registered :: "sample_socket \<Rightarrow> sample_socket map_server_connection" where
  "sample_registered s = MapServerConnection_new ''host'' 10420 (Some s) [sample_location] ''map''"

lemma sample_turn_ack:
  "\<exists>s. processConnection sample_platform ch
      (sample_conn (Some (sample_sock (sample_m3 # ps) sent)) MAP_WAIT_ACK (Some [sample_location])) ls
   = Inr (sample_conn None DONE (Some []), register_map_server (sample_registered s) ls)"
  by (simp add: processConnection_def check_error_def sample_conn_def sample_sock_def processState_def
      processMapWaitAckSocket_def sample_recv_def sample_m3_def sample_registered_def) blast

definition sample_map_socket :: sample_socket where
  "sample_map_socket = sample_sock [sample_m1, sample_m2, sample_m3] []"

text \<open>Four passes later both map servers are registered.\<close>

definition sample_two :: "sample_socket \<Rightarrow> sample_socket \<Rightarrow> (sample_socket, unit, sample_world) login_server" where
  "sample_two s t = with_connections [sample_conn None DONE (Some []), sample_conn None DONE (Some [])]
     (register_map_server (sample_registered t) (register_map_server (sample_registered s)
        (rn_server sample_booted)))"

lemma sample_pass:
  assumes "processConnection sample_platform ch c ls = Inr (c', ls1)"
    and "processConnection sample_platform ch d ls1 = Inr (d', ls2)"
  shows "incomingPass sample_platform ch 0 (with_connections [c, d] ls)
    = Inr (False, with_connections [c', d'] ls2)"
proof -
  have "processConnections sample_platform ch [c, d] (with_connections [c, d] ls)
      = Inr ([c', d'], with_connections [c, d] ls2)"
    using assms by (simp add: processConnection_frame)
  then show ?thesis by (simp add: incomingPass_def DONE_PURGE_TIME_def with_connections_def)
qed

lemma sample_booted_server:
  "ls_allMaps (rn_server sample_booted) = [sample_location]"
  "ls_mapNameToConnection (rn_server sample_booted) = (\<lambda>_. None)"
  "ls_mapServers (rn_server sample_booted) = \<lparr>v_elems = [], v_cap = 1, v_gen = 1\<rparr>"
  "ls_incomingConnections (rn_server sample_booted) = []"
  using initDB_frame [of sample_platform sample_server]
  by (auto simp: sample_booted_def sample_server_def)

lemma sample_two_reachable:
  "\<exists>s t. login_reachable sample_platform \<lparr>rn_server = sample_two s t, rn_booted = True,
     rn_challenge = rn_challenge sample_run, rn_cursor = 0\<rparr>"
proof -
  let ?ch = "rn_challenge sample_run" and ?ls = "rn_server sample_booted"
  let ?run = "\<lambda>ls. \<lparr>rn_server = ls, rn_booted = True, rn_challenge = ?ch, rn_cursor = 0\<rparr>"
  let ?c = "IncomingConnection_new sample_map_socket"
  obtain s1 s2 where fresh: "incomingPass sample_platform ?ch 0 (with_connections [?c, ?c] ?ls)
      = Inr (False, with_connections [sample_challenged [sample_m1, sample_m2, sample_m3] s1,
              sample_challenged [sample_m1, sample_m2, sample_m3] s2] ?ls)"
    using sample_pass [OF sample_turn_fresh sample_turn_fresh, of ?ch "[sample_m1, sample_m2, sample_m3]" "[]"]
    unfolding sample_map_socket_def by blast
  obtain s3 s4 where reg: "incomingPass sample_platform ?ch 0
        (with_connections [sample_challenged [sample_m1, sample_m2, sample_m3] s1,
              sample_challenged [sample_m1, sample_m2, sample_m3] s2] ?ls)
      = Inr (False, with_connections [sample_conn (Some (sample_sock [sample_m2, sample_m3] s3)) MAP_LIST None,
              sample_conn (Some (sample_sock [sample_m2, sample_m3] s4)) MAP_LIST None] ?ls)"
    using sample_turn_registration sample_pass by meson
  obtain s5 s6 where lst: "incomingPass sample_platform ?ch 0
        (with_connections [sample_conn (Some (sample_sock [sample_m2, sample_m3] s3)) MAP_LIST None,
              sample_conn (Some (sample_sock [sample_m2, sample_m3] s4)) MAP_LIST None] ?ls)
      = Inr (False, with_connections
          [sample_conn (Some (sample_sock [sample_m3] s5)) MAP_WAIT_ACK (Some [sample_location]),
           sample_conn (Some (sample_sock [sample_m3] s6)) MAP_WAIT_ACK (Some [sample_location])] ?ls)"
    using sample_turn_list [OF sample_booted_server(1,2)] sample_pass by meson
  obtain s t where ack: "incomingPass sample_platform ?ch 0
        (with_connections
          [sample_conn (Some (sample_sock [sample_m3] s5)) MAP_WAIT_ACK (Some [sample_location]),
           sample_conn (Some (sample_sock [sample_m3] s6)) MAP_WAIT_ACK (Some [sample_location])] ?ls)
      = Inr (False, sample_two s t)"
    unfolding sample_two_def using sample_turn_ack sample_pass by meson
  have "(login_step sample_platform)\<^sup>*\<^sup>* (?run (with_connections [?c, ?c] ?ls)) (?run (sample_two s t))"
    using pass_steps [OF fresh] pass_steps [OF reg] pass_steps [OF lst] pass_steps [OF ack]
    by (meson rtranclp_trans)
  moreover have "?run ls = sample_booted\<lparr>rn_server := ls\<rparr>" for ls
    by (simp add: sample_booted_def) (simp add: sample_run_def)
  moreover have "fold accept [sample_map_socket, sample_map_socket] ?ls = with_connections [?c, ?c] ?ls"
    by (simp add: accept_def with_connections_def sample_booted_server)
  ultimately have "(login_step sample_platform)\<^sup>*\<^sup>*
      (sample_accepted [sample_map_socket, sample_map_socket]) (?run (sample_two s t))"
    by (simp only: sample_accepted_def)
  then show ?thesis
    using sample_accepted_reachable [of "[sample_map_socket, sample_map_socket]"]
    unfolding login_reachable_def by (meson rtranclp_trans)
qed


section \<open>A malformed login packet\<close>

definition sample_garbage :: string where
  "sample_garbage = sample_s16 (client_opcode LOGIN_AUTHENTICATION_IDENTITY) @ sample_s16 0"

lemma sample_turn_garbage:
  "processConnection sample_platform ch (sample_challenged [sample_garbage] sent) ls = Inl JsonPrecondition"
proof -
  have "sample_parse [] = JNull" by (simp add: sample_parse_def)
  then show ?thesis
    by (simp add: processConnection_def check_error_def sample_challenged_def IncomingConnection_new_def
        sample_sock_def processState_def processChallengeSentSocket_def sample_recv_def sample_garbage_def
        sample_getString_def login_packet_def fromJSON_def identity_decode_def json_simps)
qed

lemma sample_garbage_reachable:
  "\<exists>r. login_reachable sample_platform r \<and> login_fault sample_platform r JsonPrecondition"
proof -
  let ?s = "sample_sock [sample_garbage] []"
  let ?r = "sample_accepted [?s]"
  let ?c = "sample_challenged [sample_garbage] ([] @ pk_buffer (rn_challenge ?r))"
  let ?t = "?r\<lparr>rn_server := (rn_server ?r)\<lparr>ls_incomingConnections := [?c]\<rparr>, rn_cursor := 1\<rparr>"
  let ?u = "?t\<lparr>rn_cursor := 0\<rparr>"
  have cur: "rn_cursor ?r = 0" by (simp add: sample_accepted_def sample_booted_def sample_run_def)
  have conns: "ls_incomingConnections (rn_server ?r) = [IncomingConnection_new ?s]"
    by (simp add: sample_accepted_connections)
  have "login_step sample_platform ?r ?t"
    using Turn [of ?r sample_platform ?c "rn_server ?r"] cur
    by (simp add: conns sample_turn_fresh del: append_Nil)
  moreover have "login_step sample_platform ?t ?u"
    using EndPass [of ?t sample_platform 0] by (simp add: DONE_PURGE_TIME_def)
  ultimately have "login_reachable sample_platform ?u"
    using sample_accepted_reachable [of "[?s]"] unfolding login_reachable_def
    by (meson rtranclp.rtrancl_into_rtrancl)
  moreover have "login_fault sample_platform ?u JsonPrecondition"
    by (rule TurnFault) (simp_all add: sample_turn_garbage)
  ultimately show ?thesis by blast
qed

text \<open>Where two map servers have registered for the one map, its index entry dangles.\<close>

lemma sample_two_dangles:
  "ls_mapNameToConnection (sample_two s t) ''town'' = Some (1, 0)"
  "vec_deref (ls_mapServers (sample_two s t)) (1, 0) = Inl DanglingPointer"
  "v_elems (ls_mapServers (sample_two s t)) = [sample_registered s, sample_registered t]"
proof -
  let ?v = "ls_mapServers (rn_server sample_booted)"
  have one: "vec_back_ptr (vec_emplace_back (sample_registered s) ?v) = (1, 0)"
    by (simp add: sample_booted_server vec_emplace_back_def vec_back_ptr_def)
  have offers: "offers (sample_registered u) ''town''" for u
    by (simp add: offers_def sample_registered_def MapServerConnection_new_def sample_location_def)
  show "ls_mapNameToConnection (sample_two s t) ''town'' = Some (1, 0)"
    using one offers
    by (simp add: sample_two_def with_connections_def register_index sample_booted_server(2))
  show "vec_deref (ls_mapServers (sample_two s t)) (1, 0) = Inl DanglingPointer"
    "v_elems (ls_mapServers (sample_two s t)) = [sample_registered s, sample_registered t]"
    by (simp_all add: sample_two_def with_connections_def sample_booted_server vec_emplace_back_def
        vec_deref_def vec_valid_def)
qed

end
