(* ===== verification/SampleSession.thy ===== *)
theory SampleSession imports SampleRun begin

text \<open>A sample session with one character, on a server whose map has a map server.\<close>

definition sample_session :: "sample_socket player_session" where
  "sample_session = \<lparr>ps_playerID = 1, ps_username = ''bo'', ps_sessionKey = [], ps_characterID = 0, ps_guid = 0,
     ps_socket = sample_sock [bytes_be 8 7] [], ps_authenticated = False\<rparr>"

definition sample_hero :: chara where
  "sample_hero = (Character_new ''ed'' 10 5 3)\<lparr>ch_id := 7, ch_playerID := 1, ch_locationID := 1\<rparr>"

definition sample_with_map :: "(sample_socket, unit, sample_world) login_server" where
  "sample_with_map = register_map_server (sample_registered (sample_sock [] [])) sample_server"

definition sample_hero_world :: sample_world where
  "sample_hero_world = sample_world_of [] [sample_hero] []"

lemma sample_with_map_simps:
  "ls_mapIDToName sample_with_map = [1 \<mapsto> ''town'']"
  "ls_mapNameToConnection sample_with_map ''town'' = Some (1, 0)"
  "vec_deref (ls_mapServers sample_with_map) (1, 0) = Inr (sample_registered (sample_sock [] []))"
  by (simp_all add: sample_with_map_def register_index sample_server_def vec_emplace_back_def vec_back_ptr_def
      offers_def sample_registered_def MapServerConnection_new_def sample_location_def vec_deref_def vec_valid_def)
    (simp add: register_map_server_def Let_def)

lemma sample_getLong:
  "sample_recv (Some 8) (sample_sock [bytes_be 8 7] []) = (8, (sample_sock [] [])\<lparr>sk_buf := bytes_be 8 7\<rparr>)"
  "(of_nat (value_be (bytes_be 8 7)) :: u64) = 7"
  by (simp_all add: sample_recv_def sample_sock_def value_bytes_be del: bytes_be.simps)

end
