(* ===== verification/ProtocolProperties.thy ===== *)
theory ProtocolProperties imports Client SampleSession begin

text \<open>The client and the login server together: a login, and the choice of a character.\<close>

section \<open>A login\<close>

text \<open>C11: A client whose password the server can decrypt, and whose account is not locked and holds the hash of that
  password, logs in: from the packet the client sends the server makes a session for the account and sends an
  answer that the client, when it arrives, takes for a success. Buffers and sockets must keep the order of their
  bytes, and the JSON parser must invert the writer on the two texts, which must fit their 16-bit lengths.\<close>

theorem client_logs_in:
  assumes io: "fifo_put E content s16" "fifo_get E unread s16"
    and client: "cl_crypto cl = Some key" "encryptStringPublic E key ''testa'' (cl_world cl) = Inr (enc, w1)"
      "identity = \<lparr>ai_username = cl_username cl, ai_password = enc\<rparr>" "nul_free (cl_username cl)"
      "packet = AuthenticationIdentity_new E identity"
      "reads_back E (identity_doc identity)" "length (toJSON E (identity_events identity)) < 65536"
    and request: "ic_socket c = Some s" "so_hasActivity E s = (True, s0)" "so_recv E (Some 2048) s0 = (n, s1)" "n \<noteq> 0"
      "unread s1 = content (pk_buffer packet) @ r"
    and server: "ls_crypto ls = Some crypto" "decryptStringPrivate E crypto enc = Inr ''testa''"
      "db_players_by_username E (cl_username cl) (db_begin E (ls_world ls)) = (person # rest, w)"
      "\<not> pl_locked person"
      "pl_password person = sha256ToString (hashPasswordSHA256 E (ls_hasher ls) ''testa'' (stringToSalt (pl_salt person)))"
      "fst (db_load_player E (pl_id person) (db_begin E (db_commit E (snd (rnd_getDiceRoll E w))))) \<noteq> None"
    and answer: "response = \<lparr>ar_successful = True, ar_attemptsRemaining = of_int (getAttemptsRemaining c),
        ar_message = ''Authentication successful.''\<rparr>"
      "unread (snd (so_recv E None (snd (so_waitForActivity E (Some 2000)
          (so_clear E (snd (so_send E (so_put E (pk_buffer packet) (cl_socket cl))))))))) =
        content (pk_buffer (AuthenticationResponse_new E True (ar_attemptsRemaining response) (ar_message response))) @ r'"
      "reads_back E (response_doc response)" "length (toJSON E (response_events response)) < 65536"
  shows "(\<exists>c' ls' session t. processChallengeSentSocket E c ls = Inr (c', ls') \<and> ic_state c' = DONE
      \<and> ls_playerSessions ls' = ls_playerSessions ls @ [Some (ls_nextAddress ls)]
      \<and> ls_sessionHeap ls' = (ls_sessionHeap ls)(ls_nextAddress ls \<mapsto> session)
      \<and> ps_username session = cl_username cl \<and> ps_playerID session = pl_id person
      \<and> ps_socket session
          = snd (reply E (AuthenticationResponse_new E True (ar_attemptsRemaining response) (ar_message response)) t))
    \<and> (\<exists>cl'. sendIdentity E cl = Inr (True, cl'))"
proof
  have sent: "fst (read_frame E s1) = client_opcode LOGIN_AUTHENTICATION_IDENTITY"
      "fromJSON E identity_decode (fst (snd (read_frame E s1))) = Inr identity"
    using identity.frame_round_trip [OF io client(6,7)] request(5) client(3-5)
    by (simp_all add: AuthenticationIdentity_new_def ClientPacket_new_def identity_view_def)
  let ?s = "so_clear E (snd (snd (read_frame E s1)))"
  let ?c = "c\<lparr>ic_socket := Some ?s\<rparr>"
  obtain session g v where attempt: "processLoginAttempt E identity ?c ls = Inr (True,
        ?c\<lparr>ic_socket := None, ic_state := DONE\<rparr>, (add_session session (ls\<lparr>ls_nextGUID := g\<rparr>))\<lparr>ls_world := v\<rparr>)"
      and session: "ps_username session = cl_username cl" "ps_playerID session = pl_id person"
        "ps_socket session = auth_reply E True (getAttemptsRemaining ?c) ''Authentication successful.'' ?s"
    using processLoginAttempt_succeeds [of ls crypto E identity "''testa''" ?c ?s person rest w] server client(3) by auto
  have "processChallengeSentSocket E c ls = login_packet E (fst (snd (read_frame E s1))) ?c ls"
    using request(1-4) sent(1) by (simp add: processChallengeSentSocket_def read_frame_def case_prod_beta Let_def)
  also have "\<dots> = Inr (exhaust_attempts (?c\<lparr>ic_socket := None, ic_state := DONE\<rparr>),
      (add_session session (ls\<lparr>ls_nextGUID := g\<rparr>))\<lparr>ls_world := v\<rparr>)"
    by (simp add: login_packet_def sent(2) attempt)
  finally show "\<exists>c' ls' session t. processChallengeSentSocket E c ls = Inr (c', ls') \<and> ic_state c' = DONE
      \<and> ls_playerSessions ls' = ls_playerSessions ls @ [Some (ls_nextAddress ls)]
      \<and> ls_sessionHeap ls' = (ls_sessionHeap ls)(ls_nextAddress ls \<mapsto> session)
      \<and> ps_username session = cl_username cl \<and> ps_playerID session = pl_id person
      \<and> ps_socket session
          = snd (reply E (AuthenticationResponse_new E True (ar_attemptsRemaining response) (ar_message response)) t)"
    using session by (auto simp: exhaust_done auth_reply_def getAttemptsRemaining_def answer(1))
next
  let ?t = "snd (so_recv E None (snd (so_waitForActivity E (Some 2000)
          (so_clear E (snd (so_send E (so_put E (pk_buffer packet) (cl_socket cl))))))))"
  have "fst (read_frame E ?t) = server_opcode LOGIN_AUTHENTICATION_RESPONSE"
      "fromJSON E response_decode (fst (snd (read_frame E ?t))) = Inr (response_view response)"
    using response.frame_round_trip [OF io answer(3,4)] answer(1,2)
    by (simp_all add: AuthenticationResponse_new_def ServerPacket_new_def)
  then show "\<exists>cl'. sendIdentity E cl = Inr (True, cl')"
    using client(1-3,5) answer(1)
    by (simp add: sendIdentity_def read_frame_def case_prod_beta Let_def response_view_def)
qed

section \<open>The choice of a character\<close>

text \<open>C12: The choice of a character leads to the game: when the player owns the character, its map is known and has a map
  server, then from the packet that the client sends the server takes the character for the session's and sends
  the map server's address, and when that arrives the client's next frame starts playing.\<close>

theorem chosen_character_plays:
  assumes io: "fifo_put E content s16" "fifo_get E unread s16"
    and longs: "\<forall>x b. content (bb_putLong E x b) = content b @ s64 x"
      "\<forall>s x. unread s = s64 x \<longrightarrow> fst (so_getLong E s) = x" "\<forall>x. length (s16 x) = 2"
    and request: "so_hasActivity E (ps_socket session) = (True, s0)" "so_recv E (Some 2) s0 = (2, s1)"
      "so_recv E (Some 8) (snd (so_getShort E s1)) = (8, s3)" "length (unread s1) = 2"
      "content (pk_buffer (CharacterSelect_of E first)) = unread s1 @ unread s3"
    and server: "db_characters_of_player_with_id E (ps_playerID session) (ch_id first) (db_begin E w) = ([character], w1)"
      "ls_mapIDToName ls (ch_locationID character) = Some name" "ls_mapNameToConnection ls name = Some p"
      "vec_deref (ls_mapServers ls) p = Inr map_server"
    and answer: "instructions = \<lparr>mi_friendlyName = mc_friendlyName map_server, mi_hostName = mc_hostname map_server,
        mi_port = mc_port map_server\<rparr>"
      "packet = MapServerConnectionInstructions_new E (mi_friendlyName instructions) (mi_hostName instructions)
         (mi_port instructions)"
      "fst (reply E packet (snd (so_getLong E s3))) \<noteq> 0"
      "reads_back E (instructions_doc instructions)" "length (toJSON E (instructions_events instructions)) < 65536"
    and client: "cl_gameState cl = MAP_SERVER_CONNECT"
      "so_recv E None (snd (so_waitForActivity E None (so_clear E (cl_socket cl)))) = (n, t)" "n \<noteq> 0"
      "unread t = content (pk_buffer packet) @ r"
  shows "(\<exists>session' w'. serveSession E ls session w = Inr (session', w') \<and> ps_characterID session' = ch_id first
      \<and> ps_socket session' = snd (reply E packet (snd (so_getLong E s3))))
    \<and> (\<exists>cl'. render E A pressed cl = Inr cl' \<and> cl_gameState cl' = PLAYING)"
proof
  have content: "content (pk_buffer (CharacterSelect_of E first)) = s16 (client_opcode CHARACTER_SELECT) @ s64 (ch_id first)"
    using longs(1) content_Packet_new [OF io(1), of "client_opcode CHARACTER_SELECT" CLIENT]
    by (simp add: CharacterSelect_of_def CharacterSelect_new_def pkLong_def ClientPacket_new_def)
  then have "unread s1 = s16 (client_opcode CHARACTER_SELECT)" "unread s3 = s64 (ch_id first)"
    using request(4,5) longs(3) by (metis append_eq_append_conv)+
  then have read: "fst (so_getShort E s1) = client_opcode CHARACTER_SELECT" "fst (so_getLong E s3) = ch_id first"
    using getShort_next [OF io(2), of s1 _ "[]"] longs(2) by auto
  have "selectAnswer E ls (ch_locationID character) = Inr (True, packet)"
    using server(2-4) answer(1,2) by (simp add: selectAnswer_def um_find_def)
  then show "\<exists>session' w'. serveSession E ls session w = Inr (session', w') \<and> ps_characterID session' = ch_id first
      \<and> ps_socket session' = snd (reply E packet (snd (so_getLong E s3)))"
    using request(1-3) read server(1) answer(3)
    by (simp add: serveSession_def processCharacterSelect_def case_prod_beta Let_def)
next
  have "fst (read_frame E t) = server_opcode MAP_SERVER_CONNECTION_INSTRUCTIONS"
      "\<exists>msci. fromJSON E instructions_decode (fst (snd (read_frame E t))) = Inr msci"
    using instructions.frame_round_trip [OF io answer(4,5)] client(4) answer(1,2)
    by (auto simp: MapServerConnectionInstructions_new_def ServerPacket_new_def)
  then show "\<exists>cl'. render E A pressed cl = Inr cl' \<and> cl_gameState cl' = PLAYING"
    using client(1-3) by (auto simp: render_def awaitMapServer_def read_frame_def case_prod_beta Let_def)
qed

section \<open>Witnesses\<close>

definition sample_typed :: "u8 list" where "sample_typed = [116, 101, 115, 116, 97, 0, 0, 0]"

definition sample_tester :: player where
  "sample_tester = (Player_new ''ann'' (sha256ToString (hashPasswordSHA256 sample_platform \<lparr>iterationCount = 32000\<rparr> ''testa''
     (stringToSalt ''0A''))) ''0A'')\<lparr>pl_id := 5\<rparr>"

definition sample_accounts :: "(sample_socket, unit, sample_world) login_server" where
  "sample_accounts = sample_server\<lparr>ls_world := sample_world_of [sample_tester] [] []\<rparr>"

definition sample_success :: "string" where
  "sample_success = pk_buffer (AuthenticationResponse_new sample_platform True 3 ''Authentication successful.'')"

definition sample_ann :: "sample_socket \<Rightarrow> game_state \<Rightarrow> (string, sample_socket, unit, unit, sample_world) client" where
  "sample_ann s state = \<lparr>cl_gameState = state, cl_mapOutdoor = Map_new (0, 0) sample_tmx, cl_mapIndoor = Map_new (0, 0) sample_tmx,
     cl_indoor = False, cl_playerSprite = (), cl_outdoorRenderer = sample_tmx, cl_indoorRenderer = sample_tmx,
     cl_entities = [], cl_player = None, cl_movement = MovementSystem_new (Map_new (0, 0) sample_tmx) None,
     cl_camera = (0, 0), cl_drawn = [], cl_currentCharacter = None, cl_username = ''ann'',
     cl_crypto = Some sample_keys, cl_serverPubKey = ''PUBLIC'', cl_socket = s, cl_world = sample_world_0\<rparr>"

lemma sample_ann_simps [simp]:
  "cl_crypto (sample_ann s st) = Some sample_keys" "cl_username (sample_ann s st) = ''ann''"
  "cl_world (sample_ann s st) = sample_world_0" "cl_socket (sample_ann s st) = s" "cl_gameState (sample_ann s st) = st"
  by (simp_all add: sample_ann_def)

lemma client_logs_in_witness:
  "\<exists>cl' c' ls'. sendIdentity sample_platform (sample_ann (sample_sock [sample_success] []) LOGIN) = Inr (True, cl')
     \<and> processChallengeSentSocket sample_platform
          (sample_challenged [pk_buffer (AuthenticationIdentity_new sample_platform
             \<lparr>ai_username = ''ann'', ai_password = sample_typed\<rparr>)] []) sample_accounts = Inr (c', ls')
     \<and> ls_playerSessions ls' = [Some 0]"
proof -
  let ?E = sample_platform and ?id = "\<lparr>ai_username = ''ann'', ai_password = sample_typed\<rparr>"
  let ?packet = "AuthenticationIdentity_new ?E ?id" and ?ann = "sample_ann (sample_sock [sample_success] []) LOGIN"
  let ?s = "sample_sock [pk_buffer ?packet] []" and ?c = "sample_challenged [pk_buffer ?packet] []"
  let ?re = "\<lparr>ar_successful = True, ar_attemptsRemaining = 3, ar_message = ''Authentication successful.''\<rparr>"
  let ?w = "sample_note ''begin'' (sample_world_of [sample_tester] [] [])"
  have enc: "encryptStringPublic ?E sample_keys ''testa'' (cl_world ?ann) = Inr (sample_typed, sample_world_0)"
      "?id = \<lparr>ai_username = cl_username ?ann, ai_password = sample_typed\<rparr>" "nul_free (cl_username ?ann)"
    by (simp_all add: encryptStringPublic_def sample_keys_def rsa_buffer_def sample_typed_def numeral_eq_Suc)
  have dec: "decryptStringPrivate ?E sample_keys sample_typed = Inr ''testa''"
    by (simp add: decryptStringPrivate_def sample_keys_def sample_typed_def byte_char_def char_of_def bit_Suc_0_iff)
  have fits: "length (toJSON ?E (identity_events ?id)) < 65536" "length (toJSON ?E (response_events ?re)) < 65536"
    by (simp_all add: identity_events_def response_events_def json_text_eval sample_typed_def put_hex2_def hex_char_def
        dec_string.simps)
  have len: "length (pk_buffer ?packet) \<le> 2048" "pk_buffer ?packet \<noteq> []"
    by (simp_all add: AuthenticationIdentity_new_def pkSized_def pkString_def pkShort_def ClientPacket_new_def
        Packet_new_def identity_events_def json_text_eval sample_typed_def put_hex2_def hex_char_def)
  then have request: "ic_socket ?c = Some ?s" "so_hasActivity ?E ?s = (True, ?s)"
      "so_recv ?E (Some 2048) ?s = (int (length (pk_buffer ?packet)), ?s\<lparr>sk_peer := [], sk_buf := pk_buffer ?packet\<rparr>)"
      "int (length (pk_buffer ?packet)) \<noteq> 0"
      "sk_buf (?s\<lparr>sk_peer := [], sk_buf := pk_buffer ?packet\<rparr>) = pk_buffer ?packet @ []"
    by (simp_all add: sample_challenged_def IncomingConnection_new_def sample_sock_def sample_recv_def)
  have server: "ls_crypto sample_accounts = Some sample_keys" "ls_hasher sample_accounts = \<lparr>iterationCount = 32000\<rparr>"
      "db_players_by_username ?E (cl_username ?ann) (db_begin ?E (ls_world sample_accounts)) = ([sample_tester], ?w)"
      "\<not> pl_locked sample_tester"
      "pl_password sample_tester = sha256ToString (hashPasswordSHA256 ?E (ls_hasher sample_accounts) ''testa''
         (stringToSalt (pl_salt sample_tester)))"
      "fst (db_load_player ?E (pl_id sample_tester) (db_begin ?E (db_commit ?E (snd (rnd_getDiceRoll ?E ?w))))) \<noteq> None"
      "ls_playerSessions sample_accounts = []" "ls_nextAddress sample_accounts = 0"
    by (simp_all add: sample_accounts_def sample_server_def sample_tester_def sample_note_def sample_world_of_def)
  have "getAttemptsRemaining ?c = 3"
    by (simp add: sample_challenged_def IncomingConnection_new_def getAttemptsRemaining_def MAX_ATTEMPTS_ALLOWED_def)
  then have re: "?re = \<lparr>ar_successful = True, ar_attemptsRemaining = of_int (getAttemptsRemaining ?c),
      ar_message = ''Authentication successful.''\<rparr>" by simp
  have arrives: "sk_buf (snd (so_recv ?E None (snd (so_waitForActivity ?E (Some 2000) (so_clear ?E (snd (so_send ?E
      (so_put ?E (pk_buffer ?packet) (cl_socket ?ann)))))))))
    = pk_buffer (AuthenticationResponse_new ?E True (ar_attemptsRemaining ?re) (ar_message ?re)) @ []"
    by (simp add: sample_sock_def sample_send_def sample_recv_def sample_success_def)
  have "(\<exists>c' ls' session t. processChallengeSentSocket ?E ?c sample_accounts = Inr (c', ls') \<and> ic_state c' = DONE
      \<and> ls_playerSessions ls' = ls_playerSessions sample_accounts @ [Some (ls_nextAddress sample_accounts)]
      \<and> ls_sessionHeap ls' = (ls_sessionHeap sample_accounts)(ls_nextAddress sample_accounts \<mapsto> session)
      \<and> ps_username session = cl_username ?ann \<and> ps_playerID session = pl_id sample_tester
      \<and> ps_socket session = snd (reply ?E (AuthenticationResponse_new ?E True (ar_attemptsRemaining ?re) (ar_message ?re)) t))
    \<and> (\<exists>cl'. sendIdentity ?E ?ann = Inr (True, cl'))"
    by (rule client_logs_in [OF sample_fifo_put sample_fifo_get sample_ann_simps(1) enc refl sample_docs(2) fits(1)
          request server(1) dec server(3-6) re arrives sample_docs(3) fits(2)])
  then show ?thesis by (auto simp: server(7,8))
qed

definition sample_chooser :: "sample_socket player_session" where
  "sample_chooser = sample_session\<lparr>ps_socket := sample_sock [pk_buffer (CharacterSelect_of sample_platform sample_hero)] []\<rparr>"

definition sample_directions :: "string packet" where
  "sample_directions = MapServerConnectionInstructions_new sample_platform ''map'' ''host'' 10420"

lemma sample_long: "of_nat (value_be (bytes_be 8 (unat x))) = (x :: u64)"
proof -
  have "unat x < 2 ^ LENGTH(64)" by (rule unsigned_less)
  then have "unat x < 256 ^ 8" by simp
  then show ?thesis by (simp add: value_bytes_be del: bytes_be.simps)
qed

lemma chosen_character_plays_witness:
  "\<exists>session' w' cl'. serveSession sample_platform sample_with_map sample_chooser sample_hero_world = Inr (session', w')
     \<and> ps_characterID session' = 7
     \<and> render sample_platform \<lparr>as_run_order = (\<lambda>_. []), as_visit_order = (\<lambda>is. is)\<rparr> (\<lambda>_. False)
         (sample_ann (sample_sock [pk_buffer sample_directions] []) MAP_SERVER_CONNECT) = Inr cl'
     \<and> cl_gameState cl' = PLAYING"
proof -
  let ?E = sample_platform and ?A = "\<lparr>as_run_order = (\<lambda>_. []), as_visit_order = (\<lambda>is. is)\<rparr>" and ?op = "sample_s16 (client_opcode CHARACTER_SELECT)" and ?id = "bytes_be 8 7"
  let ?cl = "sample_ann (sample_sock [pk_buffer sample_directions] []) MAP_SERVER_CONNECT"
  let ?mi = "\<lparr>mi_friendlyName = mc_friendlyName (sample_registered (sample_sock [] [])),
     mi_hostName = mc_hostname (sample_registered (sample_sock [] [])), mi_port = mc_port (sample_registered (sample_sock [] []))\<rparr>"
  define s1 where "s1 = (sample_sock [?id] [])\<lparr>sk_buf := ?op\<rparr>"
  define s3 where "s3 = (sample_sock [] [])\<lparr>sk_buf := ?id\<rparr>"
  have longs: "\<forall>x b. bb_putLong ?E x b = b @ bytes_be 8 (unat x)"
      "\<forall>s x. sk_buf s = bytes_be 8 (unat x) \<longrightarrow> fst (so_getLong ?E s) = x" "\<forall>x. length (sample_s16 x) = 2"
    by (auto simp: sample_long simp del: bytes_be.simps)
  have packet: "pk_buffer (CharacterSelect_of ?E sample_hero) = ?op @ ?id"
    by (simp add: CharacterSelect_of_def CharacterSelect_new_def pkLong_def ClientPacket_new_def Packet_new_def
        sample_hero_def del: bytes_be.simps)
  have request: "so_hasActivity ?E (ps_socket sample_chooser) = (True, ps_socket sample_chooser)"
      "so_recv ?E (Some 2) (ps_socket sample_chooser) = (2, s1)"
      "so_recv ?E (Some 8) (snd (so_getShort ?E s1)) = (8, s3)" "length (sk_buf s1) = 2"
      "pk_buffer (CharacterSelect_of ?E sample_hero) = sk_buf s1 @ sk_buf s3"
    by (simp_all add: sample_chooser_def packet sample_sock_def sample_recv_def s1_def s3_def del: bytes_be.simps)
  have found: "db_characters_of_player_with_id ?E (ps_playerID sample_chooser) (ch_id sample_hero) (db_begin ?E sample_hero_world)
      = ([sample_hero], sample_note ''begin'' sample_hero_world)"
    by (simp add: sample_chooser_def sample_session_def sample_hero_world_def sample_world_of_def sample_note_def sample_hero_def)
  have map: "ls_mapIDToName sample_with_map (ch_locationID sample_hero) = Some ''town''"
    by (simp add: sample_with_map_simps(1)) (simp add: sample_hero_def)
  have directions: "sample_directions = MapServerConnectionInstructions_new ?E (mi_friendlyName ?mi) (mi_hostName ?mi) (mi_port ?mi)"
      "pk_buffer sample_directions \<noteq> []" "length (toJSON ?E (instructions_events ?mi)) < 65536"
    by (simp_all add: sample_directions_def sample_registered_def MapServerConnection_new_def
        MapServerConnectionInstructions_new_def pkSized_def pkString_def pkShort_def ServerPacket_new_def Packet_new_def
        sample_s16_def instructions_events_def json_text_eval dec_string.simps)
  have sent: "fst (reply ?E sample_directions (snd (so_getLong ?E s3))) \<noteq> 0"
    using directions(2) by (simp add: s3_def sample_sock_def sample_reply)
  have "(\<exists>session' w'. serveSession ?E sample_with_map sample_chooser sample_hero_world = Inr (session', w')
        \<and> ps_characterID session' = ch_id sample_hero
        \<and> ps_socket session' = snd (reply ?E sample_directions (snd (so_getLong ?E s3))))
      \<and> (\<exists>cl'. render ?E ?A (\<lambda>_. False) ?cl = Inr cl' \<and> cl_gameState cl' = PLAYING)"
    by (rule chosen_character_plays [OF sample_fifo_put sample_fifo_get longs request found map sample_with_map_simps(2,3) refl
          directions(1) sent sample_docs(4) directions(3), where r = "[]"
          and n = "int (length (pk_buffer sample_directions))"
          and t = "(sample_sock [] [])\<lparr>sk_buf := pk_buffer sample_directions\<rparr>"])
      (use directions(2) in \<open>simp_all add: sample_sock_def sample_recv_def\<close>)
  then show ?thesis by (auto simp: sample_hero_def)
qed

end
