(* ===== verification/MapServer.thy ===== *)
theory MapServer imports TileMap ServerCommon begin

text \<open>
  The map server (server-include/MapServer.hpp, server/MapServer.cpp): it parses its maps, offers
  them to the login server and acknowledges the ones it is asked for. A step of the registration
  gives its verdict and the socket to the login server afterwards.
\<close>

section \<open>The server\<close>

record ('s, 'k) map_server =
  ms_details :: server_details
  ms_maps :: "game_map list"
  ms_masterServerHostname :: string
  ms_masterServerPort :: u16
  ms_masterServerCrypto :: "'k rsa_crypto option"
  ms_masterServerConnection :: 's

text \<open>\<open>getSocket\<close> builds a socket of APG for a host and a port.\<close>

definition MapServer_new ::
  "('b, 's, 'k, 'w, 'm) platform_scheme \<Rightarrow> (string \<Rightarrow> u16 \<Rightarrow> 's) \<Rightarrow> server_details
     \<Rightarrow> string \<Rightarrow> u16 \<Rightarrow> string \<Rightarrow> string \<Rightarrow> 'w \<Rightarrow> ('s, 'k) map_server res" where
  "MapServer_new E getSocket details masterServer masterPort masterPublicKeyFile masterPrivateKeyFile w =
     andThen (fromFiles E masterPublicKeyFile masterPrivateKeyFile w) (\<lambda>crypto.
     Inr \<lparr>ms_details = details, ms_maps = [], ms_masterServerHostname = masterServer,
          ms_masterServerPort = masterPort, ms_masterServerCrypto = crypto,
          ms_masterServerConnection = getSocket masterServer masterPort\<rparr>)"

section \<open>parseMaps\<close>

text \<open>The paths whose file parses, in order.\<close>

fun parsePaths ::
  "('b, 's, 'k, 'w, 'm) platform_scheme \<Rightarrow> string list \<Rightarrow> 'w \<Rightarrow> tmx_map list" where
  "parsePaths E [] w = []"
| "parsePaths E (mapPath # paths) w =
     (case tmx_parse E mapPath w of
        None \<Rightarrow> parsePaths E paths w
      | Some m \<Rightarrow> m # parsePaths E paths w)"

text \<open>No map at all is a failure only when there was a path; \<open>uninit\<close> is the spawn point a map is created with.\<close>

definition parseMaps ::
  "('b, 's, 'k, 'w, 'm) platform_scheme \<Rightarrow> int \<times> int \<Rightarrow> ('s, 'k) map_server \<Rightarrow> 'w
     \<Rightarrow> (bool \<times> ('s, 'k) map_server) res" where
  "parseMaps E uninit ms w =
     andThen (deref AssertFailed (sd_maps (ms_details ms))) (\<lambda>mapPaths.
     let tmxparserMaps = parsePaths E mapPaths w in
     if length tmxparserMaps < length mapPaths \<and> length tmxparserMaps = 0 then Inr (False, ms)
     else Inr (True, ms\<lparr>ms_maps := ms_maps ms @ map (Map_new uninit) tmxparserMaps\<rparr>))"

section \<open>registerWithMasterServer\<close>

text \<open>The end: the answer to the list of maps, and the acknowledgement.\<close>

definition awaitMapList ::
  "('b, 's, 'm) socket_api_scheme \<Rightarrow> 's \<Rightarrow> (bool \<times> 's) res" where
  "awaitMapList E s =
     (let (active, s1) = so_waitForActivity E (Some 3000) s in
      if \<not> active then Inr (False, s1)
      else let (bytes, s2) = so_recv E None s1 in
      if bytes = 0 then Inr (False, s2)
      else let (opcode, s3) = so_getShort E s2 in
      if opcode = server_opcode MAP_SERVER_NOT_NEEDED then Inr (False, s3)
      else if opcode \<noteq> server_opcode MAP_SERVER_MAP_LIST then Inr (False, s3)
      else let (jsonLength, s4) = so_getShort E s3; (json, s5) = so_getStringByLength E jsonLength s4 in
      andThen (fromJSON E map_list_decode json) (\<lambda>_.
      let (_, s6) = so_send E (so_putShort E (server_opcode MAP_SERVER_ACK) (so_clear E s5)) in
      Inr (True, s6)))"

text \<open>The middle: the request, its answer, whose text is not read, and the list of maps.\<close>

definition requestRegistration ::
  "('b, 's, 'k, 'w, 'm) platform_scheme \<Rightarrow> server_details \<Rightarrow> game_map list \<Rightarrow> 's \<Rightarrow> (bool \<times> 's) res" where
  "requestRegistration E details maps s =
     (let (_, s1) = reply E (MapServerRegistrationRequest_new E (sd_friendlyName details)
                       (sd_hostName details) (sd_port details)) s;
          (active, s2) = so_waitForActivity E (Some 3000) s1 in
      if \<not> active then Inr (False, s2)
      else let (bytes, s3) = so_recv E None s2 in
      if bytes \<le> 0 then Inr (False, s3)
      else let (opcode, s4) = so_getShort E s3 in
      if opcode \<noteq> server_opcode MAP_SERVER_REGISTRATION_RESPONSE then Inr (False, s4)
      else
      andThen (listFromMaps E maps) (\<lambda>mapHashes.
      let (_, s5) = reply E (MapServerMapList_new E mapHashes) s4 in
      awaitMapList E s5))"

text \<open>Whether the wait for the challenge timed out is not looked at; only an empty answer is an error.\<close>

definition registerWithMasterServer ::
  "('b, 's, 'k, 'w, 'm) platform_scheme \<Rightarrow> ('s, 'k) map_server \<Rightarrow> (bool \<times> 's) res" where
  "registerWithMasterServer E ms =
     (let s1 = so_connect E (ms_masterServerConnection ms) in
      if so_hasError E s1 then Inr (False, s1)
      else let (_, s2) = so_waitForActivity E (Some 5000) s1; (bytes, s3) = so_recv E None s2 in
      if bytes = 0 then Inr (False, s3)
      else let (opcode, s4) = so_getShort E s3 in
      if opcode \<noteq> server_opcode LOGIN_AUTHENTICATION_CHALLENGE then Inr (False, s4)
      else let (jsonSize, s5) = so_getShort E s4; (json, s6) = so_getStringByLength E jsonSize s5 in
      andThen (fromJSON E challenge_decode json) (\<lambda>challenge.
      andThen (deref NullDeref (ms_masterServerCrypto ms)) (\<lambda>crypto.
      if ac_pubKey challenge \<noteq> rc_publicKey crypto then Inr (False, s6)
      else if \<not> versionMatches E challenge then
        let (_, s7) = reply E (VersionMismatch_new E) s6 in Inr (False, s7)
      else requestRegistration E (ms_details ms) (ms_maps ms) s6)))"

section \<open>run\<close>

text \<open>
  How a run starts: without maps, not registered, without its acceptor, or listening; then it
  accepts connections, which it drops, until the acceptor fails. \<open>acceptorFails\<close> is APG's answer
  for a port.
\<close>

datatype start = NO_MAPS | NOT_REGISTERED | NO_ACCEPTOR | LISTENING

definition MapServer_run ::
  "('b, 's, 'k, 'w, 'm) platform_scheme \<Rightarrow> (u16 \<Rightarrow> bool) \<Rightarrow> int \<times> int \<Rightarrow> ('s, 'k) map_server \<Rightarrow> 'w
     \<Rightarrow> (start \<times> ('s, 'k) map_server) res" where
  "MapServer_run E acceptorFails uninit ms w =
     andThen (parseMaps E uninit ms w) (\<lambda>(parsed, ms1).
     if \<not> parsed then Inr (NO_MAPS, ms1)
     else andThen (registerWithMasterServer E ms1) (\<lambda>(registered, s).
     let ms2 = ms1\<lparr>ms_masterServerConnection := s\<rparr> in
     if \<not> registered then Inr (NOT_REGISTERED, ms2)
     else if acceptorFails (sd_port (ms_details ms2)) then Inr (NO_ACCEPTOR, ms2)
     else Inr (LISTENING, ms2)))"

section \<open>Facts\<close>

lemma parsePaths_eq: "parsePaths E paths w = List.map_filter (\<lambda>p. tmx_parse E p w) paths"
  by (induction paths) (simp_all add: List.map_filter_simps split: option.split)

lemma set_parsePaths: "m \<in> set (parsePaths E paths w) \<longleftrightarrow> (\<exists>p \<in> set paths. tmx_parse E p w = Some m)"
  by (induction paths) (auto split: option.split)

lemma parsePaths_none: "parsePaths E paths w = [] \<longleftrightarrow> (\<forall>p \<in> set paths. tmx_parse E p w = None)"
  by (induction paths) (auto split: option.splits)

lemma length_parsePaths: "length (parsePaths E paths w) \<le> length paths"
  by (induction paths) (auto split: option.split)

end
