(* ===== verification/ServerMain.thy ===== *)
theory ServerMain imports LoginServer MapServer begin

text \<open>
  The program of the servers (server/servermain.cpp): its options, the maps it finds, and the
  server it builds from them.
\<close>

section \<open>Options\<close>

definition DEFAULT_LOGIN_PORT :: u16 where "DEFAULT_LOGIN_PORT = 10419"

text \<open>
  What boost's \<open>variables_map\<close> holds: each option's value where it was given or has a default. When
  the command line cannot be parsed the exception is logged and the program goes on with whatever
  was stored; so an option with a default can still be absent.
\<close>

record variables_map =
  vm_help :: bool
  vm_version :: bool
  vm_login_server :: "u16 option"
  vm_world_server :: "u16 option"
  vm_name :: "string option"
  vm_regenerate_keys :: bool
  vm_map_dir :: "string option"
  vm_database_server :: "string option"
  vm_database_port :: "u16 option"
  vm_database_username :: "string option"
  vm_database_password :: "string option"
  vm_master_address :: "string option"
  vm_master_port :: "u16 option"
  vm_master_public :: "string option"
  vm_master_private :: "string option"

text \<open>The defaults, for a given random name; the options without a default are not given.\<close>

definition default_options :: "string \<Rightarrow> variables_map" where
  "default_options name =
     \<lparr>vm_help = False, vm_version = False, vm_login_server = None, vm_world_server = None,
      vm_name = Some name, vm_regenerate_keys = False, vm_map_dir = Some ''./maps/'',
      vm_database_server = Some ''localhost'', vm_database_port = Some 3306,
      vm_database_username = Some ''root'', vm_database_password = None,
      vm_master_address = None, vm_master_port = Some DEFAULT_LOGIN_PORT,
      vm_master_public = Some ''login.pub'', vm_master_private = Some ''login.prv''\<rparr>"

text \<open>\<open>vm["..."].as<T>()\<close> throws on an empty value.\<close>

abbreviation as_value :: "'a option \<Rightarrow> 'a res" where
  "as_value \<equiv> deref BadOptionCast"

section \<open>loadMaps\<close>

text \<open>The entries with a map's extension, in the order of the directory; none when there is no directory.\<close>

definition loadMaps ::
  "('b, 's, 'k, 'w, 'm) platform_scheme \<Rightarrow> variables_map \<Rightarrow> 'w \<Rightarrow> string list res" where
  "loadMaps E vm w =
     andThen (as_value (vm_map_dir vm)) (\<lambda>mapDir.
     if \<not> fs_exists E mapDir w then Inr []
     else if \<not> fs_is_directory E mapDir w then Inr []
     else Inr (map fst (filter (\<lambda>(path, extension). \<not> (extension \<noteq> ''.tmx'' \<and> extension \<noteq> ''.ppg''))
                 (fs_list E mapDir w))))"

section \<open>Starting a server\<close>

text \<open>\<open>validatePort\<close> is APG's. A null pointer is \<^const>\<open>None\<close>.\<close>

definition startLoginServer ::
  "('b, 's, 'k, 'w, 'm) platform_scheme \<Rightarrow> (u16 \<Rightarrow> bool) \<Rightarrow> variables_map \<Rightarrow> bool \<Rightarrow> 'w
     \<Rightarrow> (('s, 'k, 'w) login_server \<times> database_details) option res" where
  "startLoginServer E validatePort vm defaulted w =
     andThen (if defaulted then Inr DEFAULT_LOGIN_PORT else as_value (vm_login_server vm)) (\<lambda>serverPort.
     andThen (as_value (vm_database_port vm)) (\<lambda>dbPort.
     if \<not> validatePort serverPort then Inr None
     else if \<not> validatePort dbPort then Inr None
     else if vm_database_password vm = None then Inr None
     else
     andThen (loadMaps E vm w) (\<lambda>mapNames.
     if mapNames = [] then Inr None
     else
     andThen (as_value (vm_name vm)) (\<lambda>serverName.
     andThen (as_value (vm_database_server vm)) (\<lambda>dbServer.
     andThen (as_value (vm_database_username vm)) (\<lambda>dbUsername.
     andThen (as_value (vm_database_password vm)) (\<lambda>dbPassword.
     let serverDetails = ServerDetails_new serverName ''localhost'' serverPort LOGIN_SERVER (Some mapNames) None None;
         dbDetails = DatabaseDetails_new dbServer dbPort dbUsername dbPassword MYSQL in
     andThen (LoginServer_new E serverDetails (vm_regenerate_keys vm) w) (\<lambda>ls.
     Inr (Some (ls, dbDetails))))))))))"

definition startWorldServer ::
  "('b, 's, 'k, 'w, 'm) platform_scheme \<Rightarrow> (string \<Rightarrow> u16 \<Rightarrow> 's) \<Rightarrow> (u16 \<Rightarrow> bool) \<Rightarrow> variables_map \<Rightarrow> 'w
     \<Rightarrow> (('s, 'k) map_server \<times> database_details) option res" where
  "startWorldServer E getSocket validatePort vm w =
     andThen (as_value (vm_world_server vm)) (\<lambda>serverPort.
     andThen (as_value (vm_database_port vm)) (\<lambda>dbPort.
     if \<not> validatePort serverPort then Inr None
     else if \<not> validatePort dbPort then Inr None
     else if vm_database_password vm = None then Inr None
     else
     andThen (loadMaps E vm w) (\<lambda>mapNames.
     if mapNames = [] then Inr None
     else if vm_master_address vm = None then Inr None
     else
     andThen (as_value (vm_master_address vm)) (\<lambda>masterHostname.
     andThen (as_value (vm_master_port vm)) (\<lambda>masterPort.
     andThen (as_value (vm_master_public vm)) (\<lambda>publicKeyFile.
     andThen (as_value (vm_master_private vm)) (\<lambda>privateKeyFile.
     andThen (as_value (vm_name vm)) (\<lambda>serverName.
     andThen (as_value (vm_database_server vm)) (\<lambda>dbServer.
     andThen (as_value (vm_database_username vm)) (\<lambda>dbUsername.
     andThen (as_value (vm_database_password vm)) (\<lambda>dbPassword.
     let serverDetails = ServerDetails_new serverName ''localhost'' serverPort WORLD_SERVER (Some mapNames) None None;
         dbDetails = DatabaseDetails_new dbServer dbPort dbUsername dbPassword MYSQL in
     andThen (MapServer_new E getSocket serverDetails masterHostname masterPort publicKeyFile privateKeyFile w) (\<lambda>ms.
     Inr (Some (ms, dbDetails))))))))))))))"

section \<open>initializeProgramOptions\<close>

datatype ('s, 'k, 'w) server =
    NoServer
  | LoginServerOf "('s, 'k, 'w) login_server" database_details
  | MapServerOf "('s, 'k) map_server" database_details

text \<open>Both kinds together are refused; neither means a login server on the default port.\<close>

definition initializeProgramOptions ::
  "('b, 's, 'k, 'w, 'm) platform_scheme \<Rightarrow> (string \<Rightarrow> u16 \<Rightarrow> 's) \<Rightarrow> (u16 \<Rightarrow> bool) \<Rightarrow> variables_map \<Rightarrow> 'w
     \<Rightarrow> ('s, 'k, 'w) server res" where
  "initializeProgramOptions E getSocket validatePort vm w =
     (if vm_help vm then Inr NoServer
      else if vm_version vm then Inr NoServer
      else if vm_login_server vm \<noteq> None \<and> vm_world_server vm \<noteq> None then Inr NoServer
      else if vm_world_server vm \<noteq> None then
        andThen (startWorldServer E getSocket validatePort vm w) (\<lambda>ret.
        Inr (case ret of None \<Rightarrow> NoServer | Some (ms, db) \<Rightarrow> MapServerOf ms db))
      else let passedExplicitly = (vm_login_server vm = None) in
        andThen (startLoginServer E validatePort vm passedExplicitly w) (\<lambda>ret.
        Inr (case ret of None \<Rightarrow> NoServer | Some (ls, db) \<Rightarrow> LoginServerOf ls db)))"

section \<open>What starting gives\<close>

lemma as_value_Inl: "as_value x = Inl e \<longleftrightarrow> x = None \<and> e = BadOptionCast"
  by (auto simp: deref_def split: option.split)

lemma loadMaps_Inl: "loadMaps E vm w = Inl e \<Longrightarrow> e = BadOptionCast"
  by (auto simp: loadMaps_def andThen_eq_Inl as_value_Inl split: if_splits)

lemma startLoginServer_Inl:
  "startLoginServer E validatePort vm defaulted w = Inl e \<Longrightarrow>
   e = BadOptionCast \<or> (if vm_regenerate_keys vm then RSACrypto_generate E w = Inl e
      else fromFiles E ''login.pub'' ''login.prv'' w = Inl e)"
  by (auto simp: startLoginServer_def LoginServer_new_def ServerDetails_new_def andThen_eq_Inl as_value_Inl Let_def
      dest: loadMaps_Inl split: if_splits)

lemma startWorldServer_Inl:
  "startWorldServer E getSocket validatePort vm w = Inl e \<Longrightarrow> e = BadOptionCast
   \<or> (\<exists>pub prv. vm_master_public vm = Some pub \<and> vm_master_private vm = Some prv \<and> fromFiles E pub prv w = Inl e)"
  by (auto simp: startWorldServer_def MapServer_new_def andThen_eq_Inl as_value_Inl deref_eq_Inr Let_def
      dest: loadMaps_Inl split: if_splits)

lemma incomingChallenge_Inl: "incomingChallenge E ls = Inl NullDeref \<longleftrightarrow> ls_crypto ls = None"
  by (cases "ls_crypto ls") (simp_all add: incomingChallenge_def)

lemma startLoginServer_Inr:
  assumes "startLoginServer E validatePort vm (vm_login_server vm = None) w = Inr (Some (ls, db))"
  shows "sd_port (ls_details ls) = (case vm_login_server vm of None \<Rightarrow> DEFAULT_LOGIN_PORT | Some p \<Rightarrow> p)
    \<and> validatePort (sd_port (ls_details ls)) \<and> sd_hostName (ls_details ls) = ''localhost''
    \<and> (\<exists>maps. sd_maps (ls_details ls) = Some maps \<and> loadMaps E vm w = Inr maps \<and> maps \<noteq> [])
    \<and> (ls_crypto ls = None \<longleftrightarrow> \<not> vm_regenerate_keys vm \<and> fromFiles E ''login.pub'' ''login.prv'' w = Inr None)
    \<and> (ls_crypto ls = None \<longleftrightarrow> incomingChallenge E ls = Inl NullDeref)"
  using assms unfolding incomingChallenge_Inl
  by (cases "vm_login_server vm")
    (auto simp: startLoginServer_def LoginServer_new_def ServerDetails_new_def andThen_eq_Inr deref_eq_Inr Let_def
      split: if_splits)

lemma startWorldServer_Inr:
  assumes "startWorldServer E getSocket validatePort vm w = Inr (Some (ms, db))"
  shows "vm_world_server vm = Some (sd_port (ms_details ms))
    \<and> vm_master_address vm = Some (ms_masterServerHostname ms)
    \<and> validatePort (sd_port (ms_details ms)) \<and> sd_hostName (ms_details ms) = ''localhost''
    \<and> (\<exists>maps. sd_maps (ms_details ms) = Some maps \<and> loadMaps E vm w = Inr maps \<and> maps \<noteq> [])"
  using assms
  by (auto simp: startWorldServer_def MapServer_new_def ServerDetails_new_def andThen_eq_Inr deref_eq_Inr Let_def
      split: if_splits)

end
