(* ===== verification/HandshakeProperties.thy ===== *)
theory HandshakeProperties imports ServerMain SampleRun begin

text \<open>
  Between the programs: what a map server demands of the login server it registers with, what the
  login server makes of its offer, and which server the command line starts.
\<close>

section \<open>The map server's side\<close>

text \<open>A registration that succeeds has seen the right key and version, and the list of maps.\<close>

lemma registered_with_verified_server:
  assumes "registerWithMasterServer E ms = Inr (True, s')"
  obtains challenge crypto maps s0 t s where "ms_masterServerCrypto ms = Some crypto"
    "receives E LOGIN_AUTHENTICATION_CHALLENGE challenge_decode
            (snd (so_waitForActivity E (Some 5000) (so_connect E (ms_masterServerConnection ms)))) challenge s0"
    "ac_pubKey challenge = rc_publicKey crypto" "versionMatches E challenge"
    "receives E MAP_SERVER_MAP_LIST map_list_decode t maps s"
    "s' = snd (so_send E (so_putShort E (server_opcode MAP_SERVER_ACK) (so_clear E s)))"
proof -
  have await: "awaitMapList E s = Inr (True, s') \<Longrightarrow> \<exists>t maps s.
      receives E MAP_SERVER_MAP_LIST map_list_decode t maps s
      \<and> s' = snd (so_send E (so_putShort E (server_opcode MAP_SERVER_ACK) (so_clear E s)))" for s s'
    by (auto simp: awaitMapList_def Let_def case_prod_beta andThen_eq_Inr receives_iff split: if_splits)
  have request: "requestRegistration E d maps s = Inr (True, s') \<Longrightarrow> \<exists>s. awaitMapList E s = Inr (True, s')" for d maps s s'
    by (auto simp: requestRegistration_def Let_def case_prod_beta andThen_eq_Inr split: if_splits)
  obtain challenge crypto s0 s where "ms_masterServerCrypto ms = Some crypto"
      "receives E LOGIN_AUTHENTICATION_CHALLENGE challenge_decode
         (snd (so_waitForActivity E (Some 5000) (so_connect E (ms_masterServerConnection ms)))) challenge s0"
      "ac_pubKey challenge = rc_publicKey crypto" "versionMatches E challenge"
      "requestRegistration E (ms_details ms) (ms_maps ms) s = Inr (True, s')"
    using assms
    by (auto simp: registerWithMasterServer_def Let_def case_prod_beta andThen_eq_Inr deref_eq_Inr receives_iff split: if_splits)
  then show thesis using request await that by meson
qed

text \<open>How a registration can fail: only on texts, after the challenge.\<close>

lemma decoding_Inl:
  "fromJSON E map_list_decode j = Inl e \<Longrightarrow> text_fault e" "fromJSON E challenge_decode j = Inl e \<Longrightarrow> text_fault e"
  by (simp_all add: fromJSON_def map_list_decode_text challenge_decode_text)

lemma awaitMapList_Inl: "awaitMapList E s = Inl e \<Longrightarrow> text_fault e"
  by (auto simp: awaitMapList_def Let_def case_prod_beta andThen_eq_Inl dest: decoding_Inl split: if_splits)

lemma requestRegistration_Inl: "requestRegistration E d maps s = Inl e \<Longrightarrow> text_fault e"
  by (auto simp: requestRegistration_def listFromMaps_eq Let_def case_prod_beta dest: awaitMapList_Inl split: if_splits)

lemma no_null_in_texts:
  "fromJSON E challenge_decode j \<noteq> Inl NullDeref" "requestRegistration E d maps s \<noteq> Inl NullDeref"
  using decoding_Inl(2) [of E j NullDeref] requestRegistration_Inl [of E d maps s NullDeref] by (auto simp: text_fault_def)

text \<open>C14: A map server registers only with a login server whose challenge carries the public key of the files it was
  started with and exactly its own version and build, and that answered the offer with a list of maps; the last
  thing it sends is its acknowledgement. It stops on a null pointer exactly when its connection came up, a
  challenge arrives on it and its key files could not be read, and with any other fault only on text that is not
  the JSON expected.\<close>

theorem registration_gate:
  "(\<forall>s'. registerWithMasterServer E ms = Inr (True, s') \<longrightarrow>
      (\<exists>challenge crypto maps s0 t s. ms_masterServerCrypto ms = Some crypto
        \<and> receives E LOGIN_AUTHENTICATION_CHALLENGE challenge_decode
            (snd (so_waitForActivity E (Some 5000) (so_connect E (ms_masterServerConnection ms)))) challenge s0
        \<and> ac_pubKey challenge = rc_publicKey crypto \<and> versionMatches E challenge
        \<and> receives E MAP_SERVER_MAP_LIST map_list_decode t maps s
        \<and> s' = snd (so_send E (so_putShort E (server_opcode MAP_SERVER_ACK) (so_clear E s)))))
   \<and> (registerWithMasterServer E ms = Inl NullDeref \<longleftrightarrow>
      \<not> so_hasError E (so_connect E (ms_masterServerConnection ms))
      \<and> fst (so_recv E None (snd (so_waitForActivity E (Some 5000) (so_connect E (ms_masterServerConnection ms))))) \<noteq> 0
      \<and> (\<exists>challenge t. receives E LOGIN_AUTHENTICATION_CHALLENGE challenge_decode
            (snd (so_waitForActivity E (Some 5000) (so_connect E (ms_masterServerConnection ms)))) challenge t)
      \<and> ms_masterServerCrypto ms = None)
   \<and> (\<forall>e. registerWithMasterServer E ms = Inl e \<longrightarrow> e \<in> {NullDeref, JsonPrecondition, AssertFailed})"
proof (intro conjI allI impI)
  fix s' assume "registerWithMasterServer E ms = Inr (True, s')"
  then show "\<exists>challenge crypto maps s0 t s. ms_masterServerCrypto ms = Some crypto
      \<and> receives E LOGIN_AUTHENTICATION_CHALLENGE challenge_decode
          (snd (so_waitForActivity E (Some 5000) (so_connect E (ms_masterServerConnection ms)))) challenge s0
      \<and> ac_pubKey challenge = rc_publicKey crypto \<and> versionMatches E challenge
      \<and> receives E MAP_SERVER_MAP_LIST map_list_decode t maps s
      \<and> s' = snd (so_send E (so_putShort E (server_opcode MAP_SERVER_ACK) (so_clear E s)))"
    by (rule registered_with_verified_server) blast
next
  show "registerWithMasterServer E ms = Inl NullDeref \<longleftrightarrow>
      \<not> so_hasError E (so_connect E (ms_masterServerConnection ms))
      \<and> fst (so_recv E None (snd (so_waitForActivity E (Some 5000) (so_connect E (ms_masterServerConnection ms))))) \<noteq> 0
      \<and> (\<exists>challenge t. receives E LOGIN_AUTHENTICATION_CHALLENGE challenge_decode
            (snd (so_waitForActivity E (Some 5000) (so_connect E (ms_masterServerConnection ms)))) challenge t)
      \<and> ms_masterServerCrypto ms = None"
    by (cases "ms_masterServerCrypto ms")
      (auto simp: registerWithMasterServer_def Let_def case_prod_beta andThen_eq_Inl receives_iff no_null_in_texts
        split: if_splits)
next
  fix e assume "registerWithMasterServer E ms = Inl e"
  then have "e = NullDeref \<or> text_fault e"
    by (cases "ms_masterServerCrypto ms")
      (auto simp: registerWithMasterServer_def Let_def case_prod_beta andThen_eq_Inl
        dest: decoding_Inl requestRegistration_Inl split: if_splits)
  then show "e \<in> {NullDeref, JsonPrecondition, AssertFailed}" by (auto simp: text_fault_def)
qed

definition sample_answers :: "string list" where
  "sample_answers =
     [pk_buffer (AuthenticationChallenge_new sample_platform
        \<lparr>ac_version = ''0.0.1'', ac_versionHash = ''abc'', ac_name = ''ppg'', ac_pubKey = ''PUBLIC''\<rparr>),
      pk_buffer (MapServerRegistrationResponse_new sample_platform ''hello, world''), sample_m2]"

definition sample_map_server :: "(sample_socket, unit) map_server" where
  "sample_map_server =
     \<lparr>ms_details = ServerDetails_new ''map'' ''localhost'' 10420 WORLD_SERVER (Some [''a.tmx'']) None None,
      ms_maps = [Map_new (0, 0) sample_tmx], ms_masterServerHostname = ''localhost'', ms_masterServerPort = 10419,
      ms_masterServerCrypto = Some sample_keys, ms_masterServerConnection = sample_sock sample_answers []\<rparr>"

lemma sample_challenge:
  fixes ch :: auth_challenge
  assumes "ch = \<lparr>ac_version = ''0.0.1'', ac_versionHash = ''abc'', ac_name = ''ppg'', ac_pubKey = ''PUBLIC''\<rparr>"
  shows "fromJSON sample_platform challenge_decode (toJSON sample_platform (challenge_events ch)) = Inr ch"
    and "length (toJSON sample_platform (challenge_events ch)) < 65536"
proof -
  show "fromJSON sample_platform challenge_decode (toJSON sample_platform (challenge_events ch)) = Inr ch"
    using challenge.text_round_trip [OF sample_docs(1), of ch] assms by (simp add: challenge_view_def json_simps)
  show "length (toJSON sample_platform (challenge_events ch)) < 65536"
    by (simp add: assms challenge_events_def json_text_eval)
qed

lemma sample_registers:
  "\<exists>s'. registerWithMasterServer sample_platform sample_map_server = Inr (True, s')"
  using sample_challenge [OF refl] sample_offered_text
  by (simp add: registerWithMasterServer_def requestRegistration_def awaitMapList_def sample_map_server_def
      sample_sock_def sample_answers_def sample_recv_def AuthenticationChallenge_new_def pkSized_def pkString_def
      pkShort_def ServerPacket_new_def Packet_new_def sample_getString_def versionMatches_def sample_keys_def
      sample_reply MapServerRegistrationResponse_new_def listFromMaps_eq sample_m2_def MapServerMapList_new_def
      sample_offered_list Let_def sample_send_def)

lemma registration_gate_witness:
  "\<exists>s' challenge. registerWithMasterServer sample_platform sample_map_server = Inr (True, s')
     \<and> ac_pubKey challenge = ''PUBLIC'' \<and> versionMatches sample_platform challenge"
  using sample_registers registration_gate [of sample_platform sample_map_server]
  by (auto simp: sample_map_server_def sample_keys_def)

section \<open>The login server's side\<close>

text \<open>The turn on which the offer arrives.\<close>

lemma offer_turn:
  assumes "fifo_put E content s16" "fifo_get E unread s16"
    and "listFromMaps E maps = Inr hashes" "reads_back E (map_list_doc hashes)"
      "length (toJSON E (map_list_events hashes)) < 65536" "\<forall>p \<in> set maps. nul_free (gm_name p)"
    and "ic_socket c = Some s" "so_hasActivity E s = (True, s0)" "so_recv E None s0 = (n, s1)" "n \<noteq> 0"
      "unread s1 = content (pk_buffer (MapServerMapList_new E hashes)) @ r"
    and "distinct (map lo_locationName (ls_allMaps ls))"
    and "wanted = {m \<in> set (ls_allMaps ls). ls_mapNameToConnection ls (lo_locationName m) = None
           \<and> (\<exists>p \<in> set maps. gm_name p = lo_locationName m
                \<and> makeMD5Hash E (tm_filehash (gm_map p)) = Inr (lo_knownMD5Hash m))}"
  shows "\<exists>ms t. set ms = wanted \<and> processMapListSocket E c ls = Inr
      (if wanted = {}
       then c\<lparr>ic_socket := Some (snd (so_send E (so_putShort E (server_opcode MAP_SERVER_NOT_NEEDED) (so_clear E t)))),
              ic_state := DONE\<rparr>
       else c\<lparr>ic_socket := Some (snd (reply E (MapServerMapList_new E ms) t)), ic_maps := Some ms,
              ic_state := MAP_WAIT_ACK\<rparr>, ls)"
proof -
  have frame: "fst (read_frame E s1) = server_opcode MAP_SERVER_MAP_LIST"
      "fromJSON E map_list_decode (fst (snd (read_frame E s1))) = Inr (map_list_view hashes)"
    using map_list.frame_round_trip [OF assms(1,2,4,5)] assms(11)
    by (simp_all add: MapServerMapList_new_def ServerPacket_new_def)
  define ms where "ms = requiredMaps (ls_allMaps ls) (ls_mapNameToConnection ls) (map_list_view hashes)"
  have hashes: "hashes = map (\<lambda>p. Location_new (gm_name p) (tm_filename (gm_map p))
      (byteVectorToString (md5_bytes (ssl_MD5 E (tm_filehash (gm_map p))))) (gm_version p)) maps"
    using assms(3) by (simp add: listFromMaps_eq)
  have offered: "(\<exists>q \<in> set (map_list_view hashes). lo_locationName q = lo_locationName m \<and> lo_knownMD5Hash q = lo_knownMD5Hash m)
      \<longleftrightarrow> (\<exists>p \<in> set maps. gm_name p = lo_locationName m
             \<and> makeMD5Hash E (tm_filehash (gm_map p)) = Inr (lo_knownMD5Hash m))" for m
    using assms(6) by (auto simp: hashes map_list_view_def Location_new_def bau.nul_free_render makeMD5Hash_eq)
  have ms: "set ms = wanted"
    unfolding ms_def assms(13) requiredMaps_set [OF assms(12)] offered by (rule refl)
  show ?thesis
    by (intro exI [of _ ms] exI [of _ "snd (snd (read_frame E s1))"] conjI ms)
      (use frame assms(7-10) ms in
        \<open>auto simp: processMapListSocket_def read_frame_def Let_def case_prod_beta ms_def [symmetric]\<close>)
qed

text \<open>C13: The login server understands an offer, where the names of its own maps are distinct, the offered names hold no
  NUL and the list fits the 16-bit length: of the list of maps it asks for exactly its own maps that no map
  server has yet and that were offered under the same name with a file of the same hash. With none of them the
  map server is told so and the connection is done; otherwise the list goes back and an acknowledgement is
  awaited. Nothing else of the server changes.\<close>

theorem offer_understood:
  assumes "fifo_put E content s16" "fifo_get E unread s16"
    and "listFromMaps E maps = Inr hashes" "reads_back E (map_list_doc hashes)"
      "length (toJSON E (map_list_events hashes)) < 65536" "\<forall>p \<in> set maps. nul_free (gm_name p)"
    and "ic_socket c = Some s" "so_hasActivity E s = (True, s0)" "so_recv E None s0 = (n, s1)" "n \<noteq> 0"
      "unread s1 = content (pk_buffer (MapServerMapList_new E hashes)) @ r"
    and "distinct (map lo_locationName (ls_allMaps ls))"
    and "wanted = {m \<in> set (ls_allMaps ls). ls_mapNameToConnection ls (lo_locationName m) = None
           \<and> (\<exists>p \<in> set maps. gm_name p = lo_locationName m
                \<and> makeMD5Hash E (tm_filehash (gm_map p)) = Inr (lo_knownMD5Hash m))}"
  shows "\<exists>c'. processMapListSocket E c ls = Inr (c', ls)
    \<and> (if wanted = {}
       then ic_state c' = DONE \<and> (\<exists>t. ic_socket c' =
              Some (snd (so_send E (so_putShort E (server_opcode MAP_SERVER_NOT_NEEDED) (so_clear E t)))))
       else ic_state c' = MAP_WAIT_ACK \<and> (\<exists>ms t. set ms = wanted \<and> ic_maps c' = Some ms
              \<and> ic_socket c' = Some (snd (reply E (MapServerMapList_new E ms) t))))"
  using offer_turn [OF assms] by (cases "wanted = {}") auto

text \<open>C25: Both sides know a map file by the same name and hash: where a login server has loaded a file and a map server
  has parsed the same file, its name holds no NUL, no two of the login server's maps share a name and the map has no server yet, the login server asks the map server
  for it, whatever version and hash the database has on record.\<close>

theorem same_file_recognised:
  assumes "processMap E path ls = Inr ls'" "tmx_parse E path (ls_world ls) = Some m"
    and "parseMaps E uninit ms w = Inr (True, ms')" "sd_maps (ms_details ms) = Some paths"
      "path' \<in> set paths" "tmx_parse E path' w = Some m"
    and "listFromMaps E (ms_maps ms') = Inr hashes" "nul_free (resolveNameFromMap m)"
    and "distinct (map lo_locationName (ls_allMaps ls'))" "ls_mapNameToConnection ls (resolveNameFromMap m) = None"
  shows "\<exists>l \<in> set (requiredMaps (ls_allMaps ls') (ls_mapNameToConnection ls') (map_list_view hashes)).
    lo_locationName l = resolveNameFromMap m \<and> makeMD5Hash E (tm_filehash m) = Inr (lo_knownMD5Hash l)"
proof -
  let ?hash = "byteVectorToString (md5_bytes (ssl_MD5 E (tm_filehash m)))"
  obtain l where "ls_allMaps ls' = ls_allMaps ls @ [l]" and name: "lo_locationName l = resolveNameFromMap m"
      and hash: "makeMD5Hash E (tm_filehash m) = Inr (lo_knownMD5Hash l)"
    using processMap_adds [OF assms(1,2)] by blast
  then have l: "l \<in> set (ls_allMaps ls')" "lo_locationName l = resolveNameFromMap m" "lo_knownMD5Hash l = ?hash"
    by (simp_all add: makeMD5Hash_eq)
  have "ls_mapNameToConnection ls' = ls_mapNameToConnection ls" using processMap_keeps [OF assms(1)] by auto
  moreover have "m \<in> set (parsePaths E paths w)" using assms(5,6) by (auto simp: set_parsePaths)
  then have "Map_new uninit m \<in> set (ms_maps ms')"
    using assms(3,4) by (auto simp: parseMaps_def Let_def split: if_splits)
  then have "Location_new (resolveNameFromMap m) (tm_filename m) ?hash (resolveVersionFromMap m) \<in> set hashes"
    using assms(7) by (force simp: listFromMaps_eq)
  then have "\<exists>q \<in> set (map_list_view hashes). lo_locationName q = lo_locationName l \<and> lo_knownMD5Hash q = lo_knownMD5Hash l"
    using assms(8) l(2,3) by (force simp: map_list_view_def Location_new_def bau.nul_free_render)
  ultimately have "l \<in> set (requiredMaps (ls_allMaps ls') (ls_mapNameToConnection ls') (map_list_view hashes))"
    using l(1,2) assms(10) by (simp add: requiredMaps_set [OF assms(9)])
  then show ?thesis using name hash by blast
qed

section \<open>Keys\<close>

text \<open>C15: The key files carry a login server's keys: where files that are written read back, and OpenSSL reads the PEM
  texts that it writes, a server that generates its keys leaves files from which a map server, and the login
  server itself when it is started again without generating, get the same keys; so the challenge it sends carries
  the very public key that the map server compares it with.\<close>

theorem key_files_carry_keys:
  assumes files: "\<And>t w. fs_read E pub (fs_write E pub t w) = Some t" "\<And>t w. fs_read E prv (fs_write E prv t w) = Some t"
      "\<And>t w. fs_read E pub (fs_write E prv t w) = fs_read E pub w"
    and pem: "\<And>k. ssl_PEM_read_public_into E (ssl_PEM_write_public E k)
      (ssl_PEM_read_private_into E (ssl_PEM_write_private E k) (ssl_RSA_new E)) = Some k"
    and names: "pub = (case sd_publicKeyFile details of Some f \<Rightarrow> f | None \<Rightarrow> ''login.pub'')"
      "prv = (case sd_privateKeyFile details of Some f \<Rightarrow> f | None \<Rightarrow> ''login.prv'')"
    and new: "LoginServer_new E details True w = Inr ls" "sd_maps details \<noteq> None"
  shows "\<exists>crypto. ls_crypto ls = Some crypto
    \<and> (\<exists>ms. MapServer_new E getSocket d host port pub prv (ls_world ls) = Inr ms \<and> ms_masterServerCrypto ms = Some crypto)
    \<and> (\<exists>ls'. LoginServer_new E details False (ls_world ls) = Inr ls' \<and> ls_crypto ls' = Some crypto)
    \<and> incomingChallenge E ls = Inr (AuthenticationChallenge_new E
         \<lparr>ac_version = Version_versionString E, ac_versionHash = Version_gitHash E,
          ac_name = sd_friendlyName details, ac_pubKey = rc_publicKey crypto\<rparr>)"
proof -
  obtain crypto w1 where gen: "RSACrypto_generate E w = Inr (crypto, w1)"
      and ls: "ls_crypto ls = Some crypto" "ls_details ls = details"
        "ls_world ls = writePrivateKeyFile E crypto prv (writePublicKeyFile E crypto pub w1)"
    using new by (auto simp: LoginServer_new_def andThen_eq_Inr Let_def names)
  have "fs_read E pub (ls_world ls) = Some (rc_publicKey crypto)" "fs_read E prv (ls_world ls) = Some (rc_privateKey crypto)"
    by (simp_all add: ls(3) writePrivateKeyFile_def writePublicKeyFile_def files)
  moreover have "RSACrypto_pair E (rc_publicKey crypto) (rc_privateKey crypto) = Inr crypto"
    using gen by (auto simp: RSACrypto_generate_def RSACrypto_pair_def Let_def andThen_eq_Inr deref_eq_Inr pem split: prod.splits)
  ultimately have "fromFiles E pub prv (ls_world ls) = Inr (Some crypto)" by (simp add: fromFiles_def)
  then show ?thesis
    using ls new(2) by (simp add: MapServer_new_def LoginServer_new_def incomingChallenge_def Let_def names)
qed

lemma key_files_carry_keys_witness:
  "\<exists>ls crypto. LoginServer_new sample_platform sample_details True sample_world_0 = Inr ls
     \<and> (\<exists>ms. MapServer_new sample_platform (\<lambda>_ _. sample_peer []) sample_details ''localhost'' 10419
          ''login.pub'' ''login.prv'' (ls_world ls) = Inr ms \<and> ms_masterServerCrypto ms = Some crypto)
     \<and> rc_publicKey crypto = ''PUBLIC''"
proof -
  let ?E = sample_platform
  obtain ls where new: "LoginServer_new ?E sample_details True sample_world_0 = Inr ls"
      and keys: "ls_crypto ls = Some sample_keys"
    by (simp add: LoginServer_new_def sample_details_def ServerDetails_new_def RSACrypto_generate_def sample_keys_def)
  have "sd_maps sample_details \<noteq> None" "sd_publicKeyFile sample_details = None" "sd_privateKeyFile sample_details = None"
    by (simp_all add: sample_details_def ServerDetails_new_def)
  then have "\<exists>crypto. ls_crypto ls = Some crypto
    \<and> (\<exists>ms. MapServer_new ?E (\<lambda>_ _. sample_peer []) sample_details ''localhost'' 10419
         ''login.pub'' ''login.prv'' (ls_world ls) = Inr ms \<and> ms_masterServerCrypto ms = Some crypto)
    \<and> (\<exists>ls'. LoginServer_new ?E sample_details False (ls_world ls) = Inr ls' \<and> ls_crypto ls' = Some crypto)
    \<and> incomingChallenge ?E ls = Inr (AuthenticationChallenge_new ?E
         \<lparr>ac_version = Version_versionString ?E, ac_versionHash = Version_gitHash ?E,
          ac_name = sd_friendlyName sample_details, ac_pubKey = rc_publicKey crypto\<rparr>)"
    by (intro key_files_carry_keys [OF _ _ _ _ _ _ new]) simp_all
  then show ?thesis using new keys by (auto simp: sample_keys_def)
qed

section \<open>The command line\<close>

text \<open>The command line gives a login server when no world server is asked for, on the given or the default port,
  and a world server only when no login server is asked for and a master's address is given; both know every map
  file of the map directory, at least one, and their host is always localhost. A login server without keys,
  because they were not regenerated and its files cannot be read, is built all the same, when a fatal message
  does not end the program, and then dereferences a null pointer. Building fails only for an option that has no value, where no keys can be generated, or where a key file
  makes OpenSSL free the key it was to fill.\<close>

theorem server_choice:
  "case initializeProgramOptions E getSocket validatePort vm w of
     Inl e \<Rightarrow> e = BadOptionCast \<or> vm_regenerate_keys vm \<and> RSACrypto_generate E w = Inl e
       \<or> (\<exists>pub prv. fromFiles E pub prv w = Inl e)
   | Inr NoServer \<Rightarrow> True
   | Inr (LoginServerOf ls db) \<Rightarrow> vm_world_server vm = None
       \<and> sd_port (ls_details ls) = (case vm_login_server vm of None \<Rightarrow> DEFAULT_LOGIN_PORT | Some p \<Rightarrow> p)
       \<and> validatePort (sd_port (ls_details ls)) \<and> sd_hostName (ls_details ls) = ''localhost''
       \<and> (\<exists>maps. sd_maps (ls_details ls) = Some maps \<and> loadMaps E vm w = Inr maps \<and> maps \<noteq> [])
       \<and> (ls_crypto ls = None \<longleftrightarrow> \<not> vm_regenerate_keys vm \<and> fromFiles E ''login.pub'' ''login.prv'' w = Inr None)
       \<and> (ls_crypto ls = None \<longleftrightarrow> incomingChallenge E ls = Inl NullDeref)
   | Inr (MapServerOf ms db) \<Rightarrow> vm_login_server vm = None
       \<and> vm_world_server vm = Some (sd_port (ms_details ms)) \<and> vm_master_address vm = Some (ms_masterServerHostname ms)
       \<and> validatePort (sd_port (ms_details ms)) \<and> sd_hostName (ms_details ms) = ''localhost''
       \<and> (\<exists>maps. sd_maps (ms_details ms) = Some maps \<and> loadMaps E vm w = Inr maps \<and> maps \<noteq> [])"
proof (cases "initializeProgramOptions E getSocket validatePort vm w")
  case (Inl e)
  then show ?thesis
    by (auto simp: initializeProgramOptions_def andThen_eq_Inl dest!: startLoginServer_Inl startWorldServer_Inl split: if_splits)
next
  case (Inr s)
  show ?thesis
  proof (cases s)
    case NoServer
    then show ?thesis using Inr by simp
  next
    case (LoginServerOf ls db)
    then have start: "startLoginServer E validatePort vm (vm_login_server vm = None) w = Inr (Some (ls, db))"
        "vm_world_server vm = None"
      using Inr by (auto simp: initializeProgramOptions_def andThen_eq_Inr split: if_splits option.splits)
    show ?thesis using startLoginServer_Inr [OF start(1)] start(2) unfolding Inr LoginServerOf sum.case server.case by blast
  next
    case (MapServerOf ms db)
    then have start: "startWorldServer E getSocket validatePort vm w = Inr (Some (ms, db))" "vm_login_server vm = None"
      using Inr by (auto simp: initializeProgramOptions_def andThen_eq_Inr split: if_splits option.splits)
    show ?thesis using startWorldServer_Inr [OF start(1)] start(2) unfolding Inr MapServerOf sum.case server.case by blast
  qed
qed

section \<open>Witnesses\<close>

definition sample_hashes :: "location list" where
  "sample_hashes = [Location_new ''town'' ''a.tmx'' sample_hash 1]"

lemma sample_listFromMaps: "listFromMaps sample_platform [Map_new u sample_tmx] = Inr sample_hashes"
  by (simp add: listFromMaps_eq sample_hashes_def sample_hash_def resolveNameFromMap_def resolveVersionFromMap_def)
    (simp add: sample_tmx_def)

lemma sample_hashes_events: "map_list_events sample_hashes = map_list_events [sample_location]"
  by (simp add: sample_hashes_def map_list_events_def sample_location_def)

lemma sample_name: "gm_name (Map_new u sample_tmx) = ''town''" "resolveNameFromMap sample_tmx = ''town''"
  by (simp_all add: resolveNameFromMap_def sample_tmx_def)

lemma offer_understood_witness:
  "\<exists>c'. processMapListSocket sample_platform
      (sample_conn (Some (sample_sock [pk_buffer (MapServerMapList_new sample_platform sample_hashes)] [])) MAP_LIST None)
      sample_server = Inr (c', sample_server)
    \<and> ic_state c' = MAP_WAIT_ACK \<and> (\<exists>ms. set ms = {sample_location} \<and> ic_maps c' = Some ms)"
proof -
  let ?E = sample_platform and ?maps = "[Map_new (0, 0) sample_tmx]"
  let ?offer = "pk_buffer (MapServerMapList_new ?E sample_hashes)"
  let ?s = "sample_sock [?offer] []"
  let ?c = "sample_conn (Some ?s) MAP_LIST None"
  have len: "length (toJSON ?E (map_list_events sample_hashes)) < 65536"
    using sample_offered_text by (simp add: sample_hashes_events)
  have "?offer \<noteq> []"
    by (simp add: MapServerMapList_new_def pkSized_def pkString_def pkShort_def ServerPacket_new_def Packet_new_def sample_s16_def)
  then have io: "so_hasActivity ?E ?s = (True, ?s)"
      "so_recv ?E None ?s = (int (length ?offer), ?s\<lparr>sk_peer := [], sk_buf := ?offer\<rparr>)" "int (length ?offer) \<noteq> 0"
    by (simp_all add: sample_sock_def sample_recv_def)
  have wanted: "{sample_location} = {m \<in> set (ls_allMaps sample_server). ls_mapNameToConnection sample_server (lo_locationName m) = None
      \<and> (\<exists>p \<in> set ?maps. gm_name p = lo_locationName m
           \<and> makeMD5Hash ?E (tm_filehash (gm_map p)) = Inr (lo_knownMD5Hash m))}"
    by (auto simp: sample_server_def sample_location_def sample_name makeMD5Hash_eq sample_hash_def)
      (simp_all add: sample_tmx_def)
  have server: "distinct (map lo_locationName (ls_allMaps sample_server))" by (simp add: sample_server_def)
  have free: "\<forall>p \<in> set ?maps. nul_free (gm_name p)" by (simp add: sample_name)
  show ?thesis
    using offer_understood [OF sample_fifo_put sample_fifo_get sample_listFromMaps sample_docs(5) len free _ io _ server wanted,
        of ?c "[]"]
    by (auto simp: sample_conn_def)
qed

lemma same_file_recognised_witness:
  "\<exists>ls' ms'. processMap sample_platform ''a.tmx''
        (sample_server\<lparr>ls_world := sample_world_0, ls_allMaps := [], ls_mapIDToName := (\<lambda>_. None), ls_mapServers := vec_empty\<rparr>)
      = Inr ls'
    \<and> parseMaps sample_platform (0, 0) (sample_map_server\<lparr>ms_maps := []\<rparr>) sample_world_0 = Inr (True, ms')
    \<and> (\<exists>l \<in> set (requiredMaps (ls_allMaps ls') (ls_mapNameToConnection ls') (map_list_view sample_hashes)).
        lo_locationName l = ''town'')"
proof -
  let ?E = sample_platform
  let ?ls = "sample_server\<lparr>ls_world := sample_world_0, ls_allMaps := [], ls_mapIDToName := (\<lambda>_. None), ls_mapServers := vec_empty\<rparr>"
  let ?ls' = "sample_server\<lparr>ls_world := sample_world_1\<lparr>sw_files := []\<rparr>, ls_mapServers := vec_empty\<rparr>"
  have "sample_world_0 = sample_world_0\<lparr>sw_files := []\<rparr>" by (simp add: sample_world_0_def sample_world_of_def)
  then have login: "processMap ?E ''a.tmx'' ?ls = Inr ?ls'" using sample_processMap [of "[]"] by simp
  have tmx: "tmx_parse ?E ''a.tmx'' sample_world_0 = Some sample_tmx"
    by (simp add: sample_world_0_def sample_world_of_def)
  have parsed: "parseMaps ?E (0, 0) (sample_map_server\<lparr>ms_maps := []\<rparr>) sample_world_0 = Inr (True, sample_map_server)"
    using tmx by (simp add: parseMaps_def sample_map_server_def ServerDetails_new_def Let_def)
  have paths: "sd_maps (ms_details (sample_map_server\<lparr>ms_maps := []\<rparr>)) = Some [''a.tmx'']"
    and maps: "ms_maps sample_map_server = [Map_new (0, 0) sample_tmx]"
    by (simp_all add: sample_map_server_def ServerDetails_new_def)
  have offered: "listFromMaps ?E (ms_maps sample_map_server) = Inr sample_hashes"
    unfolding maps by (rule sample_listFromMaps)
  have "\<exists>l \<in> set (requiredMaps (ls_allMaps ?ls') (ls_mapNameToConnection ?ls') (map_list_view sample_hashes)).
      lo_locationName l = resolveNameFromMap sample_tmx \<and> makeMD5Hash ?E (tm_filehash sample_tmx) = Inr (lo_knownMD5Hash l)"
    by (rule same_file_recognised [OF login _ parsed paths _ tmx offered])
      (simp_all add: sample_name, simp_all add: sample_server_def sample_world_0_def sample_world_of_def)
  then show ?thesis using login parsed by (auto simp: sample_name)
qed

lemma server_choice_witness:
  "\<exists>ls db. initializeProgramOptions sample_platform (\<lambda>h p. sample_sock [] []) (\<lambda>p. True)
       ((default_options ''ppg'')\<lparr>vm_database_password := Some ''pw''\<rparr>) sample_world_0 = Inr (LoginServerOf ls db)
     \<and> incomingChallenge sample_platform ls = Inl NullDeref"
proof -
  let ?vm = "(default_options ''ppg'')\<lparr>vm_database_password := Some ''pw''\<rparr>"
  have keys: "fromFiles sample_platform ''login.pub'' ''login.prv'' sample_world_0 = Inr None"
    by (simp add: fromFiles_def sample_world_0_def sample_world_of_def)
  have "fs_list sample_platform ''./maps/'' sample_world_0 = [(''a.tmx'', ''.tmx'')]"
    by (simp add: sample_world_0_def)
  then obtain ls db where run: "initializeProgramOptions sample_platform (\<lambda>h p. sample_sock [] []) (\<lambda>p. True) ?vm sample_world_0
      = Inr (LoginServerOf ls db)"
    by (simp add: initializeProgramOptions_def startLoginServer_def default_options_def loadMaps_def
        LoginServer_new_def ServerDetails_new_def keys)
  moreover have "\<not> vm_regenerate_keys ?vm" by (simp add: default_options_def)
  ultimately show ?thesis
    using server_choice [where E = sample_platform and getSocket = "\<lambda>h p. sample_sock [] []" and validatePort = "\<lambda>p. True"
        and vm = ?vm and w = sample_world_0] keys
    by (simp only: sum.case server.case) blast
qed

end
