(* ===== verification/AuthProperties.thy ===== *)
theory AuthProperties imports SampleRun begin

text \<open>
  What the login server does with one client: the verdict on a login, the session it makes, the
  attempts that are left, and what a packet that is no login does.
\<close>

section \<open>The verdict\<close>

text \<open>C1: A login succeeds exactly when the first account of that user name exists, is not locked, and its stored
  hash is the text of the hash of the decrypted password with the account's salt.\<close>

theorem login_verdict:
  assumes "processLoginAttempt E authID c ls = Inr (ok, c', ls')"
    and "ls_crypto ls = Some crypto" "decryptStringPrivate E crypto (ai_password authID) = Inr password"
  shows "ok \<longleftrightarrow>
    (\<exists>person rest. fst (db_players_by_username E (ai_username authID) (db_begin E (ls_world ls))) = person # rest
       \<and> \<not> pl_locked person
       \<and> pl_password person
           = sha256ToString (hashPasswordSHA256 E (ls_hasher ls) password (stringToSalt (pl_salt person))))"
proof -
  obtain result w where q: "db_players_by_username E (ai_username authID) (db_begin E (ls_world ls)) = (result, w)"
    by fastforce
  obtain s where s: "ic_socket c = Some s"
    using assms by (auto simp: processLoginAttempt_def andThen_eq_Inr deref_eq_Inr Let_def q)
  show ?thesis
  proof (cases result)
    case Nil
    then show ?thesis using assms q s by (simp add: processLoginAttempt_def)
  next
    case (Cons person rest)
    then show ?thesis
      using assms q s
      by (auto simp: processLoginAttempt_def Let_def andThen_eq_Inr split: if_splits)
  qed
qed

text \<open>C27: A successful login makes exactly one session, owned at the end of the session list, with the first account's
  id, the user name, no character, and the connection's socket, on which the success has been sent; the index of
  user names keeps an entry it already has; the connection is done, has no socket and keeps its attempts. A
  failed login leaves sessions and index as they were: where the account is locked, the client is told so, is
  disconnected and the connection is done at no cost; in every other case the attempt is counted, the login has
  failed, and the client is told how many attempts are left.\<close>

theorem login_effects:
  assumes "processLoginAttempt E authID c ls = Inr (ok, c', ls')"
    and "accounts = fst (db_players_by_username E (ai_username authID) (db_begin E (ls_world ls)))"
  shows "\<exists>s. ic_socket c = Some s \<and>
    (if ok then
      accounts \<noteq> []
      \<and> ls_playerSessions ls' = ls_playerSessions ls @ [Some (ls_nextAddress ls)]
      \<and> (\<exists>session. ls_sessionHeap ls' = (ls_sessionHeap ls)(ls_nextAddress ls \<mapsto> session)
            \<and> ps_username session = ai_username authID \<and> ps_playerID session = pl_id (hd accounts)
            \<and> ps_characterID session = 0
            \<and> ps_socket session = auth_reply E True (getAttemptsRemaining c) ''Authentication successful.'' s)
      \<and> ls_usernameToPlayerSession ls' (ai_username authID)
          = (case ls_usernameToPlayerSession ls (ai_username authID) of
               None \<Rightarrow> Some (ls_nextAddress ls) | Some a \<Rightarrow> Some a)
      \<and> (\<forall>name. name \<noteq> ai_username authID \<longrightarrow>
            ls_usernameToPlayerSession ls' name = ls_usernameToPlayerSession ls name)
      \<and> ic_state c' = DONE \<and> ic_socket c' = None \<and> ic_loginAttempts c' = ic_loginAttempts c
    else ls_playerSessions ls' = ls_playerSessions ls \<and> ls_sessionHeap ls' = ls_sessionHeap ls
      \<and> ls_usernameToPlayerSession ls' = ls_usernameToPlayerSession ls
      \<and> (if accounts \<noteq> [] \<and> pl_locked (hd accounts)
          then ic_state c' = DONE \<and> ic_loginAttempts c' = ic_loginAttempts c
            \<and> ic_socket c' = Some (so_disconnect E (auth_reply E False 0 LOCKED_MESSAGE s))
          else ic_state c' = LOGIN_FAILED \<and> ic_loginAttempts c' = ic_loginAttempts c + 1
            \<and> ic_socket c' = Some (auth_reply E False (MAX_ATTEMPTS_ALLOWED - (ic_loginAttempts c + 1))
                ''Authentication failure.'' s)))"
proof (cases ok)
  case False
  obtain result w where q: "db_players_by_username E (ai_username authID) (db_begin E (ls_world ls)) = (result, w)"
    by fastforce
  obtain s where s: "ic_socket c = Some s"
    using assms(1) by (auto simp: processLoginAttempt_def andThen_eq_Inr deref_eq_Inr Let_def q)
  obtain crypto password where dec: "ls_crypto ls = Some crypto"
      "decryptStringPrivate E crypto (ai_password authID) = Inr password"
    using assms(1) by (auto simp: processLoginAttempt_def andThen_eq_Inr deref_eq_Inr)
  note run = assms(1) [unfolded processLoginAttempt_def dec q s deref_simps andThen_Inr Let_def prod.case]
  show ?thesis
  proof (cases result)
    case Nil
    then show ?thesis
      using run False s q assms(2) by (auto simp: lose_attempt_def getAttemptsRemaining_def)
  next
    case (Cons person rest)
    then show ?thesis
      using run False s q assms(2)
      by (cases "pl_locked person"; cases "pl_password person
          = sha256ToString (hashPasswordSHA256 E (ls_hasher ls) password (stringToSalt (pl_salt person)))")
        (auto simp: lose_attempt_def getAttemptsRemaining_def andThen_eq_Inr)
  qed
next
  case True
  obtain s person rest w session v where s: "ic_socket c = Some s"
      and result: "db_players_by_username E (ai_username authID) (db_begin E (ls_world ls)) = (person # rest, w)"
      and c': "c' = c\<lparr>ic_socket := None, ic_state := DONE\<rparr>"
      and ls': "ls' = (add_session session (ls\<lparr>ls_nextGUID := ls_nextGUID ls + 1\<rparr>))\<lparr>ls_world := v\<rparr>"
      and session: "ps_username session = ai_username authID" "ps_playerID session = pl_id person" "ps_characterID session = 0"
        "ps_socket session = auth_reply E True (getAttemptsRemaining c) ''Authentication successful.'' s"
    by (rule processLoginAttempt_success [OF assms(1) [unfolded True [THEN eqTrueI]]])
  have "ls_sessionHeap ls' = (ls_sessionHeap ls)(ls_nextAddress ls \<mapsto> session)"
      "ls_playerSessions ls' = ls_playerSessions ls @ [Some (ls_nextAddress ls)]"
      "ls_usernameToPlayerSession ls' = um_emplace (ai_username authID) (ls_nextAddress ls) (ls_usernameToPlayerSession ls)"
    by (simp_all add: ls' session(1) add_session_def Let_def)
  moreover have "accounts = person # rest" by (simp add: assms(2) result)
  ultimately show ?thesis
    using True s session by (simp add: c' um_emplace_def split: option.split) blast
qed

text \<open>A locked account never gets in, whatever the password: the client is told so with no attempts left, is
  disconnected, and the connection is done.\<close>

theorem locked_account_refused:
  assumes "ls_crypto ls = Some crypto" "usable crypto" "ic_socket c = Some s"
    and "db_players_by_username E (ai_username authID) (db_begin E (ls_world ls)) = (person # rest, w)"
    and "pl_locked person"
  shows "processLoginAttempt E authID c ls =
    Inr (False,
         c\<lparr>ic_socket := Some (so_disconnect E (auth_reply E False 0 LOCKED_MESSAGE s)), ic_state := DONE\<rparr>,
         ls\<lparr>ls_world := db_commit E w\<rparr>)"
proof -
  obtain pw where "decryptStringPrivate E crypto (ai_password authID) = Inr pw"
    using decrypt_total [OF assms(2)] by blast
  then show ?thesis using assms by (simp add: processLoginAttempt_def)
qed

section \<open>Attempts\<close>

text \<open>C28: Every packet that a connection with a failed login sends brings it closer to the end: afterwards it is
  done or has fewer attempts left, and with one attempt left it is done.\<close>

theorem failed_logins_run_out:
  assumes "processLoginFailedSocket E c ls = Inr (c', ls')" "ic_state c = LOGIN_FAILED"
    and "conn_inv (ls_allMaps ls) c" "server_inv ls"
    and "ic_socket c = Some s" "fst (so_hasActivity E s)"
  shows "(ic_state c' = DONE \<or> ic_state c' = LOGIN_FAILED \<and> getAttemptsRemaining c' = getAttemptsRemaining c - 1)
    \<and> (getAttemptsRemaining c = 1 \<longrightarrow> ic_state c' = DONE)"
proof -
  have lost: "ic_state d = DONE \<or> ic_state d = LOGIN_FAILED \<and> ic_loginAttempts d = ic_loginAttempts c + 1"
    if "d = exhaust_attempts (lose_attempt E m t c0)" "ic_loginAttempts c0 = ic_loginAttempts c" for d m t c0
    using that by (cases "ic_loginAttempts c + 1 = MAX_ATTEMPTS_ALLOWED") (simp_all add: exhaust_attempts_def)
  have packet: "ic_state d = DONE \<or> ic_state d = LOGIN_FAILED \<and> ic_loginAttempts d = ic_loginAttempts c + 1"
    if packet: "login_packet E json (c\<lparr>ic_socket := Some t\<rparr>) ls = Inr (d, l)" for json t d l
  proof -
    obtain authID b d1 where run: "processLoginAttempt E authID (c\<lparr>ic_socket := Some t\<rparr>) ls = Inr (b, d1, l)"
        and d: "d = exhaust_attempts d1"
      using packet by (auto simp: login_packet_def andThen_eq_Inr)
    from run show ?thesis
      by (cases rule: processLoginAttempt_cases) (auto simp: d lost exhaust_done)
  qed
  have step: "ic_state c' = DONE \<or> ic_state c' = LOGIN_FAILED \<and> ic_loginAttempts c' = ic_loginAttempts c + 1"
  proof -
    let ?s1 = "so_recv E (Some 2048) (snd (so_hasActivity E s))"
    let ?o = "so_getShort E (snd ?s1)"
    consider (nothing) "fst ?s1 \<le> 0" | (login) "\<not> fst ?s1 \<le> 0" "fst ?o = client_opcode LOGIN_AUTHENTICATION_IDENTITY"
      | (other) "\<not> fst ?s1 \<le> 0" "fst ?o \<noteq> client_opcode LOGIN_AUTHENTICATION_IDENTITY" by blast
    then show ?thesis
    proof cases
      case nothing
      then show ?thesis using assms(1,5,6) by (auto simp: processLoginFailedSocket_def case_prod_beta)
    next
      case login
      then show ?thesis
        using assms(1,5,6) by (auto simp: processLoginFailedSocket_def case_prod_beta Let_def dest: packet)
    next
      case other
      then have "c' = exhaust_attempts (lose_attempt E ''Unexpected data.'' (snd ?o) c)"
        using assms(1,5,6) by (simp add: processLoginFailedSocket_def case_prod_beta)
      then show ?thesis by (rule lost) simp
    qed
  qed
  have "conn_inv (ls_allMaps ls) c'"
    using login_failed_handler.keeps_connection [OF _ assms(3,4,1)] assms(2) by simp
  then have "ic_state c' = LOGIN_FAILED \<longrightarrow> ic_loginAttempts c' < MAX_ATTEMPTS_ALLOWED"
    by (auto simp: conn_inv_def)
  then show ?thesis using step by (auto simp: getAttemptsRemaining_def)
qed

section \<open>Packets that are no login\<close>

text \<open>C29: A login packet stops the server, whatever accounts there are, when its text is not a JSON object with a
  string as its password; when that string is of odd length, whatever else the object holds; and when it is of
  even length but the user name is missing or not a string. An unauthenticated client can so end the server with
  its first packet.\<close>

theorem malformed_login_stops_server:
  assumes "ic_socket c = Some s" "so_hasActivity E s = (True, s0)" "so_recv E (Some 2048) s0 = (n, s1)" "n \<noteq> 0"
    and "so_getShort E s1 = (client_opcode LOGIN_AUTHENTICATION_IDENTITY, s2)"
    and "so_getShort E s2 = (len, s3)" "so_getStringByLength E len s3 = (json, s4)"
  shows "((\<nexists>ms hex. js_parse E (c_str json) = JObject ms \<and> map_of ms ''password'' = Some (JString hex)) \<longrightarrow>
         processChallengeSentSocket E c ls = Inl JsonPrecondition)
    \<and> (\<forall>ms hex. js_parse E (c_str json) = JObject ms \<and> map_of ms ''password'' = Some (JString hex) \<longrightarrow>
         (if odd (length (c_str hex)) then processChallengeSentSocket E c ls = Inl AssertFailed
          else (\<nexists>name. map_of ms ''username'' = Some (JString name)) \<longrightarrow>
            processChallengeSentSocket E c ls = Inl JsonPrecondition))"
proof -
  have stop: "processChallengeSentSocket E c ls = Inl e" if "identity_decode (js_parse E (c_str json)) = Inl e" for e
    using assms that by (simp add: processChallengeSentSocket_def login_packet_def fromJSON_def)
  have missing: "andThen (jMember d k) jGetString = Inl JsonPrecondition"
    if "\<nexists>ms x. d = JObject ms \<and> map_of ms k = Some (JString x)" for d k
  proof (cases "\<exists>ms v. d = JObject ms \<and> map_of ms k = Some v")
    case True
    then obtain ms v where d: "d = JObject ms" "map_of ms k = Some v" by blast
    then show ?thesis using that by (cases v) (simp_all add: jMember_def jGetString_def)
  next
    case False
    then show ?thesis by (cases d) (simp_all add: jMember_def)
  qed
  have present: "andThen (jMember (JObject ms) k) jGetString = Inr (c_str x)" if "map_of ms k = Some (JString x)" for ms k x
    using that by (simp add: jMember_def jGetString_def)
  show ?thesis
  proof (intro conjI allI impI)
    assume "\<nexists>ms hex. js_parse E (c_str json) = JObject ms \<and> map_of ms ''password'' = Some (JString hex)"
    then show "processChallengeSentSocket E c ls = Inl JsonPrecondition"
      by (intro stop) (simp add: identity_decode_def missing)
  next
    fix ms hex
    assume d: "js_parse E (c_str json) = JObject ms \<and> map_of ms ''password'' = Some (JString hex)"
    have "identity_decode (JObject ms) = Inl AssertFailed" if "odd (length (c_str hex))"
      using d that by (simp add: identity_decode_def present hexStringToByteVector_def odd_iff_mod_2_eq_one)
    moreover have "identity_decode (JObject ms) = Inl JsonPrecondition"
      if "even (length (c_str hex))" "\<nexists>name. map_of ms ''username'' = Some (JString name)"
      using d that by (simp add: identity_decode_def present missing hexStringToByteVector_def even_iff_mod_2_eq_zero)
    ultimately show "if odd (length (c_str hex)) then processChallengeSentSocket E c ls = Inl AssertFailed
        else (\<nexists>name. map_of ms ''username'' = Some (JString name)) \<longrightarrow>
          processChallengeSentSocket E c ls = Inl JsonPrecondition"
      using stop d by simp
  qed
qed

section \<open>Witnesses\<close>

definition sample_player :: "bool \<Rightarrow> player" where
  "sample_player locked = (Player_new ''bo''
     (sha256ToString (hashPasswordSHA256 sample_platform \<lparr>iterationCount = 32000\<rparr> ''pw'' (stringToSalt ''0A''))) ''0A'')
     \<lparr>pl_id := 5, pl_locked := locked\<rparr>"

definition sample_auth_server :: "bool \<Rightarrow> (sample_socket, unit, sample_world) login_server" where
  "sample_auth_server locked = sample_server\<lparr>ls_world := sample_world_of [sample_player locked] [] []\<rparr>"

definition sample_login :: auth_identity where
  "sample_login = \<lparr>ai_username = ''bo'', ai_password = [112, 119]\<rparr>"

lemma sample_decrypt:
  "decryptStringPrivate sample_platform sample_keys (ai_password sample_login) = Inr ''pw''"
  by (simp add: decryptStringPrivate_def sample_keys_def sample_login_def byte_char_def char_of_def bit_Suc_0_iff)

lemma sample_auth_server_simps [simp]:
  "ls_crypto (sample_auth_server l) = Some sample_keys" "ls_hasher (sample_auth_server l) = \<lparr>iterationCount = 32000\<rparr>"
  "ls_world (sample_auth_server l) = sample_world_of [sample_player l] [] []"
  "ls_playerSessions (sample_auth_server l) = []" "ls_nextAddress (sample_auth_server l) = 0"
  by (simp_all add: sample_auth_server_def sample_server_def)

lemma sample_login_succeeds:
  "\<exists>c' ls'. processLoginAttempt sample_platform sample_login (IncomingConnection_new (sample_peer []))
     (sample_auth_server False) = Inr (True, c', ls')"
proof -
  let ?c = "IncomingConnection_new (sample_peer [])"
  have "ic_socket ?c = Some (sample_peer [])" by (simp add: IncomingConnection_new_def)
  then show ?thesis
    using sample_decrypt
    by (simp add: processLoginAttempt_def sample_world_of_def sample_note_def sample_player_def
        sample_login_def PlayerSession_new_def generateSessionKey_eq loginUpdate_def)
qed

lemma login_verdict_witness:
  "\<exists>person rest. sw_players (sample_world_of [sample_player False] [] []) = person # rest \<and> \<not> pl_locked person
     \<and> pl_password person = sha256ToString (hashPasswordSHA256 sample_platform \<lparr>iterationCount = 32000\<rparr>
         ''pw'' (stringToSalt (pl_salt person)))"
proof -
  obtain c' ls' where run: "processLoginAttempt sample_platform sample_login (IncomingConnection_new (sample_peer []))
     (sample_auth_server False) = Inr (True, c', ls')"
    using sample_login_succeeds by blast
  have found: "fst (db_players_by_username sample_platform (ai_username sample_login)
      (db_begin sample_platform (ls_world (sample_auth_server False)))) = [sample_player False]"
    by (simp add: sample_world_of_def sample_note_def sample_player_def sample_login_def)
  show ?thesis
    using login_verdict [OF run sample_auth_server_simps(1) sample_decrypt]
    unfolding found by (simp add: sample_world_of_def)
qed

lemma login_effects_witness:
  "\<exists>c' ls'. processLoginAttempt sample_platform sample_login (IncomingConnection_new (sample_peer []))
     (sample_auth_server False) = Inr (True, c', ls')
     \<and> ls_playerSessions ls' = [Some 0] \<and> ic_state c' = DONE
     \<and> (\<exists>session. ls_sessionHeap ls' 0 = Some session \<and> ps_playerID session = 5
          \<and> ps_socket session = auth_reply sample_platform True 3 ''Authentication successful.'' (sample_peer []))"
proof -
  obtain c' ls' where run: "processLoginAttempt sample_platform sample_login (IncomingConnection_new (sample_peer []))
     (sample_auth_server False) = Inr (True, c', ls')"
    using sample_login_succeeds by blast
  have found: "[sample_player False] = fst (db_players_by_username sample_platform (ai_username sample_login)
      (db_begin sample_platform (ls_world (sample_auth_server False))))"
    by (simp add: sample_world_of_def sample_note_def sample_player_def sample_login_def)
  show ?thesis
    using run login_effects [OF run found]
    by (auto simp: IncomingConnection_new_def getAttemptsRemaining_def MAX_ATTEMPTS_ALLOWED_def sample_player_def)
qed

lemma locked_account_refused_witness:
  "\<exists>c' ls'. processLoginAttempt sample_platform sample_login (IncomingConnection_new (sample_peer []))
     (sample_auth_server True) = Inr (False, c', ls') \<and> ic_state c' = DONE"
proof -
  have "db_players_by_username sample_platform (ai_username sample_login)
      (db_begin sample_platform (ls_world (sample_auth_server True)))
      = ([sample_player True], sample_note ''begin'' (sample_world_of [sample_player True] [] []))"
    by (simp add: sample_world_of_def sample_note_def sample_player_def sample_login_def)
  from locked_account_refused [OF sample_auth_server_simps(1) _ _ this, of "IncomingConnection_new (sample_peer [])"]
  show ?thesis
    by (simp add: IncomingConnection_new_def usable_def sample_keys_def sample_player_def)
qed

definition sample_last_try :: "sample_socket incoming" where
  "sample_last_try = (IncomingConnection_new (sample_sock [sample_s16 7777] []))
     \<lparr>ic_state := LOGIN_FAILED, ic_loginAttempts := 2\<rparr>"

lemma failed_logins_run_out_witness:
  "\<exists>c'. processLoginFailedSocket sample_platform sample_last_try (rn_server (sample_accepted []))
     = Inr (c', rn_server (sample_accepted [])) \<and> ic_state c' = DONE"
proof -
  let ?ls = "rn_server (sample_accepted [])"
  have "\<exists>c'. processLoginFailedSocket sample_platform sample_last_try ?ls = Inr (c', ?ls)"
    by (simp add: processLoginFailedSocket_def sample_last_try_def IncomingConnection_new_def sample_sock_def
        sample_recv_def)
  then obtain c' where run: "processLoginFailedSocket sample_platform sample_last_try ?ls = Inr (c', ?ls)" by blast
  have "run_inv (sample_accepted [])" by (rule login_reachable_inv [OF sample_accepted_reachable])
  then have inv: "server_inv ?ls" by (simp add: run_inv_def login_inv_def)
  have "conn_inv (ls_allMaps ?ls) sample_last_try"
    by (simp add: conn_inv_def sample_last_try_def IncomingConnection_new_def MAX_ATTEMPTS_ALLOWED_def)
  from failed_logins_run_out [OF run _ this inv, of "sample_sock [sample_s16 7777] []"]
  have "ic_state c' = DONE"
    by (simp add: sample_last_try_def IncomingConnection_new_def sample_sock_def getAttemptsRemaining_def
        MAX_ATTEMPTS_ALLOWED_def)
  then show ?thesis using run by blast
qed

text \<open>A packet with a user name and a password of three digits, and one with no text at all.\<close>

definition sample_odd_doc :: json where
  "sample_odd_doc = JObject [(''username'', JString ''bo''), (''password'', JString ''7a7'')]"

definition sample_identity_frame :: "string \<Rightarrow> string" where
  "sample_identity_frame json = sample_s16 1 @ sample_s16 (of_nat (length json)) @ json"

lemma sample_odd_read:
  "js_parse sample_platform (c_str (json_text sample_platform sample_odd_doc)) = sample_odd_doc"
  "length (json_text sample_platform sample_odd_doc) < 2044"
  using sample_reads_back [of sample_odd_doc]
  by (simp_all add: reads_back_def sample_odd_doc_def json_text_def json_text_eval)

lemma malformed_login_stops_server_witness:
  "processChallengeSentSocket sample_platform (sample_challenged [sample_garbage] []) sample_server
     = Inl JsonPrecondition
   \<and> processChallengeSentSocket sample_platform
       (sample_challenged [sample_identity_frame (json_text sample_platform sample_odd_doc)] []) sample_server
     = Inl AssertFailed"
proof
  let ?s = "sample_sock [sample_garbage] []"
  let ?s1 = "?s\<lparr>sk_peer := [], sk_buf := sample_garbage\<rparr>"
  have "js_parse sample_platform (c_str []) = JNull" by (simp add: sample_parse_def)
  then show "processChallengeSentSocket sample_platform (sample_challenged [sample_garbage] []) sample_server
      = Inl JsonPrecondition"
    using malformed_login_stops_server [of "sample_challenged [sample_garbage] []" ?s sample_platform ?s 4 ?s1
        "?s1\<lparr>sk_buf := sample_s16 0\<rparr>" 0 "?s1\<lparr>sk_buf := []\<rparr>" "[]" "?s1\<lparr>sk_buf := []\<rparr>" sample_server]
    by (simp add: sample_challenged_def IncomingConnection_new_def sample_sock_def sample_recv_def
        sample_garbage_def sample_getString_def)
next
  define json where "json = json_text sample_platform sample_odd_doc"
  let ?f = "sample_identity_frame json" and ?n = "of_nat (length json) :: u16"
  let ?s = "sample_sock [?f] []"
  let ?s1 = "?s\<lparr>sk_peer := [], sk_buf := ?f\<rparr>"
  have read: "js_parse sample_platform (c_str json) = sample_odd_doc" "length json < 2044"
    using sample_odd_read by (simp_all add: json_def)
  then have n: "unat ?n = length json" by (simp add: unat_of_nat)
  show "processChallengeSentSocket sample_platform (sample_challenged [sample_identity_frame (json_text sample_platform
      sample_odd_doc)] []) sample_server = Inl AssertFailed"
    unfolding json_def [symmetric]
    using malformed_login_stops_server [of "sample_challenged [?f] []" ?s sample_platform ?s "4 + int (length json)" ?s1
        "?s1\<lparr>sk_buf := sample_s16 ?n @ json\<rparr>" ?n "?s1\<lparr>sk_buf := json\<rparr>" json "?s1\<lparr>sk_buf := []\<rparr>" sample_server]
      read n
    by (simp add: sample_challenged_def IncomingConnection_new_def sample_sock_def sample_recv_def
        sample_identity_frame_def sample_getString_def sample_odd_doc_def c_str_def)
qed

end
