(* ===== verification/LoginSpec.thy ===== *)
theory LoginSpec imports LoginServer begin

text \<open>
  What a login server promises, without sockets, packets and the database: how far each connection
  has come and how many logins it has failed, who is logged in, and which server has which map. The
  step relation \<open>spec_step\<close> says how these may change; the map \<open>abs_run\<close> reads them off the state of
  the running server. The contract \<open>refinement\<close> carries a simulation of steps over to runs; the
  interpretation at the end discharges it for the server.
\<close>

section \<open>The abstract server\<close>

text \<open>A player who is logged in: user name, account, and the character that was chosen, or 0.\<close>

record logged_in =
  li_username :: string
  li_player :: u64
  li_character :: u64

text \<open>The directory tells a map's server: its friendly name, its host and its port.\<close>

type_synonym instructions = "string \<times> string \<times> u16"

record login_spec =
  sp_connections :: "(incoming_state \<times> int) list"
  sp_sessions :: "nat \<rightharpoonup> logged_in"
  sp_directory :: "string \<rightharpoonup> instructions"

definition spec_start :: login_spec where
  "spec_start = \<lparr>sp_connections = [], sp_sessions = (\<lambda>_. None), sp_directory = (\<lambda>_. None)\<rparr>"

text \<open>How a connection that stays a connection moves on.\<close>

inductive moves :: "incoming_state \<times> int \<Rightarrow> incoming_state \<times> int \<Rightarrow> bool" where
  challenged: "moves (FRESH, 0) (CHALLENGE_SENT, 0)"
| refused: "p = CHALLENGE_SENT \<or> p = LOGIN_FAILED \<Longrightarrow> n + 1 < MAX_ATTEMPTS_ALLOWED \<Longrightarrow> moves (p, n) (LOGIN_FAILED, n + 1)"
| refused_finally: "p = CHALLENGE_SENT \<or> p = LOGIN_FAILED \<Longrightarrow> n + 1 = MAX_ATTEMPTS_ALLOWED \<Longrightarrow> moves (p, n) (DONE, MAX_ATTEMPTS_ALLOWED)"
| registering: "moves (CHALLENGE_SENT, 0) (MAP_LIST, 0)"
| asked: "moves (MAP_LIST, 0) (MAP_WAIT_ACK, 0)"
| ended: "p \<noteq> DONE \<Longrightarrow> moves (p, n) (DONE, n)"

text \<open>A session lives on with its player; a character can be chosen only once a map has a server.\<close>

definition serves :: "(string \<rightharpoonup> instructions) \<Rightarrow> (nat \<rightharpoonup> logged_in) \<Rightarrow> (nat \<rightharpoonup> logged_in) \<Rightarrow> bool" where
  "serves directory before after =
     (\<forall>k t. after k = Some t \<longrightarrow>
        (\<exists>s. before k = Some s \<and> li_username t = li_username s \<and> li_player t = li_player s
           \<and> (li_character t = li_character s \<or> directory \<noteq> (\<lambda>_. None))))"

text \<open>The first server of a map keeps it.\<close>

definition announce :: "instructions \<Rightarrow> string set \<Rightarrow> (string \<rightharpoonup> instructions) \<Rightarrow> (string \<rightharpoonup> instructions)" where
  "announce server names directory = (\<lambda>name. if name \<in> names then Some server else None) ++ directory"

inductive spec_step :: "string set \<Rightarrow> login_spec \<Rightarrow> login_spec \<Rightarrow> bool" for hosted where
  Arrive: "spec_step hosted sp (sp\<lparr>sp_connections := sp_connections sp @ [(FRESH, 0)]\<rparr>)"
| Move: "i < length (sp_connections sp) \<Longrightarrow> moves (sp_connections sp ! i) x \<Longrightarrow>
    spec_step hosted sp (sp\<lparr>sp_connections := (sp_connections sp)[i := x]\<rparr>)"
| Login: "i < length (sp_connections sp) \<Longrightarrow> sp_connections sp ! i = (p, n) \<Longrightarrow>
    p = CHALLENGE_SENT \<or> p = LOGIN_FAILED \<Longrightarrow> sp_sessions sp k = None \<Longrightarrow> li_character t = 0 \<Longrightarrow>
    spec_step hosted sp (sp\<lparr>sp_sessions := (sp_sessions sp)(k \<mapsto> t),
      sp_connections := (sp_connections sp)[i := (DONE, n)]\<rparr>)"
| Register: "i < length (sp_connections sp) \<Longrightarrow> sp_connections sp ! i = (MAP_WAIT_ACK, n) \<Longrightarrow>
    names \<noteq> {} \<Longrightarrow> names \<subseteq> hosted \<Longrightarrow>
    spec_step hosted sp (sp\<lparr>sp_directory := announce server names (sp_directory sp),
      sp_connections := (sp_connections sp)[i := (DONE, n)]\<rparr>)"
| Purge: "spec_step hosted sp (sp\<lparr>sp_connections := filter (\<lambda>x. fst x \<noteq> DONE) (sp_connections sp)\<rparr>)"
| Serve: "serves (sp_directory sp) (sp_sessions sp) sessions \<Longrightarrow>
    spec_step hosted sp (sp\<lparr>sp_sessions := sessions\<rparr>)"

inductive_cases spec_stepE [elim]: "spec_step hosted sp sp'"

section \<open>What holds of the abstract server\<close>

text \<open>Entries of the directory are permanent and of hosted maps.\<close>

lemma spec_directory_grows: "spec_step hosted sp sp' \<Longrightarrow> sp_directory sp \<subseteq>\<^sub>m sp_directory sp'"
  by (induction rule: spec_step.induct) (auto simp: map_le_def announce_def map_add_def split: option.split)

lemma dom_announce [simp]: "dom (announce server names directory) = names \<union> dom directory"
  by (rule set_eqI) (simp add: announce_def domIff map_add_None del: not_None_eq)

lemma spec_directory_hosted:
  "spec_step hosted sp sp' \<Longrightarrow> dom (sp_directory sp) \<subseteq> hosted \<Longrightarrow> dom (sp_directory sp') \<subseteq> hosted"
  by (induction rule: spec_step.induct) simp_all

section \<open>The abstraction\<close>

definition abs_session :: "'s player_session \<Rightarrow> logged_in" where
  "abs_session s = \<lparr>li_username = ps_username s, li_player = ps_playerID s, li_character = ps_characterID s\<rparr>"

definition server_instructions :: "'s map_server_connection \<Rightarrow> instructions" where
  "server_instructions m = (mc_friendlyName m, mc_hostname m, mc_port m)"

definition abs_connection :: "'s incoming \<Rightarrow> incoming_state \<times> int" where
  "abs_connection c = (ic_state c, ic_loginAttempts c)"

definition abs_directory :: "('s, 'k, 'w) login_server \<Rightarrow> (string \<rightharpoonup> instructions)" where
  "abs_directory ls name =
     map_option (\<lambda>p. server_instructions (v_elems (ls_mapServers ls) ! snd p)) (ls_mapNameToConnection ls name)"

definition abs_server :: "('s, 'k, 'w) login_server \<Rightarrow> login_spec" where
  "abs_server ls =
     \<lparr>sp_connections = map abs_connection (ls_incomingConnections ls),
      sp_sessions = map_option abs_session \<circ> ls_sessionHeap ls,
      sp_directory = abs_directory ls\<rparr>"

definition abs_run :: "('b, 's, 'k, 'w) running \<Rightarrow> login_spec" where
  "abs_run r = abs_server (rn_server r)"

definition hosted_names :: "('s, 'k, 'w) login_server \<Rightarrow> string set" where
  "hosted_names ls = lo_locationName ` set (ls_allMaps ls)"

lemma abs_server_updates [simp]:
  "abs_server (ls\<lparr>ls_world := w\<rparr>) = abs_server ls"
  "abs_server (ls\<lparr>ls_nextGUID := g\<rparr>) = abs_server ls"
  "abs_server (ls\<lparr>ls_incomingConnections := cs\<rparr>) = (abs_server ls)\<lparr>sp_connections := map abs_connection cs\<rparr>"
  by (simp_all add: abs_server_def abs_directory_def fun_eq_iff)

lemma abs_server_connections [simp]: "sp_connections (abs_server ls) = map abs_connection (ls_incomingConnections ls)"
  by (simp add: abs_server_def)

lemma abs_server_initDB [simp]: "abs_server (initDB E ls) = abs_server ls"
  using initDB_frame [of E ls] by (auto simp: abs_server_updates)

lemma abs_server_add_session:
  "abs_server (add_session session ls) =
     (abs_server ls)\<lparr>sp_sessions := (sp_sessions (abs_server ls))(ls_nextAddress ls \<mapsto> abs_session session)\<rparr>"
  by (auto simp: abs_server_def abs_directory_def fun_eq_iff add_session_def Let_def)

lemma abs_server_register:
  assumes "maps_inv ls"
  shows "abs_server (register_map_server server ls) =
    (abs_server ls)\<lparr>sp_directory := announce (server_instructions server) (lo_locationName ` set (mc_maps server))
       (sp_directory (abs_server ls))\<rparr>"
proof -
  have "abs_directory (register_map_server server ls) name =
      announce (server_instructions server) (lo_locationName ` set (mc_maps server)) (abs_directory ls) name" for name
  proof (cases "ls_mapNameToConnection ls name")
    case None
    then show ?thesis
      by (auto simp: abs_directory_def announce_def map_add_def register_index offers_def vec_back_ptr_def)
  next
    case (Some p)
    then have "snd p < length (v_elems (ls_mapServers ls))"
      using assms by (cases p) (auto simp: maps_inv_def)
    then show ?thesis using Some
      by (simp add: abs_directory_def announce_def map_add_def register_index nth_append)
  qed
  then show ?thesis
    by (simp add: abs_server_def fun_eq_iff) (simp add: register_map_server_def Let_def)
qed

end
