(* ===== verification/LoginSimulation.thy ===== *)
theory LoginSimulation imports LoginSpec begin

text \<open>
  The running login server implements the abstract one: every step of its run is a step of
  \<open>spec_step\<close> or changes nothing there. The contract \<open>simulation\<close> takes such a claim about steps to
  runs, with an invariant of the implementation to lean on.
\<close>

section \<open>What a turn of a connection does\<close>

lemma lost_moves:
  assumes "ic_state c = CHALLENGE_SENT \<or> ic_state c = LOGIN_FAILED" "ic_loginAttempts c < MAX_ATTEMPTS_ALLOWED"
  shows "moves (abs_connection c) (abs_connection (exhaust_attempts (lose_attempt E m s c)))"
  using assms
  by (cases "ic_loginAttempts c + 1 = MAX_ATTEMPTS_ALLOWED")
    (auto simp: abs_connection_def exhaust_attempts_def intro: refused refused_finally)

lemma login_packet_outcomes:
  assumes "login_packet E json c ls = Inr (c', ls')"
    and "ic_state c = CHALLENGE_SENT \<or> ic_state c = LOGIN_FAILED" "ic_loginAttempts c < MAX_ATTEMPTS_ALLOWED"
  obtains
    (kept) w where "ls' = ls\<lparr>ls_world := w\<rparr>" "moves (abs_connection c) (abs_connection c')"
  | (login) session g w where "abs_connection c' = (DONE, ic_loginAttempts c)"
      "ls' = (add_session session (ls\<lparr>ls_nextGUID := g\<rparr>))\<lparr>ls_world := w\<rparr>" "ps_characterID session = 0"
proof -
  obtain authID ok c1 where run: "processLoginAttempt E authID c ls = Inr (ok, c1, ls')"
      and c': "c' = exhaust_attempts c1"
    using assms(1) by (auto simp: login_packet_def andThen_eq_Inr)
  from run show thesis
  proof (cases rule: processLoginAttempt_cases)
    case (lost s w)
    have "moves (abs_connection c) (abs_connection c')"
      using lost_moves [OF assms(2,3)] lost(3) by (simp add: c')
    then show thesis by (rule kept [OF lost(4)])
  next
    case (locked s w)
    have "moves (abs_connection c) (abs_connection c')"
      using assms(2) locked(2) by (auto simp: c' abs_connection_def exhaust_done intro: ended)
    then show thesis by (rule kept [OF locked(3)])
  next
    case (success session g w)
    then show thesis
      using run login
      by (auto simp: c' abs_connection_def exhaust_done elim!: processLoginAttempt_success)
  qed
qed

lemma moves_ended: "ic_state c \<noteq> DONE \<Longrightarrow> moves (abs_connection c) (abs_connection (c\<lparr>ic_socket := s, ic_state := DONE\<rparr>))"
  by (simp add: abs_connection_def ended)

lemma abs_connection_simps [simp]:
  "abs_connection (c\<lparr>ic_socket := s\<rparr>) = abs_connection c"
  "abs_connection (c\<lparr>ic_state := p\<rparr>) = (p, ic_loginAttempts c)"
  "abs_connection (c\<lparr>ic_maps := ms\<rparr>) = abs_connection c"
  "abs_connection (c\<lparr>ic_mapServerFriendlyName := n\<rparr>) = abs_connection c"
  "abs_connection (c\<lparr>ic_mapServerListenAddress := n\<rparr>) = abs_connection c"
  "abs_connection (c\<lparr>ic_mapServerPort := q\<rparr>) = abs_connection c"
  by (simp_all add: abs_connection_def)

text \<open>The three kinds of outcome of a connection's turn.\<close>

definition turn_outcome ::
  "'s incoming \<Rightarrow> ('s, 'k, 'w) login_server \<Rightarrow> 's incoming \<Rightarrow> ('s, 'k, 'w) login_server \<Rightarrow> bool" where
  "turn_outcome c ls c' ls' =
     ((abs_connection c' = abs_connection c \<or> moves (abs_connection c) (abs_connection c')) \<and> (\<exists>w. ls' = ls\<lparr>ls_world := w\<rparr>)
      \<or> (ic_state c = CHALLENGE_SENT \<or> ic_state c = LOGIN_FAILED) \<and> abs_connection c' = (DONE, ic_loginAttempts c)
         \<and> (\<exists>session g w. ps_characterID session = 0 \<and> ls' = (add_session session (ls\<lparr>ls_nextGUID := g\<rparr>))\<lparr>ls_world := w\<rparr>)
      \<or> ic_state c = MAP_WAIT_ACK \<and> abs_connection c' = (DONE, ic_loginAttempts c)
         \<and> (\<exists>server. mc_maps server \<noteq> [] \<and> set (mc_maps server) \<subseteq> set (ls_allMaps ls) \<and> ls' = register_map_server server ls))"

lemma same_world: "\<exists>w. ls = ls\<lparr>ls_world := w\<rparr>" for ls :: "('s, 'k, 'w) login_server"
  by (rule exI [of _ "ls_world ls"]) simp

lemma outcome_stays [intro]: "abs_connection c' = abs_connection c \<Longrightarrow> turn_outcome c ls c' ls"
  using same_world [of ls] by (simp add: turn_outcome_def)

lemma outcome_moves [intro]: "moves (abs_connection c) (abs_connection c') \<Longrightarrow> turn_outcome c ls c' ls"
  using same_world [of ls] by (simp add: turn_outcome_def)

lemma outcome_ended [intro]: "ic_state c \<noteq> DONE \<Longrightarrow> abs_connection c' = (DONE, ic_loginAttempts c) \<Longrightarrow> turn_outcome c ls c' ls"
  by (rule outcome_moves) (simp add: abs_connection_def ended)

lemma outcome_registers:
  "ic_state c = MAP_WAIT_ACK \<Longrightarrow> abs_connection c' = (DONE, ic_loginAttempts c) \<Longrightarrow> mc_maps server \<noteq> [] \<Longrightarrow>
   set (mc_maps server) \<subseteq> set (ls_allMaps ls) \<Longrightarrow> turn_outcome c ls c' (register_map_server server ls)"
  unfolding turn_outcome_def by blast

lemma outcome_lost [intro]:
  "ic_state c = CHALLENGE_SENT \<or> ic_state c = LOGIN_FAILED \<Longrightarrow> ic_loginAttempts c < MAX_ATTEMPTS_ALLOWED \<Longrightarrow>
   turn_outcome c ls (exhaust_attempts (lose_attempt E m s c)) ls"
  by (rule outcome_moves [OF lost_moves])

lemma exhaust_none: "ic_loginAttempts c = 0 \<Longrightarrow> exhaust_attempts c = c"
  by (simp add: exhaust_attempts_def MAX_ATTEMPTS_ALLOWED_def)

lemma login_packet_outcome:
  assumes "login_packet E json (c\<lparr>ic_socket := t\<rparr>) ls = Inr (c', ls')"
    and "ic_state c = CHALLENGE_SENT \<or> ic_state c = LOGIN_FAILED" "ic_loginAttempts c < MAX_ATTEMPTS_ALLOWED"
  shows "turn_outcome c ls c' ls'"
proof -
  let ?c = "c\<lparr>ic_socket := t\<rparr>"
  have "ic_state ?c = CHALLENGE_SENT \<or> ic_state ?c = LOGIN_FAILED" "ic_loginAttempts ?c < MAX_ATTEMPTS_ALLOWED"
    using assms(2,3) by simp_all
  from assms(1) this show ?thesis
  proof (cases rule: login_packet_outcomes)
    case (login session g w)
    then show ?thesis using assms(2) by (auto simp: turn_outcome_def)
  qed (use assms in \<open>auto simp: turn_outcome_def\<close>)
qed

lemma processState_outcome:
  assumes "processState E ch c ls = Inr (c', ls')" "conn_inv (ls_allMaps ls) c"
  shows "turn_outcome c ls c' ls'"
proof (cases "ic_state c")
  case FRESH
  have "abs_connection c' = (DONE, ic_loginAttempts c) \<or> moves (abs_connection c) (abs_connection c')"
      "ls' = ls"
    using assms FRESH challenged
    by (auto simp: processState_def processFreshSocket_def andThen_eq_Inr case_prod_beta conn_inv_def abs_connection_def
        split: if_splits)
  then show ?thesis using FRESH by auto
next
  case CHALLENGE_SENT
  then have n: "ic_loginAttempts c = 0" "(0 :: int) < MAX_ATTEMPTS_ALLOWED"
    using assms(2) by (auto simp: conn_inv_def MAX_ATTEMPTS_ALLOWED_def)
  then have move: "moves (abs_connection c) (MAP_LIST, ic_loginAttempts c)"
    using CHALLENGE_SENT by (simp add: abs_connection_def registering)
  show ?thesis
    using assms(1) CHALLENGE_SENT n move
    by (auto simp: processState_def processChallengeSentSocket_def andThen_eq_Inr case_prod_beta Let_def
       processMapAuthenticationRequest_def exhaust_none intro: login_packet_outcome split: if_splits)
next
  case LOGIN_FAILED
  then have n: "ic_loginAttempts c < MAX_ATTEMPTS_ALLOWED"
    using assms(2) by (auto simp: conn_inv_def)
  show ?thesis
    using assms(1) LOGIN_FAILED n
    by (auto simp: processState_def processLoginFailedSocket_def andThen_eq_Inr case_prod_beta Let_def
       intro: login_packet_outcome split: if_splits)
next
  case MAP_LIST
  then have "ic_loginAttempts c = 0" using assms(2) by (auto simp: conn_inv_def)
  then have move: "moves (abs_connection c) (MAP_WAIT_ACK, ic_loginAttempts c)"
    using MAP_LIST by (simp add: abs_connection_def asked)
  show ?thesis
    using assms(1) MAP_LIST move
    by (auto simp: processState_def processMapListSocket_def andThen_eq_Inr case_prod_beta Let_def
        split: if_splits)
next
  case MAP_WAIT_ACK
  then obtain maps where details: "ic_maps c = Some maps" "maps \<noteq> []" "set maps \<subseteq> set (ls_allMaps ls)"
    using assms(2) by (auto simp: conn_inv_def split: option.splits)
  have registers: "turn_outcome c ls (c\<lparr>ic_socket := None, ic_maps := Some [], ic_state := DONE\<rparr>)
      (register_map_server (MapServerConnection_new address port s maps name) ls)" for address port s name
    using MAP_WAIT_ACK details by (intro outcome_registers) (simp_all add: MapServerConnection_new_def)
  obtain s where s: "ic_socket c = Some s" using assms(2) conn_inv_socket MAP_WAIT_ACK by fastforce
  show ?thesis
    using assms(1) MAP_WAIT_ACK details(1) registers
    by (cases "fst (so_hasActivity E s)"; cases "fst (so_recv E None (snd (so_hasActivity E s))) = 0")
      (auto simp: processState_def processMapWaitAckSocket_def andThen_eq_Inr case_prod_beta Let_def s)
next
  case DONE
  then show ?thesis using assms(1) by (auto simp: processState_def processDoneSocket_def)
qed

lemma processConnection_outcome:
  assumes "processConnection E ch c ls = Inr (c', ls')" "conn_inv (ls_allMaps ls) c"
  shows "turn_outcome c ls c' ls'"
  using check_error_cases [OF assms(2), of E]
proof
  assume "check_error E c = Inr c"
  then show ?thesis using assms processState_outcome by (simp add: processConnection_def)
next
  assume "check_error E c = Inr (c\<lparr>ic_state := DONE\<rparr>)"
  then have "c' = c\<lparr>ic_state := DONE\<rparr>" "ls' = ls"
    using assms(1) by (simp_all add: processConnection_def processState_def processDoneSocket_def)
  then show ?thesis by (cases "ic_state c = DONE") (auto simp: abs_connection_def)
qed

section \<open>What a pass over the sessions does\<close>

lemma selectAnswer_directory: "selectAnswer E ls i = Inr (True, answer) \<Longrightarrow> abs_directory ls \<noteq> (\<lambda>_. None)"
  by (auto simp: selectAnswer_def abs_directory_def um_find_def fun_eq_iff split: option.splits)

lemma serveSession_character:
  assumes "serveSession E ls session w = Inr (session', w')"
  shows "ps_characterID session' = ps_characterID session \<or> abs_directory ls \<noteq> (\<lambda>_. None)"
  using assms
  by (auto simp: serveSession_def processCharacterRequest_def processCharacterSelect_def Let_def case_prod_beta
      andThen_eq_Inr dest: selectAnswer_directory split: if_splits list.splits)

definition abs_sessions :: "('s, 'k, 'w) login_server \<Rightarrow> (nat \<rightharpoonup> logged_in)" where
  "abs_sessions ls = map_option abs_session \<circ> ls_sessionHeap ls"

lemma serves_refl: "serves d m m"
  by (simp add: serves_def)

lemma serves_trans:
  assumes "serves d m n" "serves d n k"
  shows "serves d m k"
  unfolding serves_def
proof (intro allI impI)
  fix a t assume "k a = Some t"
  then obtain u where "n a = Some u" and u: "li_username t = li_username u" "li_player t = li_player u"
      "li_character t = li_character u \<or> d \<noteq> (\<lambda>_. None)"
    using assms(2) unfolding serves_def by blast
  then obtain v where "m a = Some v" "li_username u = li_username v" "li_player u = li_player v"
      "li_character u = li_character v \<or> d \<noteq> (\<lambda>_. None)"
    using assms(1) unfolding serves_def by blast
  then show "\<exists>s. m a = Some s \<and> li_username t = li_username s \<and> li_player t = li_player s
      \<and> (li_character t = li_character s \<or> d \<noteq> (\<lambda>_. None))"
    using u by (intro exI [of _ v]) auto
qed

lemma serves_drop: "serves d m (m(k := None))"
  by (simp add: serves_def)

lemma processSession_serves:
  assumes "processSession E slot ls = Inr (slot', ls')"
  shows "serves (abs_directory ls) (abs_sessions ls) (abs_sessions ls') \<and> abs_directory ls' = abs_directory ls"
  using assms
proof (cases rule: processSession_cases)
  case (dropped a session)
  then have "abs_sessions ls' = (abs_sessions ls)(a := None)"
    by (auto simp: abs_sessions_def drop_session_def)
  moreover have "abs_directory ls' = abs_directory ls"
    by (rule ext) (simp add: dropped(4) abs_directory_def drop_session_def)
  ultimately show ?thesis by (simp add: serves_drop)
next
  case (served a session session' w)
  then have "abs_sessions ls' = (abs_sessions ls)(a \<mapsto> abs_session session')" "abs_sessions ls a = Some (abs_session session)"
    by (auto simp: abs_sessions_def)
  then show ?thesis
    using serveSession_identity [OF served(4)] serveSession_character [OF served(4)] served(5)
    by (auto simp: serves_def abs_session_def abs_directory_def fun_eq_iff)
qed

lemma processSessions_serves:
  "processSessions E slots ls = Inr (slots', ls') \<Longrightarrow>
   serves (abs_directory ls) (abs_sessions ls) (abs_sessions ls') \<and> abs_directory ls' = abs_directory ls"
proof (induction slots arbitrary: ls slots')
  case (Cons slot slots)
  then obtain slot1 ls1 slots1 where run: "processSession E slot ls = Inr (slot1, ls1)"
      "processSessions E slots ls1 = Inr (slots1, ls')"
    by (auto simp: andThen_eq_Inr)
  have one: "serves (abs_directory ls) (abs_sessions ls) (abs_sessions ls1)" "abs_directory ls1 = abs_directory ls"
    using processSession_serves [OF run(1)] by simp_all
  have rest: "serves (abs_directory ls) (abs_sessions ls1) (abs_sessions ls')" "abs_directory ls' = abs_directory ls"
    using Cons.IH [OF run(2)] one(2) by simp_all
  show ?case using serves_trans [OF one(1) rest(1)] rest(2) by simp
qed (simp add: serves_refl)

lemma connectedPass_names:
  "connectedPass E t ls = Inr (a, ls') \<Longrightarrow> login_inv ls \<Longrightarrow> ls_mapIDToName ls' = ls_mapIDToName ls"
  using session.pass_keeps [of E "ls_playerSessions ls" ls _ _ "[]"]
  by (auto simp: connectedPass_def andThen_eq_Inr Let_def processSessions_pass login_inv_def
      server_inv_def slots_inv_whole dest!: same_but_sessions_simps(7) split: if_splits)

lemma connectedPass_serves:
  assumes "connectedPass E elapsed ls = Inr (active, ls')" "login_inv ls"
  shows "\<exists>sessions. serves (abs_directory ls) (abs_sessions ls) sessions
    \<and> abs_server ls' = (abs_server ls)\<lparr>sp_sessions := sessions\<rparr>"
proof (cases "of_int elapsed > RUN_WAIT_TIME")
  case False
  then show ?thesis
    using assms by (auto simp: connectedPass_def abs_server_def abs_sessions_def intro!: exI [of _ "abs_sessions ls"] serves_refl)
next
  case True
  then obtain slots ls1 ps where run: "processSessions E (ls_playerSessions ls) ls = Inr (slots, ls1)"
      and ls': "ls' = ls1\<lparr>ls_playerSessions := ps\<rparr>"
    using assms(1) by (auto simp: connectedPass_def andThen_eq_Inr Let_def)
  have "abs_server ls' = (abs_server ls)\<lparr>sp_sessions := abs_sessions ls1\<rparr>"
    using processSessions_serves [OF run] connectedPass_connections [OF assms] ls'
    by (simp add: abs_server_def abs_sessions_def) (simp add: abs_directory_def fun_eq_iff)
  then show ?thesis using processSessions_serves [OF run] by blast
qed

section \<open>Steps\<close>

text \<open>A turn of a connection, as steps of the abstract server.\<close>

lemma turn_simulated:
  assumes "turn_outcome c ls c' ls'" "server_inv ls" "i < length (ls_incomingConnections ls)"
    and "ls_incomingConnections ls ! i = c"
  shows "(spec_step (hosted_names ls))\<^sup>=\<^sup>= (abs_server ls)
    (abs_server (ls'\<lparr>ls_incomingConnections := (ls_incomingConnections ls)[i := c']\<rparr>))"
proof -
  let ?sp = "abs_server ls"
  have i: "i < length (sp_connections ?sp)" "sp_connections ?sp ! i = abs_connection c"
    using assms(3,4) by (simp_all add: abs_server_def)
  have conns: "map abs_connection ((ls_incomingConnections ls)[i := c']) = (sp_connections ?sp)[i := abs_connection c']"
    by (simp add: abs_server_def map_update)
  from assms(1) consider
    (stays) w where "abs_connection c' = abs_connection c" "ls' = ls\<lparr>ls_world := w\<rparr>"
  | (moves) w where "moves (abs_connection c) (abs_connection c')" "ls' = ls\<lparr>ls_world := w\<rparr>"
  | (login) session g w where "ic_state c = CHALLENGE_SENT \<or> ic_state c = LOGIN_FAILED"
      "abs_connection c' = (DONE, ic_loginAttempts c)" "ps_characterID session = 0"
      "ls' = (add_session session (ls\<lparr>ls_nextGUID := g\<rparr>))\<lparr>ls_world := w\<rparr>"
  | (registers) server where "ic_state c = MAP_WAIT_ACK" "abs_connection c' = (DONE, ic_loginAttempts c)"
      "mc_maps server \<noteq> []" "set (mc_maps server) \<subseteq> set (ls_allMaps ls)" "ls' = register_map_server server ls"
    unfolding turn_outcome_def by blast
  then show ?thesis
  proof cases
    case stays
    then have "(sp_connections ?sp)[i := abs_connection c'] = sp_connections ?sp" using i by (metis list_update_id)
    then show ?thesis using stays(2) conns by simp
  next
    case moves
    then show ?thesis using Move [OF i(1), of "abs_connection c'"] i(2) conns by simp
  next
    case (login session g w)
    have "ls_sessionHeap ls (ls_nextAddress ls) = None"
      using assms(2) by (auto simp: server_inv_def sessions_inv_def dom_def)
    then have "sp_sessions ?sp (ls_nextAddress ls) = None" by (simp add: abs_server_def)
    then show ?thesis
      using Login [OF i(1), of "ic_state c" "ic_loginAttempts c" "ls_nextAddress ls" "abs_session session"] login i(2)
      by (simp add: abs_server_add_session conns abs_connection_def) (simp add: abs_session_def)
  next
    case (registers server)
    have "lo_locationName ` set (mc_maps server) \<subseteq> hosted_names ls" "maps_inv ls"
      using registers(4) assms(2) by (auto simp: hosted_names_def server_inv_def)
    then show ?thesis
      using Register [OF i(1), of "ic_loginAttempts c" "lo_locationName ` set (mc_maps server)" "hosted_names ls"
          "server_instructions server"] registers i(2)
      by (simp add: abs_server_register conns abs_connection_def)
  qed
qed

lemma login_step_simulated:
  assumes "login_step E r r'" "run_inv r"
  shows "(spec_step (hosted_names (rn_server r)))\<^sup>=\<^sup>= (abs_run r) (abs_run r')"
    and "ls_allMaps (rn_server r') = ls_allMaps (rn_server r)"
    and "ls_mapIDToName (rn_server r') = ls_mapIDToName (rn_server r)"
proof -
  have inv: "login_inv (rn_server r)" "server_inv (rn_server r)"
    using assms(2) by (simp_all add: run_inv_def login_inv_def)
  have "(spec_step (hosted_names (rn_server r)))\<^sup>=\<^sup>= (abs_run r) (abs_run r')
    \<and> ls_allMaps (rn_server r') = ls_allMaps (rn_server r)
    \<and> ls_mapIDToName (rn_server r') = ls_mapIDToName (rn_server r)"
    using assms(1)
  proof (cases rule: login_step.cases)
    case Boot
    then show ?thesis using initDB_frame [of E "rn_server r"] by (auto simp: abs_run_def)
  next
    case (Accept socket)
    have "abs_connection (IncomingConnection_new socket) = (FRESH, 0)"
      by (simp add: abs_connection_def IncomingConnection_new_def)
    then show ?thesis
      using Accept Arrive [of "hosted_names (rn_server r)" "abs_run r"] by (simp add: abs_run_def accept_def)
  next
    case (Turn c' ls')
    let ?cs = "ls_incomingConnections (rn_server r)"
    have c: "conn_inv (ls_allMaps (rn_server r)) (?cs ! rn_cursor r)"
      using inv(1) Turn(2) by (simp add: login_inv_def)
    have static: "ls_allMaps ls' = ls_allMaps (rn_server r)" "ls_mapIDToName ls' = ls_mapIDToName (rn_server r)"
        "ls_incomingConnections ls' = ?cs"
      using dispatcher.step_keeps [OF UNIV_I c inv(2) Turn(3)] by (simp_all add: static_def)
    show ?thesis
      using turn_simulated [OF processConnection_outcome [OF Turn(3) c] inv(2) Turn(2) refl] Turn(1) static
      by (simp add: abs_run_def)
  next
    case (EndPass elapsed)
    have "map abs_connection (purge_done cs) = filter (\<lambda>x. fst x \<noteq> DONE) (map abs_connection cs)" for cs :: "'b incoming list"
      by (simp add: purge_done_def filter_map abs_connection_def comp_def)
    then show ?thesis
      using EndPass Purge [of "hosted_names (rn_server r)" "abs_run r"]
      by (cases "elapsed > DONE_PURGE_TIME") (auto simp: abs_run_def)
  next
    case (Connected elapsed active ls')
    then show ?thesis
      using connectedPass_serves [OF Connected(2) inv(1)] connectedPass_keeps(2) [OF Connected(2) inv(1)]
        connectedPass_names [OF Connected(2) inv(1)]
        Serve [of "abs_run r"]
      by (auto simp: abs_run_def abs_server_def abs_sessions_def)
  qed
  then show "(spec_step (hosted_names (rn_server r)))\<^sup>=\<^sup>= (abs_run r) (abs_run r')"
    "ls_allMaps (rn_server r') = ls_allMaps (rn_server r)"
    "ls_mapIDToName (rn_server r') = ls_mapIDToName (rn_server r)" by simp_all
qed

section \<open>Runs\<close>

text \<open>A simulation of steps, under an invariant of the implementation, is one of runs.\<close>

locale simulation =
  fixes inv :: "'c \<Rightarrow> bool" and step :: "'c \<Rightarrow> 'c \<Rightarrow> bool"
    and abstract :: "'c \<Rightarrow> 'a" and spec :: "'p \<Rightarrow> 'a \<Rightarrow> 'a \<Rightarrow> bool" and param :: "'c \<Rightarrow> 'p"
  assumes inv_step: "inv c \<Longrightarrow> step c c' \<Longrightarrow> inv c'"
    and param_step: "inv c \<Longrightarrow> step c c' \<Longrightarrow> param c' = param c"
    and simulates: "inv c \<Longrightarrow> step c c' \<Longrightarrow> (spec (param c))\<^sup>=\<^sup>= (abstract c) (abstract c')"
begin

lemma run_refines:
  assumes "step\<^sup>*\<^sup>* c c'" "inv c"
  shows "(spec (param c))\<^sup>*\<^sup>* (abstract c) (abstract c') \<and> inv c' \<and> param c' = param c"
  using assms(1)
proof (induction rule: rtranclp_induct)
  case (step d e)
  then have "(spec (param c))\<^sup>=\<^sup>= (abstract d) (abstract e)" using simulates [of d e] by simp
  then have "(spec (param c))\<^sup>*\<^sup>* (abstract c) (abstract e)"
    using step.IH by (auto intro: rtranclp.rtrancl_into_rtrancl)
  then show ?case using step inv_step param_step by metis
qed (use assms(2) in simp)

text \<open>What every abstract step preserves, the implementation preserves of its abstraction.\<close>

lemma preserved:
  assumes "step\<^sup>*\<^sup>* c c'" "inv c" "P (abstract c)"
    and "\<And>a a'. P a \<Longrightarrow> spec (param c) a a' \<Longrightarrow> P a'"
  shows "P (abstract c')"
proof -
  have "(spec (param c))\<^sup>*\<^sup>* (abstract c) (abstract c')" using run_refines [OF assms(1,2)] by blast
  then show ?thesis by (induction rule: rtranclp_induct) (use assms(3,4) in auto)
qed

end

interpretation login: simulation run_inv "login_step E" abs_run "\<lambda>p. spec_step (lo_locationName ` set (fst p))"
    "\<lambda>r. (ls_allMaps (rn_server r), ls_mapIDToName (rn_server r))"
  for E :: "('b, 's, 'k, 'w, 'm) platform_scheme"
proof
  fix r r' :: "('b, 's, 'k, 'w) running"
  assume *: "run_inv r" "login_step E r r'"
  show "run_inv r'" by (rule login_step_inv [OF *(2,1)])
  show "(ls_allMaps (rn_server r'), ls_mapIDToName (rn_server r')) = (ls_allMaps (rn_server r), ls_mapIDToName (rn_server r))"
    using login_step_simulated(2,3) [OF *(2,1)] by simp
  show "(spec_step (lo_locationName ` set (fst (ls_allMaps (rn_server r), ls_mapIDToName (rn_server r)))))\<^sup>=\<^sup>=
      (abs_run r) (abs_run r')"
    using login_step_simulated(1) [OF *(2,1)] by (simp add: hosted_names_def)
qed

lemma abs_run_start:
  assumes "run_start E details k w = Inr r"
  shows "abs_run r = spec_start"
proof -
  obtain ls ls2 paths where run: "LoginServer_new E details k w = Inr ls" "foldR (processMap E) paths ls = Inr ls2"
      and r: "rn_server r = ls2\<lparr>ls_mapServers := vec_reserve (length (ls_allMaps ls2)) (ls_mapServers ls2)\<rparr>"
    using assms by (auto simp: run_start_def LoginServer_run_def processMaps_def incomingChallenge_def andThen_eq_Inr deref_eq_Inr)
  have "pristine ls2"
    by (rule foldR_invariant [OF run(2), where P = pristine])
      (auto simp: pristine_new [OF run(1)] pristine_processMap)
  then show ?thesis
    by (auto simp: abs_run_def abs_server_def abs_directory_def spec_start_def r pristine_def fun_eq_iff)
qed

end
