(* ===== verification/LoginProgress.thy ===== *)
theory LoginProgress imports LoginSimulation begin

text \<open>
  How far a connection is from its end. Every turn in which its peer has sent something brings it
  closer, so that four such turns end a connection, whatever the others do.
\<close>

definition turns_left :: "incoming_state \<times> int \<Rightarrow> nat" where
  "turns_left x =
     (case fst x of
        FRESH \<Rightarrow> 4
      | CHALLENGE_SENT \<Rightarrow> 3
      | LOGIN_FAILED \<Rightarrow> nat (MAX_ATTEMPTS_ALLOWED - snd x)
      | MAP_LIST \<Rightarrow> 2
      | MAP_WAIT_ACK \<Rightarrow> 1
      | DONE \<Rightarrow> 0)"

lemma turns_left_four: "conn_inv maps c \<Longrightarrow> turns_left (abs_connection c) \<le> 4"
  by (auto simp: turns_left_def abs_connection_def conn_inv_def MAX_ATTEMPTS_ALLOWED_def split: incoming_state.splits)

lemma turns_left_none: "conn_inv maps c \<Longrightarrow> turns_left (abs_connection c) = 0 \<longleftrightarrow> ic_state c = DONE"
  by (auto simp: turns_left_def abs_connection_def conn_inv_def split: incoming_state.splits)

lemma moves_closer:
  assumes "moves (abs_connection c) y" "conn_inv maps c"
  shows "turns_left y < turns_left (abs_connection c)"
  using assms(1)
proof cases
  case (ended p n)
  then show ?thesis using turns_left_none [OF assms(2)] by (auto simp: turns_left_def abs_connection_def)
qed (use assms(2) in \<open>auto simp: turns_left_def abs_connection_def conn_inv_def MAX_ATTEMPTS_ALLOWED_def\<close>)

lemma outcome_closer:
  assumes "turn_outcome c ls c' ls'" "conn_inv maps c"
  shows "abs_connection c' = abs_connection c \<or> turns_left (abs_connection c') < turns_left (abs_connection c)"
proof -
  have "turns_left (DONE, n) < turns_left (abs_connection c)" if "ic_state c \<noteq> DONE" for n
    using turns_left_none [OF assms(2)] that by (simp add: turns_left_def)
  then show ?thesis
    using assms(1) moves_closer [of c "abs_connection c'", OF _ assms(2)] by (auto simp: turn_outcome_def)
qed

text \<open>The peer has sent something, and when it is a map server's request the answer can be sent.\<close>

definition talkative :: "('b, 's, 'm) socket_api_scheme \<Rightarrow> 's incoming \<Rightarrow> bool" where
  "talkative E c \<longleftrightarrow> (\<forall>s. ic_socket c = Some s \<longrightarrow> fst (so_hasActivity E s))"

definition can_answer :: "('b, 's, 'm) socket_api_scheme \<Rightarrow> 's incoming \<Rightarrow> bool" where
  "can_answer E c \<longleftrightarrow> (\<forall>s. ic_socket c = Some s \<longrightarrow>
     (let s1 = snd (so_getShort E (snd (so_recv E (Some 2048) (snd (so_hasActivity E s)))));
          (_, _, _, s2) = read_registration E s1
      in 0 < fst (reply E (MapServerRegistrationResponse_new E ''hello, world'') (so_clear E s2))))"

lemma login_packet_state:
  assumes "login_packet E json c ls = Inr (c', ls')"
  shows "ic_state c' = DONE \<or> ic_state c' = LOGIN_FAILED \<and> ic_loginAttempts c' = ic_loginAttempts c + 1"
proof -
  obtain authID ok c1 where run: "processLoginAttempt E authID c ls = Inr (ok, c1, ls')"
      and c': "c' = exhaust_attempts c1"
    using assms by (auto simp: login_packet_def andThen_eq_Inr)
  from run show ?thesis
    by (cases rule: processLoginAttempt_cases) (auto simp: c' exhaust_attempts_def)
qed

lemma lost_state [simp]:
  "ic_state (exhaust_attempts (lose_attempt E m s c)) \<noteq> CHALLENGE_SENT"
  "ic_loginAttempts (exhaust_attempts (lose_attempt E m s c)) = ic_loginAttempts c + 1"
  by (simp_all add: exhaust_attempts_def)

lemma processState_leaves:
  assumes "processState E ch c ls = Inr (c', ls')" "talkative E c" "can_answer E c" "conn_inv maps c" "ic_state c \<noteq> DONE"
  shows "abs_connection c' \<noteq> abs_connection c"
proof -
  obtain s where s: "ic_socket c = Some s" "fst (so_hasActivity E s)"
    using assms(2,4,5) conn_inv_socket unfolding talkative_def by blast
  have answer: "\<not> fst (reply E (MapServerRegistrationResponse_new E ''hello, world'') (so_clear E (snd (snd (snd
      (read_registration E (snd (so_getShort E (snd (so_recv E (Some 2048) (snd (so_hasActivity E s)))))))))))) \<le> 0"
    using assms(3) s(1) unfolding can_answer_def by (simp add: not_le case_prod_beta Let_def)
  show ?thesis
  proof (cases "ic_state c")
    case FRESH
    then show ?thesis
      using assms(1) s by (auto simp: processState_def processFreshSocket_def abs_connection_def case_prod_beta
          split: if_splits)
  next
    case CHALLENGE_SENT
    then have "ic_loginAttempts c = 0" using assms(4) by (simp add: conn_inv_def)
    then show ?thesis
      using assms(1) s CHALLENGE_SENT answer
      by (auto simp: processState_def processChallengeSentSocket_def processMapAuthenticationRequest_def
          abs_connection_def Let_def case_prod_beta exhaust_none dest!: login_packet_state split: if_splits)
  next
    case LOGIN_FAILED
    then show ?thesis
      using assms(1) s
      by (auto simp: processState_def processLoginFailedSocket_def
          abs_connection_def Let_def case_prod_beta dest!: login_packet_state split: if_splits)
  next
    case MAP_LIST
    then show ?thesis
      using assms(1) s
      by (auto simp: processState_def processMapListSocket_def
          abs_connection_def andThen_eq_Inr Let_def case_prod_beta split: if_splits)
  next
    case MAP_WAIT_ACK
    then show ?thesis
      using assms(1) s
      by (cases "fst (so_recv E None (snd (so_hasActivity E s))) = 0")
        (auto simp: processState_def processMapWaitAckSocket_def
          abs_connection_def andThen_eq_Inr Let_def case_prod_beta)
  qed (use assms(5) in simp)
qed

lemma processConnection_closer:
  assumes "processConnection E ch c ls = Inr (c', ls')" "talkative E c" "can_answer E c" "conn_inv (ls_allMaps ls) c"
  shows "turns_left (abs_connection c') \<le> turns_left (abs_connection c) - 1"
proof (cases "ic_state c = DONE")
  case True
  then show ?thesis
    using assms(1) by (auto simp: processConnection_def check_error_def processState_def processDoneSocket_def turns_left_def abs_connection_def)
next
  case False
  from check_error_cases [OF assms(4), of E] have "abs_connection c' \<noteq> abs_connection c"
  proof
    assume "check_error E c = Inr c"
    then show ?thesis
      using processState_leaves [OF _ assms(2-4) False] assms(1) by (simp add: processConnection_def)
  next
    assume "check_error E c = Inr (c\<lparr>ic_state := DONE\<rparr>)"
    then show ?thesis
      using assms(1) False
      by (auto simp: processConnection_def processState_def processDoneSocket_def abs_connection_def)
  qed
  then show ?thesis
    using outcome_closer [OF processConnection_outcome [OF assms(1,4)] assms(4)] by simp
qed

lemma processConnection_not_further:
  assumes "processConnection E ch c ls = Inr (c', ls')" "conn_inv (ls_allMaps ls) c"
  shows "turns_left (abs_connection c') \<le> turns_left (abs_connection c)"
  using outcome_closer [OF processConnection_outcome [OF assms] assms(2)] by auto

section \<open>Following one connection\<close>

text \<open>
  A connection is its place in the list, which a purge changes. \<open>life E r i n q p\<close>: in a run from \<open>r\<close> to \<open>q\<close>
  the connection that was at \<open>i\<close> has come to \<open>p\<close>, or a purge has removed it when it was done, and \<open>n\<close> of its turns
  found that its peer had sent something. A turn is a step that takes the pass from its place to the next; a
  pass that ends and changes the list has purged it.
\<close>

abbreviation conns :: "('b, 's, 'k, 'w) running \<Rightarrow> 's incoming list" where
  "conns r \<equiv> ls_incomingConnections (rn_server r)"

definition heard :: "('b, 's, 'm) socket_api_scheme \<Rightarrow> 's incoming \<Rightarrow> bool" where
  "heard E c \<longleftrightarrow> talkative E c \<and> can_answer E c"

definition turn_of :: "nat \<Rightarrow> ('b, 's, 'k, 'w) running \<Rightarrow> ('b, 's, 'k, 'w) running \<Rightarrow> bool" where
  "turn_of j q q' \<longleftrightarrow> rn_cursor q = j \<and> rn_cursor q' = Suc j"

definition purges :: "('b, 's, 'k, 'w) running \<Rightarrow> ('b, 's, 'k, 'w) running \<Rightarrow> bool" where
  "purges q q' \<longleftrightarrow> rn_cursor q = length (conns q) \<and> rn_cursor q' = 0 \<and> conns q \<noteq> [] \<and> conns q' \<noteq> conns q"

inductive life ::
  "('b, 's, 'k, 'w, 'm) platform_scheme \<Rightarrow> ('b, 's, 'k, 'w) running \<Rightarrow> nat
     \<Rightarrow> nat \<Rightarrow> ('b, 's, 'k, 'w) running \<Rightarrow> nat option \<Rightarrow> bool" for E r i where
  Now: "life E r i 0 r (Some i)"
| Own: "life E r i n q (Some j) \<Longrightarrow> login_step E q q' \<Longrightarrow> turn_of j q q' \<Longrightarrow>
    life E r i (if heard E (conns q ! j) then Suc n else n) q' (Some j)"
| Other: "life E r i n q (Some j) \<Longrightarrow> login_step E q q' \<Longrightarrow> \<not> turn_of j q q' \<Longrightarrow> \<not> purges q q' \<Longrightarrow>
    life E r i n q' (Some j)"
| Stays: "life E r i n q (Some j) \<Longrightarrow> login_step E q q' \<Longrightarrow> purges q q' \<Longrightarrow> ic_state (conns q ! j) \<noteq> DONE \<Longrightarrow>
    life E r i n q' (Some (length (filter (\<lambda>c. ic_state c \<noteq> DONE) (take j (conns q)))))"
| Leaves: "life E r i n q (Some j) \<Longrightarrow> login_step E q q' \<Longrightarrow> purges q q' \<Longrightarrow> ic_state (conns q ! j) = DONE \<Longrightarrow>
    life E r i n q' None"

lemma life_goes_on: "life E r i n q (Some j) \<Longrightarrow> login_step E q q' \<Longrightarrow> \<exists>m p. life E r i m q' p"
  by (cases "turn_of j q q'"; cases "purges q q'"; cases "ic_state (conns q ! j) = DONE")
    (blast intro: life.intros)+

text \<open>What a step does to the connection at a place.\<close>

lemma step_own:
  assumes "login_step E q q'" "run_inv q" "turn_of j q q'" "j < length (conns q)"
  shows "length (conns q') = length (conns q)
    \<and> (\<exists>ls'. processConnection E (rn_challenge q) (conns q ! j) (rn_server q) = Inr (conns q' ! j, ls'))"
  using assms(1)
proof (cases rule: login_step.cases)
  case (Turn c' ls')
  have inv: "conn_inv (ls_allMaps (rn_server q)) (conns q ! rn_cursor q)" "server_inv (rn_server q)"
    using assms(2) Turn(2) by (simp_all add: run_inv_def login_inv_def)
  have "ls_incomingConnections ls' = conns q"
    using dispatcher.step_keeps [OF UNIV_I inv Turn(3)] by (simp add: static_def)
  then show ?thesis using Turn assms(3,4) by (simp add: turn_of_def)
qed (use assms(3) in \<open>auto simp: turn_of_def\<close>)

lemma step_other:
  assumes "login_step E q q'" "run_inv q" "\<not> turn_of j q q'" "\<not> purges q q'" "j < length (conns q)"
  shows "j < length (conns q') \<and> conns q' ! j = conns q ! j"
  using assms(1)
proof (cases rule: login_step.cases)
  case Boot
  then show ?thesis using assms(5) by simp
next
  case (Accept socket)
  then show ?thesis using assms(5) by (simp add: accept_def nth_append)
next
  case (Turn c' ls')
  have inv: "conn_inv (ls_allMaps (rn_server q)) (conns q ! rn_cursor q)" "server_inv (rn_server q)"
    using assms(2) Turn(2) by (simp_all add: run_inv_def login_inv_def)
  have "ls_incomingConnections ls' = conns q"
    using dispatcher.step_keeps [OF UNIV_I inv Turn(3)] by (simp add: static_def)
  then show ?thesis using Turn assms(3,5) by (auto simp: turn_of_def)
next
  case (EndPass elapsed)
  then have "conns q' = conns q" using assms(4,5) by (auto simp: purges_def)
  then show ?thesis using assms(5) by simp
next
  case (Connected elapsed active ls')
  then show ?thesis
    using connectedPass_connections [OF Connected(2)] assms(2,5) by (simp add: run_inv_def)
qed

lemma filter_place:
  "j < length xs \<Longrightarrow> P (xs ! j) \<Longrightarrow>
   length (filter P (take j xs)) < length (filter P xs) \<and> filter P xs ! length (filter P (take j xs)) = xs ! j"
proof (induction xs arbitrary: j)
  case (Cons x xs)
  then show ?case by (cases j) auto
qed simp

lemma step_purges:
  assumes "login_step E q q'" "run_inv q" "purges q q'"
  shows "conns q' = filter (\<lambda>c. ic_state c \<noteq> DONE) (conns q)"
  using assms(1)
proof (cases rule: login_step.cases)
  case (Connected elapsed active ls')
  then show ?thesis using connectedPass_connections [OF Connected(2)] assms(2,3) by (simp add: purges_def run_inv_def)
qed (use assms(3) in \<open>auto simp: purges_def purge_done_def accept_def split: if_splits\<close>)

lemma life_closer:
  assumes "life E r i n q p" "run_inv r" "i < length (conns r)"
  shows "run_inv q \<and> (case p of None \<Rightarrow> True
    | Some j \<Rightarrow> j < length (conns q) \<and> turns_left (abs_connection (conns q ! j)) \<le> 4 - n)"
  using assms(1)
proof (induction rule: life.induct)
  case Now
  have "conn_inv (ls_allMaps (rn_server r)) (conns r ! i)"
    using assms(2,3) by (simp add: run_inv_def login_inv_def)
  then show ?case using assms(2,3) turns_left_four by simp
next
  case (Own n q j q')
  then have q: "run_inv q" "j < length (conns q)" "turns_left (abs_connection (conns q ! j)) \<le> 4 - n" by simp_all
  have c: "conn_inv (ls_allMaps (rn_server q)) (conns q ! j)" using q by (simp add: run_inv_def login_inv_def)
  obtain ls' where turn: "length (conns q') = length (conns q)"
      "processConnection E (rn_challenge q) (conns q ! j) (rn_server q) = Inr (conns q' ! j, ls')"
    using step_own [OF Own(2) q(1) Own(3) q(2)] by blast
  show ?case
    using processConnection_closer [OF turn(2) _ _ c] processConnection_not_further [OF turn(2) c] q turn(1)
      login_step_inv [OF Own(2) q(1)]
    by (auto simp: heard_def)
next
  case (Other n q j q')
  then have q: "run_inv q" "j < length (conns q)" by simp_all
  show ?case using step_other [OF Other(2) q(1) Other(3,4) q(2)] login_step_inv [OF Other(2) q(1)] Other.IH by simp
next
  case (Stays n q j q')
  then have q: "run_inv q" "j < length (conns q)" by simp_all
  show ?case
    using filter_place [OF q(2), of "\<lambda>c. ic_state c \<noteq> DONE"] Stays.hyps(4) Stays.IH login_step_inv [OF Stays(2) q(1)]
    by (simp add: step_purges [OF Stays(2) q(1) Stays(3)])
next
  case (Leaves n q j q')
  then show ?case using login_step_inv [OF Leaves(2)] by simp
qed

end
