(* ===== verification/SampleLogin.thy ===== *)
theory SampleLogin imports SampleRun LoginProgress begin

text \<open>Runs of the sample server with one peer: the super user logs in; a map server registers.\<close>

section \<open>The super user\<close>

definition sample_super :: auth_identity where
  "sample_super = \<lparr>ai_username = superUserID, ai_password = [116, 101, 115, 116, 97]\<rparr>"

definition sample_knock :: string where
  "sample_knock = pk_buffer (AuthenticationIdentity_new sample_platform sample_super)"

lemma sample_super_opens:
  "decryptStringPrivate sample_platform sample_keys (ai_password sample_super) = Inr superUserPassword"
  by (simp add: decryptStringPrivate_def sample_keys_def sample_super_def superUserPassword_def
      byte_char_def char_of_def bit_Suc_0_iff)

text \<open>The account that \<open>initDB\<close> stores.\<close>

lemma sample_super_account:
  obtains p where "sw_players (ls_world (rn_server sample_booted)) = [p]" "pl_username p = superUserID" "\<not> pl_locked p"
    "pl_id p = 1"
    "pl_password p = sha256ToString (hashPasswordSHA256 sample_platform (ls_hasher (rn_server sample_booted))
       superUserPassword (stringToSalt (pl_salt p)))"
proof -
  define p where "p = (Player_new superUserID
      (sha256ToString (hashPasswordSHA256 sample_platform \<lparr>iterationCount = 32000\<rparr> superUserPassword
         (replicate DEFAULT_SALT_BYTES 7))) (saltToString (replicate DEFAULT_SALT_BYTES 7)))
      \<lparr>pl_id := 1, pl_joinDate := Some 0, pl_lastLogin := Some 0\<rparr>"
  have "db_player_count sample_platform (db_begin sample_platform (ls_world sample_server))
      = (0, sample_note ''begin'' (ls_world sample_server))"
    by (simp add: sample_server_def sample_world_1_def sample_world_0_def sample_world_of_def sample_note_def)
  then have init: "initDB sample_platform sample_server = sample_server\<lparr>ls_world := sample_note ''commit''
      ((sample_note ''begin'' (ls_world sample_server))\<lparr>sw_players := [p]\<rparr>)\<rparr>"
    unfolding initDB_def
    by (simp add: generateSalt_def Let_def p_def del: replicate.simps)
      (simp add: sample_note_def sample_server_def sample_world_1_def sample_world_0_def sample_world_of_def)
  have "stringToSalt (saltToString (replicate DEFAULT_SALT_BYTES 7)) = replicate DEFAULT_SALT_BYTES 7"
    using salt.read_render [of "replicate DEFAULT_SALT_BYTES 7"] by (simp del: replicate.simps)
  then have "pl_password p = sha256ToString (hashPasswordSHA256 sample_platform (ls_hasher (rn_server sample_booted))
       superUserPassword (stringToSalt (pl_salt p)))"
    by (simp add: p_def sample_booted_def init) (simp add: sample_server_def)
  then show thesis
    by (rule that [rotated 4]) (simp_all add: sample_booted_def init sample_note_def p_def)
qed

lemma sample_knock_login:
  assumes "ls_crypto ls = Some sample_keys" "sw_players (ls_world ls) = [p]" "pl_username p = superUserID"
    "\<not> pl_locked p" "pl_id p = 1"
    "pl_password p = sha256ToString (hashPasswordSHA256 sample_platform (ls_hasher ls) superUserPassword
       (stringToSalt (pl_salt p)))"
  shows "\<exists>c' session g v. processConnection sample_platform ch (sample_challenged [sample_knock] sent) ls
      = Inr (c', (add_session session (ls\<lparr>ls_nextGUID := g\<rparr>))\<lparr>ls_world := v\<rparr>)
    \<and> ps_username session = superUserID"
proof -
  let ?E = sample_platform and ?s = "sample_sock [sample_knock] sent"
  let ?s1 = "?s\<lparr>sk_peer := [], sk_buf := sample_knock\<rparr>"
  have fits: "length (toJSON ?E (identity_events sample_super)) < 65536"
    by (simp add: identity_events_def json_text_eval sample_super_def superUserID_def put_hex2_def hex_char_def)
  have "length sample_knock \<le> 2048" "sample_knock \<noteq> []"
    by (simp_all add: sample_knock_def AuthenticationIdentity_new_def pkSized_def pkString_def pkShort_def
        ClientPacket_new_def Packet_new_def identity_events_def json_text_eval sample_super_def superUserID_def
        put_hex2_def hex_char_def)
  then have recv: "so_recv ?E (Some 2048) ?s = (int (length sample_knock), ?s1)" "sample_knock \<noteq> []"
    by (simp_all add: sample_sock_def sample_recv_def)
  have "identity_view sample_super = sample_super"
    by (simp add: identity_view_def sample_super_def superUserID_def)
  moreover have "sk_buf ?s1 = pk_buffer (pkSized ?E (toJSON ?E (identity_events sample_super))
      (Packet_new ?E (client_opcode LOGIN_AUTHENTICATION_IDENTITY) CLIENT)) @ []"
    by (simp del: sample_simps add: sample_knock_def AuthenticationIdentity_new_def ClientPacket_new_def)
  note identity.frame_round_trip [OF sample_fifo_put sample_fifo_get sample_docs(2) fits this]
  ultimately have frame: "fst (read_frame ?E ?s1) = client_opcode LOGIN_AUTHENTICATION_IDENTITY"
      "fromJSON ?E identity_decode (fst (snd (read_frame ?E ?s1))) = Inr sample_super"
    by simp_all
  let ?t = "so_clear ?E (snd (snd (read_frame ?E ?s1)))"
  let ?c = "(sample_challenged [sample_knock] sent)\<lparr>ic_socket := Some ?t\<rparr>"
  let ?w = "sample_note ''begin'' (ls_world ls)"
  have found: "db_players_by_username ?E (ai_username sample_super) (db_begin ?E (ls_world ls)) = ([p], ?w)"
    "fst (db_load_player ?E (pl_id p) (db_begin ?E (db_commit ?E (snd (rnd_getDiceRoll ?E ?w))))) \<noteq> None"
    using assms(2,3,5) by (simp_all add: sample_note_def sample_super_def)
  have opens: "decryptStringPrivate ?E sample_keys (ai_password sample_super) = Inr superUserPassword"
    "ic_socket ?c = Some ?t"
    by (rule sample_super_opens) (simp del: sample_simps)
  obtain session g v where attempt: "processLoginAttempt ?E sample_super ?c ls
      = Inr (True, ?c\<lparr>ic_socket := None, ic_state := DONE\<rparr>, (add_session session (ls\<lparr>ls_nextGUID := g\<rparr>))\<lparr>ls_world := v\<rparr>)"
      "ps_username session = ai_username sample_super"
    using processLoginAttempt_succeeds [OF assms(1) opens found(1) assms(4,6) found(2)] by blast
  have "ic_socket (sample_challenged [sample_knock] sent) = Some ?s" "so_hasActivity ?E ?s = (True, ?s)"
      "ic_state (sample_challenged [sample_knock] sent) = CHALLENGE_SENT" "\<not> so_hasError ?E ?s"
    by (simp_all add: sample_challenged_def IncomingConnection_new_def) (simp_all add: sample_sock_def)
  then have "processConnection ?E ch (sample_challenged [sample_knock] sent) ls
      = login_packet ?E (fst (snd (read_frame ?E ?s1))) ?c ls"
    using recv frame(1)
    by (simp add: processConnection_def check_error_def processState_def processChallengeSentSocket_def
        read_frame_def case_prod_beta Let_def del: sample_simps)
  then have "\<exists>c'. processConnection ?E ch (sample_challenged [sample_knock] sent) ls
      = Inr (c', (add_session session (ls\<lparr>ls_nextGUID := g\<rparr>))\<lparr>ls_world := v\<rparr>)"
    by (simp add: login_packet_def frame(2) attempt(1) del: sample_simps)
  moreover have "ps_username session = superUserID" using attempt(2) by (simp add: sample_super_def)
  ultimately show ?thesis by blast
qed

text \<open>A turn of the first connection, from the start of a pass.\<close>

lemma sample_first_steps:
  fixes r :: "(string, sample_socket, unit, sample_world) running"
  defines "t \<equiv> \<lambda>ls' c'. r\<lparr>rn_server := ls'\<lparr>ls_incomingConnections := [c']\<rparr>, rn_cursor := 1\<rparr>"
  assumes "login_reachable sample_platform r" "rn_cursor r = 0" "ls_incomingConnections (rn_server r) = [c]"
    and "processConnection sample_platform (rn_challenge r) c (rn_server r) = Inr (c', ls')"
  shows "login_step sample_platform r (t ls' c')" "login_step sample_platform (t ls' c') ((t ls' c')\<lparr>rn_cursor := 0\<rparr>)"
proof -
  have "conn_inv (ls_allMaps (rn_server r)) c" "server_inv (rn_server r)"
    using login_reachable_inv [OF assms(2)] assms(4) by (simp_all add: run_inv_def login_inv_def)
  then have conns: "ls_incomingConnections ls' = [c]"
    using dispatcher.step_keeps [OF UNIV_I _ _ assms(5)] assms(4) by (simp add: static_def)
  show "login_step sample_platform r (t ls' c')"
    using Turn [of r sample_platform c' ls'] assms(3-5) conns by (simp add: t_def)
  show "login_step sample_platform (t ls' c') ((t ls' c')\<lparr>rn_cursor := 0\<rparr>)"
    using EndPass [of "t ls' c'" sample_platform 0] by (simp add: t_def DONE_PURGE_TIME_def)
qed

lemma sample_first_turn:
  assumes "login_reachable sample_platform r" "rn_cursor r = 0" "ls_incomingConnections (rn_server r) = [c]"
    and "processConnection sample_platform (rn_challenge r) c (rn_server r) = Inr (c', ls')"
  shows "login_reachable sample_platform (r\<lparr>rn_server := ls'\<lparr>ls_incomingConnections := [c']\<rparr>, rn_cursor := 0\<rparr>)"
  using sample_first_steps [OF assms] assms(1) by (auto dest: login_reachable_step)

lemma sample_first_life:
  assumes "login_reachable sample_platform r" "rn_cursor r = 0" "ls_incomingConnections (rn_server r) = [c]"
    and "processConnection sample_platform (rn_challenge r) c (rn_server r) = Inr (c', ls')"
    and "life sample_platform r0 0 n r (Some 0)" "heard sample_platform c"
  shows "life sample_platform r0 0 (Suc n) (r\<lparr>rn_server := ls'\<lparr>ls_incomingConnections := [c']\<rparr>, rn_cursor := 0\<rparr>) (Some 0)"
proof -
  let ?t = "r\<lparr>rn_server := ls'\<lparr>ls_incomingConnections := [c']\<rparr>, rn_cursor := 1\<rparr>"
  note steps = sample_first_steps [OF assms(1-4)]
  have "life sample_platform r0 0 (Suc n) ?t (Some 0)"
    using life.Own [OF assms(5) steps(1)] assms(2,3,6) by (simp add: turn_of_def)
  then show ?thesis
    using life.Other [OF _ steps(2)] by (simp add: turn_of_def purges_def)
qed

lemma sample_booted_static:
  "ls_crypto (rn_server sample_booted) = Some sample_keys" "ls_sessionHeap (rn_server sample_booted) = (\<lambda>_. None)"
  "ls_nextAddress (rn_server sample_booted) = 0" "rn_cursor sample_booted = 0"
  using initDB_frame [of sample_platform sample_server]
  by (auto simp: sample_booted_def sample_server_def sample_run_def)

text \<open>The super user is logged in.\<close>

lemma sample_login_reachable:
  "\<exists>r s. login_reachable sample_platform r \<and> ls_sessionHeap (rn_server r) 0 = Some s \<and> ps_username s = superUserID"
proof -
  let ?E = sample_platform and ?r = "sample_accepted [sample_sock [sample_knock] []]"
  let ?c = "sample_challenged [sample_knock] (pk_buffer (rn_challenge ?r))"
  let ?ls = "rn_server ?r\<lparr>ls_incomingConnections := [?c]\<rparr>"
  obtain p where p: "sw_players (ls_world (rn_server sample_booted)) = [p]" "pl_username p = superUserID" "\<not> pl_locked p"
      "pl_id p = 1" "pl_password p = sha256ToString (hashPasswordSHA256 ?E (ls_hasher (rn_server sample_booted))
         superUserPassword (stringToSalt (pl_salt p)))"
    by (rule sample_super_account)
  have srv: "rn_server ?r = rn_server sample_booted\<lparr>ls_incomingConnections := [IncomingConnection_new (sample_sock [sample_knock] [])]\<rparr>"
    by (simp add: sample_accepted_def accept_def sample_booted_server)
  have cur: "rn_cursor ?r = 0" by (simp add: sample_accepted_def sample_booted_static)
  have one: "login_reachable ?E (?r\<lparr>rn_server := ?ls, rn_cursor := 0\<rparr>)"
    using sample_first_turn [OF sample_accepted_reachable cur, of "IncomingConnection_new (sample_sock [sample_knock] [])"
        ?c "rn_server ?r"] sample_turn_fresh [of "rn_challenge ?r" "[sample_knock]" "[]" "rn_server ?r"]
    by (simp add: sample_accepted_connections del: sample_simps)
  have "ls_crypto ?ls = Some sample_keys" "sw_players (ls_world ?ls) = [p]" "pl_password p =
      sha256ToString (hashPasswordSHA256 ?E (ls_hasher ?ls) superUserPassword (stringToSalt (pl_salt p)))"
    using p(1,5) by (simp_all add: srv sample_booted_static del: sample_simps)
  then obtain c' session g v where turn: "processConnection ?E (rn_challenge ?r) ?c ?ls
      = Inr (c', (add_session session (?ls\<lparr>ls_nextGUID := g\<rparr>))\<lparr>ls_world := v\<rparr>)" "ps_username session = superUserID"
    using sample_knock_login [OF _ _ p(2-4)] by blast
  have "ls_sessionHeap ((add_session session (?ls\<lparr>ls_nextGUID := g\<rparr>))\<lparr>ls_world := v\<rparr>) 0 = Some session"
    by (simp add: srv sample_booted_static)
  then show ?thesis
    using sample_first_turn [OF one _ _ _] turn by (intro exI conjI) (auto simp del: sample_simps)
qed

section \<open>One map server\<close>

lemma sample_open_can_answer:
  assumes "\<And>s. ic_socket c = Some s \<Longrightarrow> sk_open s"
  shows "can_answer sample_platform c"
proof -
  have "sk_open (snd (sample_recv n s)) = sk_open s" "sk_open (snd (sample_getString k s)) = sk_open s" for n k s
    by (simp_all add: sample_recv_def sample_getString_def Let_def split: list.split)
  then show ?thesis
    using assms
    by (auto simp: can_answer_def case_prod_beta Let_def read_registration_def sample_reply
        MapServerRegistrationResponse_new_def pkSized_def pkString_def pkShort_def ServerPacket_new_def Packet_new_def)
qed

text \<open>The four turns of a map server, on a server with the sample's map.\<close>

lemma sample_map_server_turns:
  assumes "ls_allMaps ls = [sample_location]" "ls_mapNameToConnection ls = (\<lambda>_. None)"
  obtains c1 c2 c3 s where
    "processConnection sample_platform ch (IncomingConnection_new sample_map_socket) ls = Inr (c1, ls)"
    "processConnection sample_platform ch c1 ls = Inr (c2, ls)"
    "processConnection sample_platform ch c2 ls = Inr (c3, ls)"
    "processConnection sample_platform ch c3 ls
       = Inr (sample_conn None DONE (Some []), register_map_server (sample_registered s) ls)"
    "talkative sample_platform c1 \<and> can_answer sample_platform c1"
    "talkative sample_platform c2 \<and> can_answer sample_platform c2"
    "talkative sample_platform c3 \<and> can_answer sample_platform c3"
proof -
  let ?c1 = "sample_challenged [sample_m1, sample_m2, sample_m3] ([] @ pk_buffer ch)"
  obtain s2 where two: "processConnection sample_platform ch ?c1 ls
      = Inr (sample_conn (Some (sample_sock [sample_m2, sample_m3] s2)) MAP_LIST None, ls)"
    using sample_turn_registration by blast
  obtain s3 where three: "processConnection sample_platform ch
        (sample_conn (Some (sample_sock [sample_m2, sample_m3] s2)) MAP_LIST None) ls
      = Inr (sample_conn (Some (sample_sock [sample_m3] s3)) MAP_WAIT_ACK (Some [sample_location]), ls)"
    using sample_turn_list [OF assms] by blast
  obtain s where four: "processConnection sample_platform ch
        (sample_conn (Some (sample_sock [sample_m3] s3)) MAP_WAIT_ACK (Some [sample_location])) ls
      = Inr (sample_conn None DONE (Some []), register_map_server (sample_registered s) ls)"
    using sample_turn_ack by blast
  have one: "processConnection sample_platform ch (IncomingConnection_new sample_map_socket) ls = Inr (?c1, ls)"
    unfolding sample_map_socket_def by (rule sample_turn_fresh)
  have "talkative sample_platform c \<and> can_answer sample_platform c"
    if "c \<in> {?c1, sample_conn (Some (sample_sock [sample_m2, sample_m3] s2)) MAP_LIST None,
      sample_conn (Some (sample_sock [sample_m3] s3)) MAP_WAIT_ACK (Some [sample_location])}" for c
    using that sample_open_can_answer [of c]
    by (auto simp: talkative_def sample_challenged_def sample_conn_def IncomingConnection_new_def sample_sock_def)
  then show thesis by (intro that [OF one two three four]) simp_all
qed

lemma sample_map_server_life:
  "\<exists>r s c. life sample_platform (sample_accepted [sample_map_socket]) 0 3 r (Some 0)
     \<and> login_reachable sample_platform r \<and> rn_cursor r = 0 \<and> rn_server r = with_connections [c] (rn_server sample_booted)
     \<and> heard sample_platform c
     \<and> processConnection sample_platform (rn_challenge r) c (rn_server r)
         = Inr (sample_conn None DONE (Some []),
             with_connections [c] (register_map_server (sample_registered s) (rn_server sample_booted)))"
proof -
  let ?E = sample_platform and ?r = "sample_accepted [sample_map_socket]" and ?b = "rn_server sample_booted"
  let ?ch = "rn_challenge ?r" and ?c0 = "IncomingConnection_new sample_map_socket"
  let ?run = "\<lambda>c. ?r\<lparr>rn_server := with_connections [c] ?b, rn_cursor := 0\<rparr>"
  obtain c1 c2 c3 s where turn: "processConnection ?E ?ch ?c0 ?b = Inr (c1, ?b)"
      "processConnection ?E ?ch c1 ?b = Inr (c2, ?b)" "processConnection ?E ?ch c2 ?b = Inr (c3, ?b)"
      "processConnection ?E ?ch c3 ?b = Inr (sample_conn None DONE (Some []), register_map_server (sample_registered s) ?b)"
    and talk: "talkative ?E c1 \<and> can_answer ?E c1" "talkative ?E c2 \<and> can_answer ?E c2"
      "talkative ?E c3 \<and> can_answer ?E c3"
    by (rule sample_map_server_turns [OF sample_booted_server(1,2)])
  have heard: "heard ?E ?c0" "heard ?E c1" "heard ?E c2" "heard ?E c3"
    using talk sample_open_can_answer [of ?c0]
    by (simp_all add: heard_def talkative_def IncomingConnection_new_def sample_map_socket_def sample_sock_def)
  have "?r = ?run ?c0"
    by (simp add: sample_accepted_def accept_def with_connections_def sample_booted_server sample_booted_static)
  then have start: "login_reachable ?E (?run ?c0) \<and> life ?E ?r 0 0 (?run ?c0) (Some 0)"
    using sample_accepted_reachable [of "[sample_map_socket]"] life.Now [of ?E ?r 0] by (simp del: sample_simps)
  have step: "login_reachable ?E (?run d) \<and> life ?E ?r 0 (Suc n) (?run d) (Some 0)"
    if "login_reachable ?E (?run c) \<and> life ?E ?r 0 n (?run c) (Some 0)" "processConnection ?E ?ch c ?b = Inr (d, ?b)"
      "heard ?E c" for c d n
    using sample_first_turn [of "?run c" c d "with_connections [c] ?b"]
      sample_first_life [of "?run c" c d "with_connections [c] ?b" ?r n] that
      processConnection_frame [of ?E ?ch c "[c]" ?b]
    by (simp add: with_connections_def del: sample_simps)
  from step [OF step [OF step [OF start turn(1) heard(1)] turn(2) heard(2)] turn(3) heard(3)]
  show ?thesis
    using turn(4) heard(4) processConnection_frame [of ?E ?ch c3 "[c3]" ?b]
    by (intro exI [of _ "?run c3"] exI [of _ s] exI [of _ c3]) (simp add: eval_nat_numeral del: sample_simps)
qed

lemma sample_registered_reachable:
  "\<exists>r s. login_reachable sample_platform r \<and> rn_cursor r = 0
     \<and> rn_server r = with_connections [sample_conn None DONE (Some [])]
          (register_map_server (sample_registered s) (rn_server sample_booted))"
proof -
  obtain r s c where r: "login_reachable sample_platform r" "rn_cursor r = 0"
      "rn_server r = with_connections [c] (rn_server sample_booted)"
      "processConnection sample_platform (rn_challenge r) c (rn_server r)
         = Inr (sample_conn None DONE (Some []),
             with_connections [c] (register_map_server (sample_registered s) (rn_server sample_booted)))"
    using sample_map_server_life by blast
  have "conns r = [c]" by (simp add: r(3) with_connections_def)
  from sample_first_turn [OF r(1,2) this r(4)] show ?thesis
    by (intro exI conjI, assumption) (simp_all add: with_connections_def)
qed

end
