(* ===== verification/LoginProperties.thy ===== *)
theory LoginProperties imports SampleLogin begin

text \<open>
  The properties of the login server: the invariants of everything it can reach, what can stop it,
  and the functional behaviour of authentication, of map server registration and of the choice of
  a character. A sample server on the sample platform shows that the hypotheses can hold.
\<close>

section \<open>Invariants of the run\<close>

text \<open>C6: In every state the running login server can reach, whatever clients send and however the threads
  interleave, each connection is as its state promises: it owns its socket unless it is done, at most
  three attempts are counted, a connection waiting for an acknowledgement has its details and a non-empty
  list of maps, all of them maps of this server.\<close>

theorem reachable_connections:
  assumes "login_reachable E r" and "c \<in> set (ls_incomingConnections (rn_server r))"
  shows "(ic_socket c = None \<longrightarrow> ic_state c = DONE)
    \<and> 0 \<le> ic_loginAttempts c \<and> ic_loginAttempts c \<le> MAX_ATTEMPTS_ALLOWED
    \<and> (ic_state c = LOGIN_FAILED \<longrightarrow> 1 \<le> ic_loginAttempts c \<and> ic_loginAttempts c < MAX_ATTEMPTS_ALLOWED)
    \<and> (ic_state c \<in> {MAP_LIST, MAP_WAIT_ACK} \<longrightarrow> ic_mapServerFriendlyName c \<noteq> None
        \<and> ic_mapServerPort c \<noteq> None \<and> ic_mapServerListenAddress c \<noteq> None)
    \<and> (ic_state c = MAP_WAIT_ACK \<longrightarrow>
        (\<exists>ms. ic_maps c = Some ms \<and> ms \<noteq> [] \<and> set ms \<subseteq> set (ls_allMaps (rn_server r))))"
proof -
  have "conn_inv (ls_allMaps (rn_server r)) c"
    using login_reachable_inv [OF assms(1)] assms(2) by (simp add: run_inv_def login_inv_def)
  then show ?thesis
    using conn_inv_attempts [of "ls_allMaps (rn_server r)" c]
    by (auto simp: conn_inv_def registered_details_def split: option.splits)
qed

lemma reachable_connections_witness:
  "ic_loginAttempts (IncomingConnection_new (sample_peer [''x''])) \<le> MAX_ATTEMPTS_ALLOWED
   \<and> login_reachable sample_platform (sample_accepted [sample_peer [''x'']])"
  using reachable_connections [OF sample_accepted_reachable [of "[sample_peer [''x'']]"],
      of "IncomingConnection_new (sample_peer [''x''])"]
  by (simp add: sample_accepted_connections sample_accepted_reachable)

text \<open>C8: In every reachable state the session list has no null and no repeated pointer and owns exactly the
  allocated sessions, and every entry of the index by user name points to a live session of that user.\<close>

theorem reachable_sessions:
  assumes "login_reachable E r"
  shows "None \<notin> set (ls_playerSessions (rn_server r)) \<and> distinct (ls_playerSessions (rn_server r))
    \<and> dom (ls_sessionHeap (rn_server r)) = owned (rn_server r)
    \<and> (\<forall>u a. ls_usernameToPlayerSession (rn_server r) u = Some a \<longrightarrow>
         Some a \<in> set (ls_playerSessions (rn_server r)) \<and>
         (\<exists>s. ls_sessionHeap (rn_server r) a = Some s \<and> ps_username s = u))"
proof -
  have s: "sessions_inv (rn_server r)"
    using login_reachable_inv [OF assms] by (simp add: run_inv_def login_inv_def server_inv_def)
  have "Some a \<in> set (ls_playerSessions (rn_server r))" if "ls_usernameToPlayerSession (rn_server r) u = Some a" for u a
  proof -
    have "\<exists>t. ls_sessionHeap (rn_server r) a = Some t \<and> ps_username t = u"
      using s that by (simp add: sessions_inv_def)
    then have "a \<in> dom (ls_sessionHeap (rn_server r))" by auto
    then show ?thesis using s by (simp add: sessions_inv_def owned_def)
  qed
  then show ?thesis using s by (auto simp: sessions_inv_def)
qed

lemma reachable_sessions_witness:
  "\<exists>r s. login_reachable sample_platform r \<and> ls_sessionHeap (rn_server r) 0 = Some s \<and> ps_username s = superUserID
     \<and> Some 0 \<in> set (ls_playerSessions (rn_server r)) \<and> distinct (ls_playerSessions (rn_server r))"
proof -
  obtain r s where r: "login_reachable sample_platform r" "ls_sessionHeap (rn_server r) 0 = Some s"
      "ps_username s = superUserID"
    using sample_login_reachable by blast
  have "0 \<in> dom (ls_sessionHeap (rn_server r))" using r(2) by blast
  then show ?thesis using r reachable_sessions [OF r(1)] by (auto simp: owned_def)
qed

text \<open>C9: In every reachable state an entry of the index of map servers leads to a server that offers the map,
  and its pointer is valid as long as no more map servers have registered than the server has maps.\<close>

theorem reachable_map_servers:
  assumes "login_reachable E r" and "ls_mapNameToConnection (rn_server r) name = Some p"
  shows "offers (v_elems (ls_mapServers (rn_server r)) ! snd p) name
    \<and> name \<in> lo_locationName ` set (ls_allMaps (rn_server r))
    \<and> (vec_deref (ls_mapServers (rn_server r)) p = Inr (v_elems (ls_mapServers (rn_server r)) ! snd p)
       \<or> length (ls_allMaps (rn_server r)) < length (v_elems (ls_mapServers (rn_server r))))"
proof -
  have m: "maps_inv (rn_server r)"
    using login_reachable_inv [OF assms(1)] by (simp add: run_inv_def login_inv_def server_inv_def)
  have e: "snd p < length (v_elems (ls_mapServers (rn_server r)))"
      "offers (v_elems (ls_mapServers (rn_server r)) ! snd p) name"
      "length (v_elems (ls_mapServers (rn_server r))) \<le> length (ls_allMaps (rn_server r)) \<longrightarrow>
         vec_valid (ls_mapServers (rn_server r)) p"
    using m assms(2) by (cases p; auto simp: maps_inv_def)+
  have "set (mc_maps (v_elems (ls_mapServers (rn_server r)) ! snd p)) \<subseteq> set (ls_allMaps (rn_server r))"
    using m nth_mem [OF e(1)] by (simp add: maps_inv_def)
  then have "name \<in> lo_locationName ` set (ls_allMaps (rn_server r))"
    using e(2) by (auto simp: offers_def)
  then show ?thesis using e by (auto simp: vec_deref_def)
qed

lemma reachable_map_servers_witness:
  "\<exists>s t. offers (sample_registered s) ''town'' \<and> login_reachable sample_platform
     \<lparr>rn_server = sample_two s t, rn_booted = True, rn_challenge = rn_challenge sample_run, rn_cursor = 0\<rparr>"
proof -
  obtain s t where r: "login_reachable sample_platform
     \<lparr>rn_server = sample_two s t, rn_booted = True, rn_challenge = rn_challenge sample_run, rn_cursor = 0\<rparr>"
    using sample_two_reachable by blast
  show ?thesis
    using reachable_map_servers [OF r, of "''town''" "(1, 0)"] r
    by (auto simp: sample_two_dangles)
qed

text \<open>C10: The bound of the previous property can be exceeded: two map servers that offer the same map are both
  asked for it before either acknowledges, the second acknowledgement reallocates the vector, and the entry
  of the first dangles, in a state the server reaches.\<close>

theorem index_can_dangle:
  "\<exists>r name p. login_reachable sample_platform r \<and> ls_mapNameToConnection (rn_server r) name = Some p
     \<and> vec_deref (ls_mapServers (rn_server r)) p = Inl DanglingPointer"
proof -
  obtain s t where "login_reachable sample_platform
     \<lparr>rn_server = sample_two s t, rn_booted = True, rn_challenge = rn_challenge sample_run, rn_cursor = 0\<rparr>"
    using sample_two_reachable by blast
  then show ?thesis
    using sample_two_dangles [of s t] by (metis running.select_convs(1))
qed

section \<open>What can stop the server\<close>

text \<open>C7: From any reachable state the only faults are those a peer or the database causes, a packet that is not
  the JSON its reader asserts, hexadecimal text of odd length, an account that vanished between two
  transactions, and, once more map servers have registered than there are maps, a dangling pointer. No null
  pointer is followed and no REQUIRE fails.\<close>

theorem reachable_faults:
  assumes "login_reachable E r" and "login_fault E r e"
  shows "e \<in> {JsonPrecondition, AssertFailed, DbException}
    \<or> e = DanglingPointer \<and> length (ls_allMaps (rn_server r)) < length (v_elems (ls_mapServers (rn_server r)))"
  using login_fault_kinds [OF assms(2) login_reachable_inv [OF assms(1)]]
  by (auto simp: input_fault_def overfull_def)

lemma reachable_faults_witness:
  "\<exists>e. e \<in> {JsonPrecondition, AssertFailed, DbException, DanglingPointer}
     \<and> (\<exists>r. login_reachable sample_platform r \<and> login_fault sample_platform r e)"
proof -
  obtain r where r: "login_reachable sample_platform r" "login_fault sample_platform r JsonPrecondition"
    using sample_garbage_reachable by blast
  show ?thesis using reachable_faults [OF r] r by blast
qed

text \<open>A turn of the incoming thread never takes a connection back to an earlier state of the protocol, and a
  connection that is done stays done.\<close>

theorem connection_moves_forward:
  assumes "conn_inv (ls_allMaps ls) c" "server_inv ls" "processConnection E challenge c ls = Inr (c', ls')"
  shows "ic_state c \<le> ic_state c' \<and> (ic_state c = DONE \<longrightarrow> c' = c \<and> ls' = ls)"
  using dispatcher.forward [OF UNIV_I assms] assms(3)
  by (auto simp: processConnection_def check_error_def processState_def processDoneSocket_def)

lemma sample_booted_inv: "login_inv (rn_server (sample_accepted ss))"
  using login_reachable_inv [OF sample_accepted_reachable] by (simp add: run_inv_def)

lemma connection_moves_forward_witness:
  "FRESH \<le> ic_state (sample_challenged [] (pk_buffer (rn_challenge sample_run)))"
proof -
  let ?c = "IncomingConnection_new (sample_sock [] [])" and ?ls = "rn_server (sample_accepted [])"
  have "processConnection sample_platform (rn_challenge sample_run) ?c ?ls
      = Inr (sample_challenged [] (pk_buffer (rn_challenge sample_run)), ?ls)"
    using sample_turn_fresh [of _ "[]" "[]"] by simp
  from connection_moves_forward [OF conn_inv_new _ this] show ?thesis
    using sample_booted_inv [of "[]"] by (simp add: login_inv_def IncomingConnection_new_def)
qed

end
