(* ===== verification/PacketProperties.thy ===== *)
theory PacketProperties imports SampleRun begin

text \<open>What the packets owe: bytes as text and back, frames through a socket, and what is lost on the way.\<close>

section \<open>Bytes as text\<close>

text \<open>C36: Every byte string survives the hexadecimal text it is sent or stored as: passwords in JSON
  (lower case), salts and password hashes in the database (upper case). A hash that was stored is read
  back whatever the array held before.\<close>

theorem hex_text_round_trips:
  "hexStringToByteVector (byteVectorToString bs) = Inr bs
   \<and> stringToSalt (saltToString bs) = bs
   \<and> (if length bs = DIGEST_BYTES then stringToSHA256 uninit (sha256ToString bs) = bs
      else length (sha256ToString bs) \<noteq> 64)"
proof -
  have "stringToSHA256 uninit (sha256ToString bs) = bs" if len: "length bs = DIGEST_BYTES"
    using hexBytes_bytesToString [of bs, unfolded len]
    by (simp add: stringToSHA256_def sha256ToString_def length_bytesToString len)
  then show ?thesis
    using bau.read_render [of bs] salt.read_render [of bs]
    by (simp add: sha256ToString_def length_bytesToString DIGEST_BYTES_def)
qed

section \<open>Types of packets\<close>

text \<open>An opcode of the packet's side, at the front of its buffer.\<close>

definition packet_typed :: "('b \<Rightarrow> string) \<Rightarrow> (u16 \<Rightarrow> string) \<Rightarrow> 'b packet \<Rightarrow> bool" where
  "packet_typed content s16 p \<longleftrightarrow>
     pk_opcode p \<in> (case pk_type p of CLIENT \<Rightarrow> range client_opcode | SERVER \<Rightarrow> range server_opcode)
     \<and> (\<exists>y. content (pk_buffer p) = s16 (pk_opcode p) @ y)"

lemma typed_new:
  assumes "fifo_put E content s16"
  shows "packet_typed content s16 (ServerPacket_new E so)" "packet_typed content s16 (ClientPacket_new E co)"
  using content_Packet_new [OF assms]
  by (auto simp: packet_typed_def ServerPacket_new_def ClientPacket_new_def) (simp_all add: Packet_new_def)

lemma typed_puts:
  assumes "fifo_put E content s16"
  shows "packet_typed content s16 p \<Longrightarrow> packet_typed content s16 (pkString E x p)"
    "packet_typed content s16 p \<Longrightarrow> packet_typed content s16 (pkSized E x p)"
    "packet_typed content s16 p \<Longrightarrow> packet_typed content s16 (pkShort E w p)"
  using content_pkString [OF assms, of x p] content_pkSized [OF assms, of x p] content_pkShort [OF assms, of w p]
  by (auto simp: packet_typed_def) (simp_all add: pkString_def pkSized_def pkShort_def)

lemma typed_pkLong:
  assumes "\<And>x b. \<exists>y. content (bb_putLong E x b) = content b @ y" "packet_typed content s16 p"
  shows "packet_typed content s16 (pkLong E x p)"
proof -
  obtain y where "content (bb_putLong E x (pk_buffer p)) = content (pk_buffer p) @ y" using assms(1) by blast
  then show ?thesis using assms(2) by (auto simp: packet_typed_def pkLong_def)
qed

lemmas packet_news =
  AuthenticationChallenge_new_def AuthenticationIdentity_new_def AuthenticationResponse_new_def MapServerMapList_new_def
  MapServerConnectionInstructions_new_def ServerPubKey_new_def VersionMismatch_new_def MapServerRegistrationRequest_new_def
  MapServerRegistrationResponse_new_def PlayerCharacters_new_def ClientRequestCharacters_new_def CharacterSelect_new_def
  CharacterSelect_of_def NoMapServerError_new_def MalformedPacket_new_def

text \<open>C26: Whoever reads a packet can tell what it is: each of the constructors gives a packet of the client with an
  opcode of the client, or of the server with one of the server, which no packet of the other side has; and
  the opcode is the first short that is read from its buffer.\<close>

theorem packets_typed:
  assumes "fifo_put E content s16" "fifo_get E unread s16" "\<And>x b. \<exists>y. content (bb_putLong E x b) = content b @ y"
    and "p \<in> {AuthenticationChallenge_new E ch, AuthenticationIdentity_new E ai, AuthenticationResponse_new E ok n msg,
        MapServerMapList_new E hashes, MapServerConnectionInstructions_new E name host port, ServerPubKey_new E pem,
        VersionMismatch_new E, MapServerRegistrationRequest_new E name host port, MapServerRegistrationResponse_new E msg,
        PlayerCharacters_new E cs, ClientRequestCharacters_new E, CharacterSelect_new E i, CharacterSelect_of E c,
        NoMapServerError_new E msg, MalformedPacket_new E}"
    and "unread s = content (pk_buffer p) @ r"
  shows "(case pk_type p of
      CLIENT \<Rightarrow> pk_opcode p \<in> range client_opcode \<and> pk_opcode p \<notin> range server_opcode
    | SERVER \<Rightarrow> pk_opcode p \<in> range server_opcode \<and> pk_opcode p \<notin> range client_opcode)
    \<and> fst (so_getShort E s) = pk_opcode p"
proof -
  have "packet_typed content s16 p"
    using assms(4) typed_new [OF assms(1)] typed_puts [OF assms(1)] typed_pkLong [OF assms(3)]
    by (auto simp: packet_news)
  then obtain y where typed: "pk_opcode p \<in> (case pk_type p of CLIENT \<Rightarrow> range client_opcode | SERVER \<Rightarrow> range server_opcode)"
      and y: "content (pk_buffer p) = s16 (pk_opcode p) @ y"
    by (auto simp: packet_typed_def)
  have "fst (so_getShort E s) = pk_opcode p" using getShort_next [OF assms(2)] assms(5) y by simp
  then show ?thesis using typed opcodes_injective(3) by (cases "pk_type p") (auto simp: opcodes_injective(3) [symmetric])
qed

section \<open>JSON packets\<close>

text \<open>An identity packet arrives: a reader of the stream finds the opcode, and the text decodes to the
  user name, cut at a NUL, and to exactly the bytes of the encrypted password; the rest of the stream is
  untouched. The text must fit the 16-bit length and the JSON parser must invert the writer on it.\<close>

theorem identity_frame_round_trip:
  assumes "fifo_put E content s16" "fifo_get E unread s16" "reads_back E (identity_doc t)"
    and "length (toJSON E (identity_events t)) < 65536"
    and "unread s = content (pk_buffer (AuthenticationIdentity_new E t)) @ r"
  shows "fst (read_frame E s) = client_opcode LOGIN_AUTHENTICATION_IDENTITY
    \<and> fromJSON E identity_decode (fst (snd (read_frame E s)))
        = Inr \<lparr>ai_username = c_str (ai_username t), ai_password = ai_password t\<rparr>
    \<and> unread (snd (snd (read_frame E s))) = r"
  using identity.frame_round_trip [OF assms(1,2,3,4), of s "client_opcode LOGIN_AUTHENTICATION_IDENTITY" CLIENT r]
    assms(5)
  by (simp add: AuthenticationIdentity_new_def ClientPacket_new_def identity_view_def)

text \<open>C37: The login server's answers arrive: the challenge with its version, name and key, and the response
  with its verdict, the attempts that remain and its message. A string is read up to its first NUL, and a text
  must fit the 16-bit length.\<close>

theorem server_frames_round_trip:
  assumes "fifo_put E content s16" "fifo_get E unread s16"
    and "reads_back E (challenge_doc ch)" "reads_back E (response_doc re)" "reads_back E (instructions_doc mi)"
    and "length (toJSON E (challenge_events ch)) < 65536" "length (toJSON E (response_events re)) < 65536"
      "length (toJSON E (instructions_events mi)) < 65536"
    and "unread s1 = content (pk_buffer (AuthenticationChallenge_new E ch)) @ r"
    and "unread s2 = content (pk_buffer (AuthenticationResponse_new E (ar_successful re)
           (ar_attemptsRemaining re) (ar_message re))) @ r"
    and "unread s3 = content (pk_buffer (MapServerConnectionInstructions_new E (mi_friendlyName mi)
           (mi_hostName mi) (mi_port mi))) @ r"
  shows "fst (read_frame E s1) = server_opcode LOGIN_AUTHENTICATION_CHALLENGE
    \<and> fromJSON E challenge_decode (fst (snd (read_frame E s1))) = Inr (challenge_view ch)
    \<and> fst (read_frame E s2) = server_opcode LOGIN_AUTHENTICATION_RESPONSE
    \<and> fromJSON E response_decode (fst (snd (read_frame E s2))) = Inr (re\<lparr>ar_message := c_str (ar_message re)\<rparr>)
    \<and> fst (read_frame E s3) = server_opcode MAP_SERVER_CONNECTION_INSTRUCTIONS
    \<and> fromJSON E instructions_decode (fst (snd (read_frame E s3)))
        = Inr (mi\<lparr>mi_friendlyName := c_str (mi_friendlyName mi), mi_hostName := c_str (mi_hostName mi)\<rparr>)"
proof -
  have re: "\<lparr>ar_successful = ar_successful re, ar_attemptsRemaining = ar_attemptsRemaining re,
      ar_message = ar_message re\<rparr> = re" by (cases re) simp
  have mi: "\<lparr>mi_friendlyName = mi_friendlyName mi, mi_hostName = mi_hostName mi, mi_port = mi_port mi\<rparr> = mi"
    by (cases mi) simp
  show ?thesis
    using challenge.frame_round_trip [OF assms(1,2,3,6), of s1 "server_opcode LOGIN_AUTHENTICATION_CHALLENGE" SERVER r]
    response.frame_round_trip [OF assms(1,2,4,7), of s2 "server_opcode LOGIN_AUTHENTICATION_RESPONSE" SERVER r]
    instructions.frame_round_trip [OF assms(1,2,5,8), of s3 "server_opcode MAP_SERVER_CONNECTION_INSTRUCTIONS" SERVER r]
    assms(9-11)
  by (simp add: AuthenticationChallenge_new_def AuthenticationResponse_new_def
      MapServerConnectionInstructions_new_def ServerPacket_new_def response_view_def instructions_view_def re mi)
qed

text \<open>A list of characters loses what its writer and reader leave out: a character arrives unchanged exactly
  when it has no race and no location, is in full health, has a name without NUL, and its three statistics
  fit an int.\<close>

theorem characters_loss:
  assumes "reads_back E (characters_doc cs)"
  shows "fromJSON E characters_decode (toJSON E (characters_events cs)) = Inr (map character_view cs)
    \<and> (character_view c = c \<longleftrightarrow>
         ch_raceID c = 0 \<and> ch_locationID c = 0 \<and> ch_currentHP c = ch_maxHP c \<and> c_str (ch_name c) = ch_name c
         \<and> list_all (\<lambda>x. - (2 ^ 31) \<le> sint x \<and> sint x < 2 ^ 31) [ch_maxHP c, ch_strength c, ch_intelligence c])"
proof -
  have "character_view c = c \<longleftrightarrow>
         ch_raceID c = 0 \<and> ch_locationID c = 0 \<and> ch_currentHP c = ch_maxHP c
         \<and> c_str (ch_name c) = ch_name c \<and> through_int (ch_maxHP c) = ch_maxHP c
         \<and> through_int (ch_strength c) = ch_strength c \<and> through_int (ch_intelligence c) = ch_intelligence c"
    by (cases c) (auto simp: character_view_def)
  then show ?thesis
    using characters.text_round_trip [OF assms] by (simp add: through_int_exact conj_ac)
qed

section \<open>Length fields\<close>

text \<open>The length in front of a JSON text is its size modulo 65536: a reader gets that many characters and
  leaves the others in the stream, where the next read finds them.\<close>

theorem json_length_wraps:
  assumes "fifo_put E content s16" "fifo_get E unread s16"
    and "unread s = content (pk_buffer (PlayerCharacters_new E cs)) @ r"
  shows "fst (snd (read_frame E s))
    = take (length (toJSON E (characters_events cs)) mod 65536) (toJSON E (characters_events cs))"
  using read_frame_sized(2) [OF assms(2)] assms(1,3)
  by (simp add: PlayerCharacters_new_def content_pkSized content_Packet_new ServerPacket_new_def)

section \<open>The registration request\<close>

text \<open>A map server's registration request arrives at the login server's reader: name, address and port,
  when the two strings fit their 16-bit lengths.\<close>

theorem registration_request_round_trip:
  assumes "fifo_put E content s16" "fifo_get E unread s16"
    and "length name < 65536" "length address < 65536"
    and "unread s = content (pk_buffer (MapServerRegistrationRequest_new E name address port)) @ r"
  shows "fst (so_getShort E s) = server_opcode MAP_SERVER_REGISTRATION_REQUEST
    \<and> (\<exists>s'. read_registration E (snd (so_getShort E s)) = (name, address, port, s') \<and> unread s' = r)"
proof -
  note get = getShort_next [OF assms(2)] and str = getString_next [OF assms(2)]
  define s1 where "s1 = snd (so_getShort E s)"
  define s2 where "s2 = snd (so_getShort E s1)"
  define s3 where "s3 = snd (so_getStringByLength E (of_nat (length name)) s2)"
  define s4 where "s4 = snd (so_getShort E s3)"
  define s5 where "s5 = snd (so_getStringByLength E (of_nat (length address)) s4)"
  have "unread s = s16 (server_opcode MAP_SERVER_REGISTRATION_REQUEST) @ s16 (of_nat (length name)) @ name
      @ s16 (of_nat (length address)) @ address @ s16 port @ r"
    using assms(1,5)
    by (simp add: MapServerRegistrationRequest_new_def content_pkSized content_pkShort content_Packet_new
        ServerPacket_new_def)
  note 1 = get [OF this, folded s1_def]
  note 2 = get [OF 1 [THEN conjunct2], folded s2_def]
  have n: "length name = unat (of_nat (length name) :: u16)" "length address = unat (of_nat (length address) :: u16)"
    using assms(3,4) by simp_all
  note 3 = str [OF 2 [THEN conjunct2] n(1), folded s3_def]
  note 4 = get [OF 3 [THEN conjunct2], folded s4_def]
  note 5 = str [OF 4 [THEN conjunct2] n(2), folded s5_def]
  note 6 = get [OF 5 [THEN conjunct2]]
  have "read_registration E s1 = (name, address, port, snd (so_getShort E s5))"
    using 2 3 4 5 6
    by (simp add: read_registration_def case_prod_beta prod_eq_iff flip: s2_def s3_def s4_def s5_def)
  then show ?thesis using 1 6 by (simp add: s1_def)
qed


section \<open>Witnesses\<close>

definition sample_identity :: auth_identity where
  "sample_identity = \<lparr>ai_username = ''bo'', ai_password = [1, 171]\<rparr>"

lemma identity_frame_round_trip_witness:
  "fromJSON sample_platform identity_decode (fst (snd (read_frame sample_platform
     (sample_holding (pk_buffer (AuthenticationIdentity_new sample_platform sample_identity) @ ''x'')))))
   = Inr sample_identity"
proof -
  have "length (toJSON sample_platform (identity_events sample_identity)) < 65536"
    by (simp add: json_text_eval identity_events_def sample_identity_def put_hex2_def hex_char_def)
  then show ?thesis
    using identity_frame_round_trip [OF sample_fifo_put sample_fifo_get sample_docs(2) _
        sk_buf_sample_holding [of "pk_buffer (AuthenticationIdentity_new sample_platform sample_identity) @ ''x''"]]
    by (simp add: sample_identity_def json_simps)
qed

definition sample_challenge :: auth_challenge where
  "sample_challenge = \<lparr>ac_version = ''1'', ac_versionHash = ''2'', ac_name = ''n'', ac_pubKey = ''k''\<rparr>"

definition sample_response :: auth_response where
  "sample_response = \<lparr>ar_successful = False, ar_attemptsRemaining = 2, ar_message = ''no''\<rparr>"

definition sample_instructions :: map_instructions where
  "sample_instructions = \<lparr>mi_friendlyName = ''m'', mi_hostName = ''h'', mi_port = 10419\<rparr>"

lemma server_frames_round_trip_witness:
  "fromJSON sample_platform instructions_decode (fst (snd (read_frame sample_platform
     (sample_holding (pk_buffer (MapServerConnectionInstructions_new sample_platform ''m'' ''h'' 10419))))))
   = Inr sample_instructions"
proof -
  have len: "length (toJSON sample_platform (challenge_events sample_challenge)) < 65536"
      "length (toJSON sample_platform (response_events sample_response)) < 65536"
      "length (toJSON sample_platform (instructions_events sample_instructions)) < 65536"
    by (simp_all add: json_text_eval challenge_events_def sample_challenge_def response_events_def
        sample_response_def instructions_events_def sample_instructions_def dec_string.simps)
  note run = server_frames_round_trip [OF sample_fifo_put sample_fifo_get sample_docs(1,3,4) len,
      of "sample_holding (pk_buffer (AuthenticationChallenge_new sample_platform sample_challenge))" "[]"
        "sample_holding (pk_buffer (AuthenticationResponse_new sample_platform False 2 ''no''))"
        "sample_holding (pk_buffer (MapServerConnectionInstructions_new sample_platform ''m'' ''h'' 10419))"]
  show ?thesis
    using run by (simp add: sample_response_def sample_instructions_def json_simps)
qed

definition sample_chara :: chara where
  "sample_chara = (Character_new ''ed'' 10 5 (- 3))\<lparr>ch_id := 7, ch_playerID := 1, ch_raceID := 2\<rparr>"

lemma characters_loss_witness:
  "fromJSON sample_platform characters_decode (toJSON sample_platform (characters_events [sample_chara]))
     = Inr [sample_chara\<lparr>ch_raceID := 0\<rparr>]
   \<and> character_view sample_chara \<noteq> sample_chara"
proof -
  have "character_view (sample_chara\<lparr>ch_raceID := 0\<rparr>) = sample_chara\<lparr>ch_raceID := 0\<rparr>"
    using characters_loss [OF sample_docs(6), of "[]" "sample_chara\<lparr>ch_raceID := 0\<rparr>"]
    by (simp add: sample_chara_def Character_new_def json_simps)
  moreover have "character_view sample_chara = character_view (sample_chara\<lparr>ch_raceID := 0\<rparr>)"
    by (simp add: character_view_def)
  ultimately show ?thesis
    using characters_loss [OF sample_docs(6), of "[sample_chara]" sample_chara]
    by (simp add: sample_chara_def)
qed

lemma json_length_wraps_witness:
  "fst (snd (read_frame sample_platform
      (sample_holding (pk_buffer (PlayerCharacters_new sample_platform [sample_chara])))))
   = toJSON sample_platform (characters_events [sample_chara])"
proof -
  have "length (toJSON sample_platform (characters_events [sample_chara])) < 65536"
    by (simp add: json_text_eval characters_events_def Character_toJson_def sample_chara_def
        Character_new_def dec_string.simps)
  then show ?thesis
    using json_length_wraps [OF sample_fifo_put sample_fifo_get,
        of "sample_holding (pk_buffer (PlayerCharacters_new sample_platform [sample_chara]))" "[sample_chara]" "[]"]
    by simp
qed

lemma registration_request_round_trip_witness:
  "fst (read_registration sample_platform (snd (so_getShort sample_platform
     (sample_holding (pk_buffer (MapServerRegistrationRequest_new sample_platform ''map one'' ''localhost'' 10420))))))
   = ''map one''"
  using registration_request_round_trip [OF sample_fifo_put sample_fifo_get, of "''map one''" "''localhost''"
      "sample_holding (pk_buffer (MapServerRegistrationRequest_new sample_platform ''map one'' ''localhost'' 10420))"
      10420 "[]"]
  by auto

lemma packets_typed_witness:
  "fst (so_getShort sample_platform (sample_holding (pk_buffer (CharacterSelect_new sample_platform 7)))) = 4"
proof -
  let ?p = "CharacterSelect_new sample_platform 7"
  have "fst (so_getShort sample_platform (sample_holding (pk_buffer ?p))) = pk_opcode ?p"
    using packets_typed [OF sample_fifo_put sample_fifo_get, where p = ?p and i = 7 and r = "[]"
        and s = "sample_holding (pk_buffer ?p)"]
    by simp
  then show ?thesis by (simp add: CharacterSelect_new_def pkLong_def ClientPacket_new_def Packet_new_def)
qed

end
