(* ===== verification/ServiceProperties.thy ===== *)
theory ServiceProperties imports SampleSession PacketProperties begin

text \<open>
  How map servers come in, how players get to them, and how the login server sets itself up: the
  choice of maps, registration, character selection, the pass over the sessions, the reconciliation
  of maps with the database, and the super user.
\<close>

section \<open>The choice of maps\<close>

text \<open>The maps a map server is asked for are, in the order it offered them, the login server's own entry of
  each offered name, when the first map of that name has the offered hash and no map server has it yet.\<close>

theorem required_maps_spec:
  "requiredMaps allMaps idx offered =
     concat (map (\<lambda>q.
       case find (\<lambda>m. lo_locationName q = lo_locationName m) allMaps of
         None \<Rightarrow> []
       | Some m \<Rightarrow> if lo_knownMD5Hash q = lo_knownMD5Hash m \<and> idx (lo_locationName q) = None then [m] else [])
       offered)"
proof -
  have one: "checkMap q idx all acc = acc @
      (case find (\<lambda>m. lo_locationName q = lo_locationName m) all of
         None \<Rightarrow> []
       | Some m \<Rightarrow> if lo_knownMD5Hash q = lo_knownMD5Hash m \<and> idx (lo_locationName q) = None then [m] else [])"
    for q all acc
    by (induction all) (auto simp: um_find_def)
  have "fold (\<lambda>q. checkMap q idx allMaps) os acc = acc @ concat (map (\<lambda>q.
       case find (\<lambda>m. lo_locationName q = lo_locationName m) allMaps of
         None \<Rightarrow> []
       | Some m \<Rightarrow> if lo_knownMD5Hash q = lo_knownMD5Hash m \<and> idx (lo_locationName q) = None then [m] else []) os)"
    for os acc
    by (induction os arbitrary: acc) (simp_all add: one)
  then show ?thesis by (simp add: requiredMaps_def)
qed

section \<open>Registration\<close>

text \<open>A registration request is accepted from anybody: the answer does not depend on the server's keys,
  accounts or any other state, the server is not changed, and the connection goes on to send its maps when
  the response could be sent and otherwise stays where it was.\<close>

theorem registration_needs_no_credentials:
  assumes "ic_socket c = Some s" "ic_state c = CHALLENGE_SENT" "ic_loginAttempts c = 0"
    and "so_hasActivity E s = (True, s0)" "so_recv E (Some 2048) s0 = (n, s1)" "n \<noteq> 0"
    and "so_getShort E s1 = (server_opcode MAP_SERVER_REGISTRATION_REQUEST, s2)"
    and "read_registration E s2 = (name, address, port, s3)"
  shows "\<exists>c'. (\<forall>ls. processChallengeSentSocket E c ls = Inr (c', ls))
    \<and> (if fst (reply E (MapServerRegistrationResponse_new E ''hello, world'') (so_clear E s3)) > 0
       then ic_state c' = MAP_LIST else ic_state c' = CHALLENGE_SENT)
    \<and> ic_mapServerFriendlyName c' = Some name \<and> ic_mapServerListenAddress c' = Some address
    \<and> ic_mapServerPort c' = Some port"
proof (cases "fst (reply E (MapServerRegistrationResponse_new E ''hello, world'') (so_clear E s3)) \<le> 0")
  case True
  then show ?thesis
    using assms
    by (simp add: processChallengeSentSocket_def processMapAuthenticationRequest_def case_prod_beta)
next
  case False
  then show ?thesis
    using assms
    by (simp add: processChallengeSentSocket_def processMapAuthenticationRequest_def case_prod_beta
        exhaust_attempts_def MAX_ATTEMPTS_ALLOWED_def)
qed

text \<open>A map server's request is understood, and accepted from anybody: from the packet that the map server makes, on
  an ordered stream, the login server takes the name, the address and the port, answers, and waits for the list of
  maps when the answer could be sent and otherwise stays where it was. Nothing of this depends on the server's
  keys, accounts or any other state, and the server is not changed.\<close>

theorem registration_request_understood:
  assumes io: "fifo_put E content s16" "fifo_get E unread s16" "length name < 65536" "length address < 65536"
    and "ic_socket c = Some s" "ic_state c = CHALLENGE_SENT" "ic_loginAttempts c = 0"
      "so_hasActivity E s = (True, s0)" "so_recv E (Some 2048) s0 = (n, s1)" "n \<noteq> 0"
    and packet: "unread s1 = content (pk_buffer (MapServerRegistrationRequest_new E name address port)) @ r"
  shows "\<exists>c' s2. (\<forall>ls. processChallengeSentSocket E c ls = Inr (c', ls)) \<and> unread s2 = r
    \<and> (if fst (reply E (MapServerRegistrationResponse_new E ''hello, world'') (so_clear E s2)) > 0
       then ic_state c' = MAP_LIST else ic_state c' = CHALLENGE_SENT)
    \<and> ic_mapServerFriendlyName c' = Some name \<and> ic_mapServerListenAddress c' = Some address
    \<and> ic_mapServerPort c' = Some port"
proof -
  obtain s2 where "fst (so_getShort E s1) = server_opcode MAP_SERVER_REGISTRATION_REQUEST" "unread s2 = r"
      and read: "read_registration E (snd (so_getShort E s1)) = (name, address, port, s2)"
    using registration_request_round_trip [OF io packet] by blast
  then have "so_getShort E s1 = (server_opcode MAP_SERVER_REGISTRATION_REQUEST, snd (so_getShort E s1))"
    by (simp add: prod_eq_iff)
  from registration_needs_no_credentials [OF assms(5-10) this read] \<open>unread s2 = r\<close> show ?thesis by blast
qed

lemma registration_request_understood_witness:
  "\<exists>c'. (\<forall>ls. processChallengeSentSocket sample_platform (sample_challenged [sample_m1] []) ls = Inr (c', ls))
     \<and> ic_mapServerFriendlyName c' = Some ''map''"
proof -
  let ?s = "sample_sock [sample_m1] []"
  let ?s1 = "?s\<lparr>sk_peer := [], sk_buf := sample_m1\<rparr>"
  have "so_hasActivity sample_platform ?s = (True, ?s)"
      "so_recv sample_platform (Some 2048) ?s = (int (length sample_m1), ?s1)" "int (length sample_m1) \<noteq> 0"
    by (simp_all add: sample_sock_def sample_recv_def sample_m1_def MapServerRegistrationRequest_new_def
        pkSized_def pkString_def pkShort_def ServerPacket_new_def Packet_new_def)
  moreover have "ic_socket (sample_challenged [sample_m1] []) = Some ?s"
      "ic_state (sample_challenged [sample_m1] []) = CHALLENGE_SENT"
      "ic_loginAttempts (sample_challenged [sample_m1] []) = 0"
    by (simp_all add: sample_challenged_def IncomingConnection_new_def)
  moreover have "sk_buf ?s1 = pk_buffer (MapServerRegistrationRequest_new sample_platform ''map'' ''host'' 10420) @ []"
    by (simp add: sample_m1_def)
  moreover have "length ''map'' < 65536" "length ''host'' < 65536" by simp_all
  ultimately show ?thesis
    using registration_request_understood [OF sample_fifo_put sample_fifo_get, of "''map''" "''host''"
        "sample_challenged [sample_m1] []" ?s ?s "int (length sample_m1)" ?s1 10420 "[]"] by blast
qed

lemma registration_needs_no_credentials_witness:
  "\<exists>c'. (\<forall>ls. processChallengeSentSocket sample_platform (sample_challenged [sample_m1] []) ls = Inr (c', ls))
     \<and> ic_mapServerFriendlyName c' = Some ''map''"
proof -
  let ?s = "sample_sock [sample_m1] []"
  let ?s1 = "?s\<lparr>sk_peer := [], sk_buf := sample_m1\<rparr>"
  have read: "read_registration sample_platform (?s1\<lparr>sk_buf := drop 2 sample_m1\<rparr>)
      = (''map'', ''host'', 10420, ?s1\<lparr>sk_buf := []\<rparr>)"
    by (simp add: sample_sock_def sample_m1_def MapServerRegistrationRequest_new_def pkSized_def pkString_def
        pkShort_def ServerPacket_new_def Packet_new_def read_registration_def sample_getString_def)
  have pre: "so_hasActivity sample_platform ?s = (True, ?s)"
      "so_recv sample_platform (Some 2048) ?s = (int (length sample_m1), ?s1)" "int (length sample_m1) \<noteq> 0"
      "so_getShort sample_platform ?s1
        = (server_opcode MAP_SERVER_REGISTRATION_REQUEST, ?s1\<lparr>sk_buf := drop 2 sample_m1\<rparr>)"
    by (simp_all add: sample_sock_def sample_recv_def sample_m1_def MapServerRegistrationRequest_new_def
        pkSized_def pkString_def pkShort_def ServerPacket_new_def Packet_new_def)
  have "ic_socket (sample_challenged [sample_m1] []) = Some ?s"
      "ic_state (sample_challenged [sample_m1] []) = CHALLENGE_SENT"
      "ic_loginAttempts (sample_challenged [sample_m1] []) = 0"
    by (simp_all add: sample_challenged_def IncomingConnection_new_def)
  from registration_needs_no_credentials [OF this pre read] show ?thesis by blast
qed

text \<open>Anything that arrives from a map server that was asked for maps counts as its acknowledgement, even a read
  that failed: only a read of nothing at all ends the connection. Then every map that was asked for is in the
  index; a map that had no server leads to the new one, and older entries stay.\<close>

theorem acknowledgement_registers:
  assumes "ic_socket c = Some s" "so_hasActivity E s = (True, s0)" "so_recv E None s0 = (n, s1)"
    and "ic_maps c = Some maps" "ic_mapServerFriendlyName c = Some name"
      "ic_mapServerPort c = Some port" "ic_mapServerListenAddress c = Some address"
  shows "\<exists>c' ls'. processMapWaitAckSocket E c ls = Inr (c', ls') \<and> ic_state c' = DONE
    \<and> (if n = 0 then ls' = ls
       else v_elems (ls_mapServers ls') =
              v_elems (ls_mapServers ls) @ [MapServerConnection_new address port (Some s1) maps name]
          \<and> (\<forall>m. ls_mapNameToConnection ls' m =
               (case ls_mapNameToConnection ls m of
                  Some p \<Rightarrow> Some p
                | None \<Rightarrow> if m \<in> lo_locationName ` set maps then Some (vec_back_ptr (ls_mapServers ls')) else None))
          \<and> vec_deref (ls_mapServers ls') (vec_back_ptr (ls_mapServers ls'))
              = Inr (MapServerConnection_new address port (Some s1) maps name))"
  using assms
  by (simp add: processMapWaitAckSocket_def register_index vec_deref_back offers_def MapServerConnection_new_def
      split: option.split)

lemma acknowledgement_registers_witness:
  "\<exists>c' ls'. processMapWaitAckSocket sample_platform
      (sample_conn (Some (sample_sock [sample_m3] [])) MAP_WAIT_ACK (Some [sample_location])) sample_server
      = Inr (c', ls') \<and> ls_mapNameToConnection ls' ''town'' = Some (vec_back_ptr (ls_mapServers ls'))"
proof -
  let ?s = "sample_sock [sample_m3] []"
  have "sample_recv None ?s = (2, ?s\<lparr>sk_peer := [], sk_buf := sample_m3\<rparr>)"
    by (simp add: sample_recv_def sample_sock_def sample_m3_def)
  then have "\<exists>c' ls'. processMapWaitAckSocket sample_platform
      (sample_conn (Some ?s) MAP_WAIT_ACK (Some [sample_location])) sample_server = Inr (c', ls')
      \<and> (\<forall>m. ls_mapNameToConnection ls' m =
               (case ls_mapNameToConnection sample_server m of
                  Some p \<Rightarrow> Some p
                | None \<Rightarrow> if m \<in> lo_locationName ` set [sample_location]
                          then Some (vec_back_ptr (ls_mapServers ls')) else None))"
    using acknowledgement_registers [of "sample_conn (Some ?s) MAP_WAIT_ACK (Some [sample_location])" ?s
        sample_platform ?s 2 "?s\<lparr>sk_peer := [], sk_buf := sample_m3\<rparr>" "[sample_location]" "''map''" 10420
        "''host''" sample_server]
    by (auto simp: sample_conn_def) (auto simp: sample_sock_def)
  moreover have "ls_mapNameToConnection sample_server ''town'' = None" "lo_locationName sample_location = ''town''"
    by (simp_all add: sample_server_def sample_location_def)
  ultimately show ?thesis by force
qed

section \<open>Choosing a character\<close>

text \<open>C31: A character becomes the session's only when the eight bytes of its id arrived, the database has exactly
  one character of the session's player with that id, its location is a map the server knows, a map server is
  registered for the map, and that server's address was sent. In every other case the session keeps the
  character it had.\<close>

theorem character_only_with_instructions:
  assumes "processCharacterSelect E ls session w = Inr (session', w')"
    and "ps_characterID session' \<noteq> ps_characterID session"
  shows "fst (so_recv E (Some 8) (ps_socket session)) = 8
    \<and> (\<exists>character name p server s.
        fst (so_getLong E (snd (so_recv E (Some 8) (ps_socket session)))) = ps_characterID session'
      \<and> fst (db_characters_of_player_with_id E (ps_playerID session) (ps_characterID session') (db_begin E w)) = [character]
      \<and> ls_mapIDToName ls (ch_locationID character) = Some name
      \<and> ls_mapNameToConnection ls name = Some p
      \<and> vec_deref (ls_mapServers ls) p = Inr server
      \<and> ps_socket session' = snd (reply E (MapServerConnectionInstructions_new E (mc_friendlyName server)
          (mc_hostname server) (mc_port server)) s)
      \<and> fst (reply E (MapServerConnectionInstructions_new E (mc_friendlyName server)
          (mc_hostname server) (mc_port server)) s) \<noteq> 0)"
proof -
  obtain n s1 where r: "so_recv E (Some 8) (ps_socket session) = (n, s1)" by fastforce
  obtain i s2 where l: "so_getLong E s1 = (i, s2)" by fastforce
  obtain result w1 where q: "db_characters_of_player_with_id E (ps_playerID session) i (db_begin E w) = (result, w1)"
    by fastforce
  have n: "n = 8" using assms r by (auto simp: processCharacterSelect_def split: if_splits)
  have run: "(case result of
        [character] \<Rightarrow>
          andThen (selectAnswer E ls (ch_locationID character)) (\<lambda>(found, answer).
          let (sent, s3) = reply E answer s2; failed = (\<not> found \<or> sent = 0) in
          Inr ((session\<lparr>ps_socket := s3\<rparr>)
                 \<lparr>ps_characterID := if failed then ps_characterID session else i\<rparr>, db_commit E w1))
      | _ \<Rightarrow> Inr (session\<lparr>ps_socket := so_disconnect E (so_clear E s2)\<rparr>, db_rollback E w1)) = Inr (session', w')"
    using assms(1) by (simp add: processCharacterSelect_def r l q n)
  then obtain character where one: "result = [character]"
    using assms(2) by (auto split: list.splits)
  then obtain found answer where sel: "selectAnswer E ls (ch_locationID character) = Inr (found, answer)"
      and s'0: "session' = (session\<lparr>ps_socket := snd (reply E answer s2)\<rparr>)
        \<lparr>ps_characterID := if \<not> found \<or> fst (reply E answer s2) = 0 then ps_characterID session else i\<rparr>"
    using run by (auto simp: andThen_eq_Inr case_prod_beta)
  obtain sent s3 where ans: "reply E answer s2 = (sent, s3)" by fastforce
  have s': "session' = (session\<lparr>ps_socket := s3\<rparr>)
      \<lparr>ps_characterID := if \<not> found \<or> sent = 0 then ps_characterID session else i\<rparr>"
    using s'0 ans by simp
  then have ok: "found" "sent \<noteq> 0" "ps_characterID session' = i" "ps_socket session' = s3"
    using assms(2) by (auto split: if_splits)
  obtain name p server where "ls_mapIDToName ls (ch_locationID character) = Some name"
      "ls_mapNameToConnection ls name = Some p" "vec_deref (ls_mapServers ls) p = Inr server"
      "answer = MapServerConnectionInstructions_new E (mc_friendlyName server) (mc_hostname server) (mc_port server)"
    using sel ok(1) by (auto simp: selectAnswer_def um_find_def andThen_eq_Inr split: option.splits)
  then show ?thesis
    using r l q n one ans ok
    by (intro conjI exI [of _ character] exI [of _ name] exI [of _ p] exI [of _ server] exI [of _ s2]) simp_all
qed

lemma sample_select:
  "\<exists>session' w'. processCharacterSelect sample_platform sample_with_map sample_session sample_hero_world
     = Inr (session', w') \<and> ps_characterID session' = 7"
proof -
  have "selectAnswer sample_platform sample_with_map 1
      = Inr (True, MapServerConnectionInstructions_new sample_platform ''map'' ''host'' 10420)"
    using sample_with_map_simps
    by (simp add: selectAnswer_def um_find_def sample_registered_def MapServerConnection_new_def)
  moreover have "pk_buffer (MapServerConnectionInstructions_new sample_platform ''map'' ''host'' 10420) \<noteq> []"
    by (simp add: MapServerConnectionInstructions_new_def pkSized_def pkString_def pkShort_def
        ServerPacket_new_def Packet_new_def sample_s16_def)
  ultimately show ?thesis
    by (simp add: processCharacterSelect_def sample_session_def sample_getLong sample_hero_world_def
        sample_world_of_def sample_note_def sample_hero_def sample_reply case_prod_beta del: bytes_be.simps)
      (simp add: sample_sock_def sample_reply)
qed

lemma character_only_with_instructions_witness:
  "\<exists>p server. ls_mapNameToConnection sample_with_map ''town'' = Some p
     \<and> vec_deref (ls_mapServers sample_with_map) p = Inr server"
proof -
  obtain session' w' where run: "processCharacterSelect sample_platform sample_with_map sample_session sample_hero_world
     = Inr (session', w')" "ps_characterID session' = 7"
    using sample_select by blast
  have "ps_characterID session' \<noteq> ps_characterID sample_session"
    using run(2) by (simp add: sample_session_def)
  from character_only_with_instructions [OF run(1) this] show ?thesis
    by (auto simp: sample_with_map_simps(1) split: if_splits)
qed

text \<open>C32: Somebody else's character, or one that does not exist, disconnects the player without an answer, and the
  transaction is rolled back; a map that is not known or has no server is answered with an error packet and the
  player stays connected.\<close>

theorem character_refusals:
  assumes "so_recv E (Some 8) (ps_socket session) = (8, s1)" "so_getLong E s1 = (i, s2)"
    and "db_characters_of_player_with_id E (ps_playerID session) i (db_begin E w) = (result, w1)"
  shows "if length result \<noteq> 1 then
      processCharacterSelect E ls session w
        = Inr (session\<lparr>ps_socket := so_disconnect E (so_clear E s2)\<rparr>, db_rollback E w1)
    else case ls_mapIDToName ls (ch_locationID (hd result)) of
      None \<Rightarrow> processCharacterSelect E ls session w
        = Inr (session\<lparr>ps_socket := snd (reply E (NoMapServerError_new E UNKNOWN_MAP_MESSAGE) s2)\<rparr>, db_commit E w1)
    | Some name \<Rightarrow> if ls_mapNameToConnection ls name = None then
        processCharacterSelect E ls session w
          = Inr (session\<lparr>ps_socket := snd (reply E (NoMapServerError_new E NO_MAP_SERVER_MESSAGE) s2)\<rparr>, db_commit E w1)
      else True"
proof (cases "length result = 1")
  case True
  then obtain character where "result = [character]" by (cases result) auto
  then show ?thesis
    using assms
    by (simp add: processCharacterSelect_def selectAnswer_def um_find_def case_prod_beta split: option.split)
next
  case False
  then show ?thesis
    using assms by (auto simp: processCharacterSelect_def split: list.split)
qed

lemma character_refusals_witness:
  "\<exists>s. processCharacterSelect sample_platform sample_with_map (sample_session\<lparr>ps_playerID := 2\<rparr>) sample_hero_world
     = Inr ((sample_session\<lparr>ps_playerID := 2\<rparr>)\<lparr>ps_socket := s\<rparr>,
         sample_note ''rollback'' (sample_note ''begin'' sample_hero_world))"
proof -
  let ?s1 = "(sample_sock [] [])\<lparr>sk_buf := bytes_be 8 7\<rparr>"
  have "so_recv sample_platform (Some 8) (ps_socket (sample_session\<lparr>ps_playerID := 2\<rparr>)) = (8, ?s1)"
    by (simp add: sample_session_def sample_getLong del: bytes_be.simps)
  moreover have "so_getLong sample_platform ?s1 = (7, ?s1\<lparr>sk_buf := []\<rparr>)"
    using sample_getLong(2) by (simp del: bytes_be.simps)
  moreover have "db_characters_of_player_with_id sample_platform
      (ps_playerID (sample_session\<lparr>ps_playerID := 2\<rparr>)) 7 (db_begin sample_platform sample_hero_world)
      = ([], sample_note ''begin'' sample_hero_world)"
    by (simp add: sample_hero_world_def sample_world_of_def sample_note_def sample_hero_def)
  ultimately show ?thesis
    using character_refusals [of sample_platform "sample_session\<lparr>ps_playerID := 2\<rparr>" ?s1 7 "?s1\<lparr>sk_buf := []\<rparr>"
        sample_hero_world "[]" "sample_note ''begin'' sample_hero_world" sample_with_map]
    by auto
qed

section \<open>The pass over the sessions\<close>

definition sample_failed_session :: "sample_socket player_session" where
  "sample_failed_session = sample_session\<lparr>ps_socket := (sample_sock [] [])\<lparr>sk_error := True\<rparr>\<rparr>"

definition sample_in_session :: "(sample_socket, unit, sample_world) login_server" where
  "sample_in_session = add_session sample_failed_session (rn_server (sample_accepted []))"

lemma sample_in_session_heap: "ls_sessionHeap sample_in_session 0 = Some sample_failed_session"
  using initDB_frame [of sample_platform sample_server]
  by (auto simp: sample_in_session_def sample_accepted_def sample_booted_def sample_server_def)

text \<open>A pass over the sessions that runs leaves a list without null pointers: exactly the sessions that were
  not dropped, in their order.\<close>

theorem connected_pass_compacts:
  assumes "connectedPass E elapsed ls = Inr (True, ls')" "login_inv ls"
  shows "None \<notin> set (ls_playerSessions ls')
    \<and> ls_playerSessions ls' = filter (\<lambda>p. p \<in> set (ls_playerSessions ls')) (ls_playerSessions ls)
    \<and> elapsed \<ge> 1"
proof -
  have time: "of_int elapsed > RUN_WAIT_TIME"
    using assms(1) by (auto simp: connectedPass_def split: if_splits)
  then have "elapsed \<ge> 1"
    unfolding RUN_WAIT_TIME_def by (simp add: less_divide_eq)
  obtain slots ls1 where run: "processSessions E (ls_playerSessions ls) ls = Inr (slots, ls1)"
      and ls': "ls_playerSessions ls' = (if None \<in> set slots then filter (\<lambda>p. p \<noteq> None) slots else slots)"
    using assms(1) time by (auto simp: connectedPass_def andThen_eq_Inr Let_def)
  have inv: "None \<notin> set (ls_playerSessions ls)" "distinct (ls_playerSessions ls)"
      "slots_inv (ls_playerSessions ls) ls"
  proof -
    have si: "sessions_inv ls" using assms(2) by (simp add: login_inv_def server_inv_def)
    then show "None \<notin> set (ls_playerSessions ls)" "distinct (ls_playerSessions ls)"
      by (simp_all add: sessions_inv_def)
    show "slots_inv (ls_playerSessions ls) ls" using si by (simp add: slots_inv_whole)
  qed
  have kept: "list_all2 (\<lambda>p p'. p' = p \<or> p' = None) (ls_playerSessions ls) slots"
    using session.pass_keeps [of E "ls_playerSessions ls" ls slots ls1 "[]"] run inv(3)
    by (simp add: processSessions_pass)
  have whole: "ls_playerSessions ls' = filter (\<lambda>p. p \<noteq> None) slots"
    using ls' filter_present [of slots] by (cases "None \<in> set slots") simp_all
  have same: "filter (\<lambda>p. p \<in> set slots) (ls_playerSessions ls)
      = filter (\<lambda>p. p \<in> set (filter (\<lambda>p. p \<noteq> None) slots)) (ls_playerSessions ls)"
  proof (intro filter_cong refl)
    fix p assume "p \<in> set (ls_playerSessions ls)"
    then have "p \<noteq> None" using inv(1) by metis
    then show "p \<in> set slots \<longleftrightarrow> p \<in> set (filter (\<lambda>p. p \<noteq> None) slots)" by simp
  qed
  have "ls_playerSessions ls' = filter (\<lambda>p. p \<in> set (ls_playerSessions ls')) (ls_playerSessions ls)"
    unfolding whole by (rule trans [OF survivors_in_order [OF kept inv(1,2)] same])
  moreover have "None \<notin> set (ls_playerSessions ls')" unfolding whole by simp
  ultimately show ?thesis using \<open>elapsed \<ge> 1\<close> by blast
qed


lemma connected_pass_compacts_witness:
  "\<exists>ls'. connectedPass sample_platform 1 sample_in_session = Inr (True, ls') \<and> None \<notin> set (ls_playerSessions ls')"
proof -
  have inv: "login_inv sample_in_session"
  proof -
    have "run_inv (sample_accepted [])" by (rule login_reachable_inv [OF sample_accepted_reachable])
    then have "server_inv (rn_server (sample_accepted []))" "ls_incomingConnections (rn_server (sample_accepted [])) = []"
      by (simp_all add: run_inv_def login_inv_def sample_accepted_connections)
    then show ?thesis
      by (simp add: sample_in_session_def login_inv_def server_inv_add_session)
        (simp add: add_session_def Let_def)
  qed
  have slots: "ls_playerSessions sample_in_session = [Some 0]"
    using initDB_frame [of sample_platform sample_server]
    by (auto simp: sample_in_session_def sample_accepted_def sample_booted_def sample_server_def)
  have "so_hasError sample_platform (ps_socket sample_failed_session)"
    by (simp add: sample_failed_session_def)
  then obtain ls' where run: "connectedPass sample_platform 1 sample_in_session = Inr (True, ls')"
    using sample_in_session_heap slots
    by (simp add: connectedPass_def RUN_WAIT_TIME_def processSession_def)
  then show ?thesis using connected_pass_compacts [OF run inv] by blast
qed

end
