(* ===== verification/SetupProperties.thy ===== *)
theory SetupProperties imports SampleRun begin

text \<open>How the login server sets itself up: its maps, the database's record of them, and the super user.\<close>

section \<open>Maps\<close>

text \<open>C33: After the maps are loaded, the table from ids to names lists exactly the ids of the loaded maps, each with
  the name of one of them, the table of map servers is untouched, and there is room for one server per map.\<close>

theorem processMaps_tables:
  assumes "processMaps E ls = Inr ls'" "ls_allMaps ls = []" "ls_mapIDToName ls = (\<lambda>_. None)"
  shows "dom (ls_mapIDToName ls') = lo_id ` set (ls_allMaps ls')
    \<and> (\<forall>i n. ls_mapIDToName ls' i = Some n \<longrightarrow> (\<exists>m \<in> set (ls_allMaps ls'). lo_id m = i \<and> lo_locationName m = n))
    \<and> ls_mapNameToConnection ls' = ls_mapNameToConnection ls
    \<and> length (ls_allMaps ls') \<le> v_cap (ls_mapServers ls')"
proof -
  let ?P = "\<lambda>l. dom (ls_mapIDToName l) = lo_id ` set (ls_allMaps l)
    \<and> (\<forall>i n. ls_mapIDToName l i = Some n \<longrightarrow> (\<exists>m \<in> set (ls_allMaps l). lo_id m = i \<and> lo_locationName m = n))
    \<and> ls_mapNameToConnection l = ls_mapNameToConnection ls"
  obtain paths ls1 where run: "foldR (processMap E) paths ls = Inr ls1"
      and ls': "ls' = ls1\<lparr>ls_mapServers := vec_reserve (length (ls_allMaps ls1)) (ls_mapServers ls1)\<rparr>"
    using assms(1) by (auto simp: processMaps_def andThen_eq_Inr)
  have "?P ls1"
  proof (rule foldR_invariant [OF run])
    show "?P ls" using assms(2,3) by simp
    fix path l l'
    assume l: "?P l" and step: "processMap E path l = Inr l'"
    show "?P l'"
    proof (cases "tmx_parse E path (ls_world l)")
      case None
      then show ?thesis using l step by (simp add: processMap_def)
    next
      case (Some m)
      then obtain a w where "l' = l\<lparr>ls_world := w, ls_allMaps := ls_allMaps l @ [a],
          ls_mapIDToName := um_emplace (lo_id a) (lo_locationName a) (ls_mapIDToName l)\<rparr>"
        using step by (auto simp: processMap_def makeMD5Hash_eq Let_def case_prod_beta)
      then show ?thesis using l by (auto simp: um_emplace_def split: if_splits)
    qed
  qed
  then show ?thesis
    using vec_cap_reserve [of "length (ls_allMaps ls1)" "ls_mapServers ls1"] by (simp add: ls')
qed

definition sample_unloaded :: "(sample_socket, unit, sample_world) login_server" where
  "sample_unloaded = sample_server\<lparr>ls_world := sample_world_0, ls_allMaps := [], ls_mapIDToName := (\<lambda>_. None),
     ls_mapServers := vec_empty\<rparr>"

lemma processMaps_tables_witness:
  "\<exists>ls'. processMaps sample_platform sample_unloaded = Inr ls'
     \<and> dom (ls_mapIDToName ls') = {1} \<and> 1 \<le> v_cap (ls_mapServers ls')"
proof -
  have "sample_world_0 = sample_world_0\<lparr>sw_files := []\<rparr>" by (simp add: sample_world_0_def sample_world_of_def)
  then have one: "processMap sample_platform ''a.tmx'' sample_unloaded
      = Inr (sample_server\<lparr>ls_world := sample_world_1\<lparr>sw_files := []\<rparr>, ls_mapServers := vec_empty\<rparr>)"
    using sample_processMap [of "[]"] by (simp add: sample_unloaded_def)
  have "sd_maps (ls_details sample_unloaded) = Some [''a.tmx'']"
    by (simp add: sample_unloaded_def sample_server_def sample_details_def ServerDetails_new_def)
  then obtain ls' where run: "processMaps sample_platform sample_unloaded = Inr ls'"
      and maps: "ls_allMaps ls' = [sample_location]"
    using one by (auto simp: processMaps_def) (simp add: sample_server_def)
  then show ?thesis
    using processMaps_tables [OF run] by (auto simp: sample_unloaded_def sample_location_def)
qed

section \<open>The super user\<close>

text \<open>C34: On an empty database the super user that is stored passes the login check with its password: the salt survives
  its text, so the hash computed at login is the stored one, and the account is not locked. On a database with
  accounts nothing is stored and the transaction is rolled back.\<close>

theorem super_user_can_log_in:
  assumes "db_player_count E (db_begin E (ls_world ls)) = (count, w1)"
    and "decryptStringPrivate E crypto (ai_password authID) = Inr superUserPassword"
    and "ls_crypto ls = Some crypto" "ic_socket c \<noteq> None"
    and "processLoginAttempt E authID c ls2 = Inr (ok, c', ls')" "ls_crypto ls2 = Some crypto"
      "ls_hasher ls2 = ls_hasher ls"
  shows "if count = 0 then
      \<exists>p w3. initDB E ls = ls\<lparr>ls_world := db_commit E (db_persist_player E p w3)\<rparr>
        \<and> pl_username p = superUserID
        \<and> (fst (db_players_by_username E (ai_username authID) (db_begin E (ls_world ls2))) = [p] \<longrightarrow> ok)
    else initDB E ls = ls\<lparr>ls_world := db_rollback E w1\<rparr>"
proof (cases "count = 0")
  case False
  then show ?thesis using assms(1) by (simp add: initDB_def)
next
  case True
  obtain salt w2 where salt: "generateSalt E DEFAULT_SALT_BYTES w1 = (salt, w2)" by fastforce
  obtain now w3 where now: "clock_universal E w2 = (now, w3)" by fastforce
  define p where "p = (Player_new superUserID
      (sha256ToString (hashPasswordSHA256 E (ls_hasher ls) superUserPassword salt)) (saltToString salt))
      \<lparr>pl_id := 1, pl_joinDate := Some now, pl_lastLogin := Some now\<rparr>"
  have init: "initDB E ls = ls\<lparr>ls_world := db_commit E (db_persist_player E p w3)\<rparr>"
    using assms(1) True salt now by (simp add: initDB_def p_def)
  have "stringToSalt (saltToString salt) = salt" using salt.read_render [of salt] by simp
  then have check: "\<not> pl_locked p" "pl_password p
      = sha256ToString (hashPasswordSHA256 E (ls_hasher ls2) superUserPassword (stringToSalt (pl_salt p)))"
    by (simp_all add: p_def assms(7))
  have "ok" if found: "fst (db_players_by_username E (ai_username authID) (db_begin E (ls_world ls2))) = [p]"
  proof -
    obtain w where q: "db_players_by_username E (ai_username authID) (db_begin E (ls_world ls2)) = ([p], w)"
      using found by (cases "db_players_by_username E (ai_username authID) (db_begin E (ls_world ls2))") simp
    obtain s where s: "ic_socket c = Some s" using assms(4) by auto
    show ?thesis
      using assms(2,5,6) q s check by (auto simp: processLoginAttempt_def Let_def andThen_eq_Inr)
  qed
  then show ?thesis using True init by (auto simp: p_def)
qed

definition sample_empty :: "(sample_socket, unit, sample_world) login_server" where
  "sample_empty = sample_server\<lparr>ls_world := sample_world_of [] [] []\<rparr>"

definition sample_super_login :: auth_identity where
  "sample_super_login = \<lparr>ai_username = superUserID, ai_password = [116, 101, 115, 116, 97]\<rparr>"

lemma sample_super_decrypt:
  "decryptStringPrivate sample_platform sample_keys (ai_password sample_super_login) = Inr superUserPassword"
  by (simp add: decryptStringPrivate_def sample_keys_def sample_super_login_def superUserPassword_def
      byte_char_def char_of_def bit_Suc_0_iff)

lemma super_user_can_log_in_witness:
  "\<exists>c' ls'. processLoginAttempt sample_platform sample_super_login (IncomingConnection_new (sample_peer []))
     (initDB sample_platform sample_empty) = Inr (True, c', ls')"
proof -
  let ?c = "IncomingConnection_new (sample_peer [])"
  let ?ls = "initDB sample_platform sample_empty"
  have keys: "ls_crypto sample_empty = Some sample_keys" "ls_crypto ?ls = Some sample_keys"
      "ls_hasher ?ls = ls_hasher sample_empty"
    by (simp_all add: sample_empty_def sample_server_def initDB_def Let_def case_prod_beta)
  have c: "ic_socket ?c = Some (sample_peer [])" by (simp add: IncomingConnection_new_def)
  have none: "db_player_count sample_platform (db_begin sample_platform (ls_world sample_empty))
      = (0, sample_note ''begin'' (sample_world_of [] [] []))"
    by (simp add: sample_empty_def sample_world_of_def sample_note_def)
  define p where "p = (Player_new superUserID
      (sha256ToString (hashPasswordSHA256 sample_platform (ls_hasher sample_empty) superUserPassword
         (replicate DEFAULT_SALT_BYTES 7))) (saltToString (replicate DEFAULT_SALT_BYTES 7)))
      \<lparr>pl_id := 1, pl_joinDate := Some 0, pl_lastLogin := Some 0\<rparr>"
  have p: "pl_username p = superUserID" "pl_id p = 1" "\<not> pl_locked p"
    by (simp_all add: p_def)
  have init: "?ls = sample_empty\<lparr>ls_world := sample_note ''commit''
        (sample_note ''begin'' (sample_world_of [p] [] []))\<rparr>"
    unfolding initDB_def none
    by (simp add: generateSalt_def Let_def p_def sample_world_of_def sample_note_def del: replicate.simps)
  have found: "fst (db_players_by_username sample_platform (ai_username sample_super_login)
      (db_begin sample_platform (ls_world ?ls))) = [p]"
    using p by (simp add: init sample_note_def sample_super_login_def sample_world_of_def)
  have query: "db_players_by_username sample_platform (ai_username sample_super_login)
      (db_begin sample_platform (ls_world ?ls)) = ([p], sample_note ''begin'' (ls_world ?ls))"
    using p(1) by (simp add: init sample_note_def sample_super_login_def sample_world_of_def)
  have update: "\<exists>v. loginUpdate sample_platform (pl_id p) (sample_note ''commit'' (sample_note ''begin'' (ls_world ?ls))) = Inr v"
    using p(2) by (simp add: loginUpdate_def init sample_note_def sample_world_of_def)
  then obtain v where update: "loginUpdate sample_platform (pl_id p)
      (sample_note ''commit'' (sample_note ''begin'' (ls_world ?ls))) = Inr v" by blast
  have "\<exists>r. processLoginAttempt sample_platform sample_super_login ?c ?ls = Inr r"
    using update unfolding processLoginAttempt_def keys(2) c query
    by (simp add: sample_super_decrypt p(3) PlayerSession_new_def generateSessionKey_eq Let_def cong: if_cong)
      blast
  then obtain ok c' ls' where run: "processLoginAttempt sample_platform sample_super_login ?c ?ls = Inr (ok, c', ls')"
    by auto
  have "ic_socket ?c \<noteq> None" using c by simp
  from super_user_can_log_in [OF none sample_super_decrypt keys(1) this run keys(2,3)]
  obtain q w3 where q: "?ls = sample_empty\<lparr>ls_world := db_commit sample_platform (db_persist_player sample_platform q w3)\<rparr>"
      "fst (db_players_by_username sample_platform (ai_username sample_super_login)
         (db_begin sample_platform (ls_world ?ls))) = [q] \<longrightarrow> ok"
    unfolding if_P [OF refl] by (elim exE conjE) (rule that)
  have "sw_players (ls_world ?ls) = [p]" by (simp add: init sample_note_def sample_world_of_def)
  then have "p = q" by (simp add: q(1) sample_note_def)
  then have "ok" using q(2) found by (simp only: simp_thms)
  then show ?thesis using run by auto
qed

end
