(* ===== verification/SampleWorld.thy ===== *)
theory SampleWorld imports ClientMovement SampleRun begin

text \<open>The sample map as a world to walk in: its sizes, its walls and its spawn point.\<close>

lemma sample_tmx_sizes [simp]:
  "tm_width sample_tmx = 3" "tm_height sample_tmx = 2" "tm_tileWidth sample_tmx = 32" "tm_tileHeight sample_tmx = 32"
  by (simp_all add: sample_tmx_def)

lemma playable_sample: "playable sample_tmx"
  by (simp add: playable_def)

lemma sample_cells_solid: "solid_cell sample_tmx 1 0" "\<not> solid_cell sample_tmx 1 1" "\<not> solid_cell sample_tmx 0 1"
  by (simp_all add: solid_cell_def sample_tmx_def sample_layer_def laid_def)

lemma sample_spawn: "gm_spawnPoint (Map_new (0, 0) sample_tmx) = (2, 1)"
  by (simp add: cells_def spawn_cell_def sample_tmx_def sample_layer_def laid_def upto_rec1)

end
