(* ===== verification/WorldProperties.thy ===== *)
theory WorldProperties imports SampleWorld begin

text \<open>The world a player moves in: the table of tiles, steps on its grid, its edges, and the moves of a frame.\<close>

text \<open>C23: A map's table has one tile per cell, row by row; each says whether some layer lays a tile on a solid layer
  or an interesting tile there, and none is ever a spawn tile. The spawn point is the last cell, row by row, of a
  layer named __playerSpawn; a map without one keeps the value the member was created with.\<close>

theorem tile_table:
  assumes "playable m"
  shows "length (gm_tiles (Map_new u m)) = nat (tm_width m * tm_height m)
    \<and> (\<forall>x y. 0 \<le> x \<and> x < tm_width m \<and> 0 \<le> y \<and> y < tm_height m \<longrightarrow>
         getTile (Map_new u m) (of_int x) (of_int y)
           = Inr (MapTile_new (solid_cell m x y) (interesting_cell m x y) False))
    \<and> (if \<forall>c \<in> set (cells m). \<not> spawn_cell m c then gm_spawnPoint (Map_new u m) = u
       else spawn_cell m (gm_spawnPoint (Map_new u m)) \<and> gm_spawnPoint (Map_new u m) \<in> set (cells m)
         \<and> (\<forall>c \<in> set (cells m). spawn_cell m c \<and> c \<noteq> gm_spawnPoint (Map_new u m) \<longrightarrow>
              snd c < snd (gm_spawnPoint (Map_new u m))
              \<or> snd c = snd (gm_spawnPoint (Map_new u m)) \<and> fst c < fst (gm_spawnPoint (Map_new u m))))"
proof -
  have p: "0 \<le> tm_width m" "0 \<le> tm_height m" "tm_width m * tm_height m \<le> 2 ^ 32"
    using assms by (auto simp: playable_def algebra_simps)
  let ?ss = "filter (spawn_cell m) (cells m)"
  have sorted: "sorted_wrt (\<lambda>a b. snd a < snd b \<or> snd a = snd b \<and> fst a < fst b) ?ss"
    by (rule sorted_wrt_filter [OF sorted_cells])
  have spawn: "if \<forall>c \<in> set (cells m). \<not> spawn_cell m c then last_or u ?ss = u
      else last_or u ?ss \<in> set ?ss \<and> (\<forall>c \<in> set ?ss. c \<noteq> last_or u ?ss \<longrightarrow>
        snd c < snd (last_or u ?ss) \<or> snd c = snd (last_or u ?ss) \<and> fst c < fst (last_or u ?ss))"
  proof (cases "?ss = []")
    case True
    then show ?thesis by (simp add: last_or_def filter_empty_conv)
  next
    case False
    then have "\<not> (\<forall>c \<in> set (cells m). \<not> spawn_cell m c)" "last_or u ?ss = last ?ss"
      by (auto simp: last_or_def filter_empty_conv)
    then show ?thesis
      using last_in_set [OF False] last_is_greatest [OF sorted] by (simp only: if_False) blast
  qed
  have tiles: "getTile (Map_new u m) (of_int x) (of_int y)
      = Inr (MapTile_new (solid_cell m x y) (interesting_cell m x y) False)"
    if "0 \<le> x" "x < tm_width m" "0 \<le> y" "y < tm_height m" for x y
    using getTile_inside [OF that p(3)] by (simp add: cell_tile_def)
  show ?thesis using spawn tiles p by (auto simp: length_cells split: if_splits)
qed

text \<open>C38: Beyond the edges nothing stops a player: past the right edge the collision test reads the first tile of
  the next row, and past the last row it reads beyond the table; to the left and above the conversion of the
  negative coordinate is undefined.\<close>

theorem map_edges:
  assumes "playable m" "0 \<le> x" "x < tm_width m" "0 \<le> y" "y < tm_height m"
  shows "isSolidAtCoord (Map_new u m) (fst (corner m (tm_width m) y)) (snd (corner m (tm_width m) y))
      = (if y + 1 < tm_height m then Inr (solid_cell m 0 (y + 1)) else Inl OutOfBounds)
    \<and> isSolidAtCoord (Map_new u m) (fst (corner m x (tm_height m))) (snd (corner m x (tm_height m))) = Inl OutOfBounds
    \<and> isSolidAtCoord (Map_new u m) (fst (corner m (- 1) y)) (snd (corner m (- 1) y)) = Inl UndefinedConversion
    \<and> isSolidAtCoord (Map_new u m) (fst (corner m x (- 1))) (snd (corner m x (- 1))) = Inl UndefinedConversion"
proof -
  let ?w = "tm_width m" and ?h = "tm_height m"
  have p: "0 < ?w" "0 < ?h" "?w * (?h + 1) < 2 ^ 32" using assms(1) by (simp_all add: playable_def)
  have row: "?w * (y + 1) \<le> ?w * ?h" using p(1) assms(5) by (intro mult_left_mono) auto
  have div: "(?w + ?w * y) div ?w = y + 1" "(?w + ?w * y) mod ?w = 0"
    using p(1) by (simp_all add: div_add1_eq)
  have lt: "?w + ?w * y < ?w * ?h \<longleftrightarrow> y + 1 < ?h"
    using p(1) mult_less_cancel_left_pos [of ?w "y + 1" ?h] by (simp add: algebra_simps)
  have "isSolidAtCoord (Map_new u m) (fst (corner m ?w y)) (snd (corner m ?w y))
      = (if y + 1 < ?h then Inr (solid_cell m 0 (y + 1)) else Inl OutOfBounds)"
  proof -
    have "?w + ?w * y < 2 ^ 32" using p row by (simp add: algebra_simps)
    then show ?thesis using solid_at_corner [OF assms(1), of ?w y u] p(1) assms(4,5) by (simp add: div lt)
  qed
  moreover have "isSolidAtCoord (Map_new u m) (fst (corner m x ?h)) (snd (corner m x ?h)) = Inl OutOfBounds"
    using solid_at_corner [OF assms(1), of x ?h u] p assms(2,3) by (simp add: algebra_simps)
  moreover have "isSolidAtCoord (Map_new u m) (fst (corner m (- 1) y)) (snd (corner m (- 1) y)) = Inl UndefinedConversion"
    using solid_at_corner [OF assms(1), of "- 1" y u] p row assms(4,5) by (simp add: algebra_simps)
  moreover have "isSolidAtCoord (Map_new u m) (fst (corner m x (- 1))) (snd (corner m x (- 1))) = Inl UndefinedConversion"
    using solid_at_corner [OF assms(1), of x "- 1" u] p assms(2,3) by (simp add: algebra_simps)
  ultimately show ?thesis by blast
qed

text \<open>Where an entity's own moves take it, one after the other: a move whose destination is solid is left out.\<close>

fun walk :: "game_map \<Rightarrow> move list \<Rightarrow> vec2 \<Rightarrow> vec2" where
  "walk m [] p = p"
| "walk m (move # moves) p =
     (case destination m move p of
        Inr d \<Rightarrow> walk m moves (if isSolidAtCoord m (fst d) (snd d) = Inr False then d else p)
      | Inl _ \<Rightarrow> walk m moves p)"

definition walked :: "game_map \<Rightarrow> move list \<Rightarrow> 'g entity \<Rightarrow> 'g entity \<Rightarrow> bool" where
  "walked m moves e e' \<longleftrightarrow>
     (if moves = [] then e' = e
      else \<exists>p. en_position e = Some p \<and> e' = e\<lparr>en_position := Some (walk m moves p)\<rparr>)"

lemma performMove_walked:
  assumes "performMove E m move (es, network) = Inr (es1, network1)" "walked m (filter (\<lambda>v. mv_entity v = i) moves) (es1 ! i) e"
    and "i < length es"
  shows "walked m (filter (\<lambda>v. mv_entity v = i) (move # moves)) (es ! i) e"
proof -
  obtain p d solid where p: "mv_entity move < length es" "en_position (es ! mv_entity move) = Some p"
      and d: "destination m move p = Inr d" "isSolidAtCoord m (fst d) (snd d) = Inr solid"
      and es1: "es1 = (if solid then es else set_position (mv_entity move) d es)"
    using assms(1) by (auto simp: performMove_def andThen_eq_Inr position_of_Inr)
  show ?thesis
  proof (cases "mv_entity move = i")
    case True
    then show ?thesis using assms(2) p d es1 by (cases solid) (auto simp: walked_def split: if_splits)
  next
    case False
    then have "es1 ! i = es ! i" using es1 p by simp
    then show ?thesis using False assms(2) by simp
  qed
qed

lemma performMoves_walked:
  "foldR (performMove E m) moves (es, network) = Inr (es', network') \<Longrightarrow> i < length es \<Longrightarrow>
   walked m (filter (\<lambda>v. mv_entity v = i) moves) (es ! i) (es' ! i)"
proof (induction moves arbitrary: es network)
  case Nil
  then show ?case by (simp add: walked_def)
next
  case (Cons move moves)
  obtain es1 n1 where step: "performMove E m move (es, network) = Inr (es1, n1)"
      and rest: "foldR (performMove E m) moves (es1, n1) = Inr (es', network')"
    using Cons.prems(1) by (auto simp: andThen_eq_Inr)
  have "i < length es1" using performMove_moved [OF step] Cons.prems(2) by (simp add: moved_def)
  then show ?case using performMove_walked [OF step Cons.IH [OF rest] Cons.prems(2)] by simp
qed

text \<open>C18: An update performs the moves that were added and forgets them: each entity ends where its own moves take it one
  after the other from where it was, whatever the others do, a move whose destination is solid being left out; so
  an entity that changes place ends on a tile that is not solid, one that no move names stays as it is, and
  nothing but positions changes. With a network system attached one packet per move is queued, moves into walls
  included, and each holds the opcode alone.\<close>

theorem movement_keeps_off_walls:
  assumes "MovementSystem_update E mo es = Inr (mo', es')"
  shows "length es' = length es
    \<and> (\<forall>i < length es. walked (mo_map mo) (filter (\<lambda>v. mv_entity v = i) (mo_moves mo)) (es ! i) (es' ! i))
    \<and> moved (mo_map mo) (mv_entity ` set (mo_moves mo)) es es'
    \<and> mo_moves mo' = [] \<and> mo_map mo' = mo_map mo
    \<and> mo_network mo' = map_option (\<lambda>q. q @ replicate (length (mo_moves mo)) (ClientPacket_new E MOVE)) (mo_network mo)"
proof -
  obtain network where run: "foldR (performMove E (mo_map mo)) (mo_moves mo) (es, mo_network mo) = Inr (es', network)"
      and mo': "mo' = mo\<lparr>mo_network := network, mo_moves := []\<rparr>"
    using assms by (auto simp: MovementSystem_update_def andThen_eq_Inr)
  show ?thesis using performMoves_moved [OF run] performMoves_walked [OF run] by (simp add: mo' moved_def)
qed

section \<open>Witnesses\<close>

lemma tile_table_witness:
  "length (gm_tiles (Map_new (0, 0) sample_tmx)) = 6
   \<and> mapRes mt_isSolid (getTile (Map_new (0, 0) sample_tmx) 1 0) = Inr True"
proof -
  note t = tile_table [OF playable_sample, of "(0, 0)"]
  then have "getTile (Map_new (0, 0) sample_tmx) (of_int 1) (of_int 0)
      = Inr (MapTile_new (solid_cell sample_tmx 1 0) (interesting_cell sample_tmx 1 0) False)"
    by (intro t [THEN conjunct2, THEN conjunct1, rule_format]) simp
  then show ?thesis using t sample_cells_solid(1) by (simp add: MapTile_new_def)
qed

definition sample_walker :: "unit entity list" where
  "sample_walker = [Entity_new\<lparr>en_position := Some (corner sample_tmx 0 1)\<rparr>]"

lemma map_edges_witness:
  "isSolidAtCoord (Map_new (0, 0) sample_tmx) (fst (corner sample_tmx 3 0)) (snd (corner sample_tmx 3 0)) = Inr False"
  using map_edges [OF playable_sample, of 0 0 "(0, 0)"] sample_cells_solid(3) by simp

lemma movement_keeps_off_walls_witness:
  "\<exists>mo es. MovementSystem_update sample_platform
       (addMove 0 0 (- 1) (addMove 0 1 0 (MovementSystem_new (Map_new (0, 0) sample_tmx) (Some [])))) sample_walker
     = Inr (mo, es) \<and> map en_position es = [Some (corner sample_tmx 1 1)]
     \<and> mo_moves mo = [] \<and> length (the (mo_network mo)) = 2"
proof -
  let ?M = "Map_new (0, 0) sample_tmx"
  let ?mo = "addMove 0 0 (- 1) (addMove 0 1 0 (MovementSystem_new ?M (Some [])))"
  have dest: "destination ?M \<lparr>mv_entity = 0, mv_xTiles = 1, mv_yTiles = 0\<rparr> (corner sample_tmx 0 1) = Inr (corner sample_tmx 1 1)"
    "destination ?M \<lparr>mv_entity = 0, mv_xTiles = 0, mv_yTiles = - 1\<rparr> (corner sample_tmx 1 1) = Inr (corner sample_tmx 1 0)"
    using destination_corner [OF playable_sample, of 0 1 "\<lparr>mv_entity = 0, mv_xTiles = 1, mv_yTiles = 0\<rparr>" "(0, 0)"]
      destination_corner [OF playable_sample, of 1 1 "\<lparr>mv_entity = 0, mv_xTiles = 0, mv_yTiles = - 1\<rparr>" "(0, 0)"]
    by simp_all
  moreover have solid: "isSolidAtCoord ?M (fst (corner sample_tmx 1 1)) (snd (corner sample_tmx 1 1)) = Inr False"
    "isSolidAtCoord ?M (fst (corner sample_tmx 1 0)) (snd (corner sample_tmx 1 0)) = Inr True"
    using solid_inside [OF playable_sample, of 1 1 "(0, 0)"] solid_inside [OF playable_sample, of 1 0 "(0, 0)"]
      sample_cells_solid by simp_all
  ultimately have "\<exists>mo es. MovementSystem_update sample_platform ?mo sample_walker = Inr (mo, es)"
    by (simp add: MovementSystem_update_def addMove_def MovementSystem_new_def performMove_def position_of_def
        sample_walker_def set_position_def)
  then obtain mo es where run: "MovementSystem_update sample_platform ?mo sample_walker = Inr (mo, es)" by blast
  note c = movement_keeps_off_walls [OF run]
  have "length es = 1" using c by (simp add: sample_walker_def)
  moreover have "walked ?M (mo_moves ?mo) (sample_walker ! 0) (es ! 0)"
    using c by (simp add: sample_walker_def addMove_def MovementSystem_new_def)
  then have "en_position (es ! 0) = Some (corner sample_tmx 1 1)"
    by (simp add: walked_def sample_walker_def addMove_def MovementSystem_new_def dest solid)
  ultimately have "map en_position es = [Some (corner sample_tmx 1 1)]"
    by (cases es) simp_all
  then show ?thesis using run c by (simp add: addMove_def MovementSystem_new_def)
qed

end
