(* ===== verification/ClientRun.thy ===== *)
theory ClientRun imports Client begin

text \<open>
  What every frame of the client keeps: one player among the entities of the layers, collisions
  with the outdoor map, layers of the outdoor renderer, a key once logged in, a character once one
  was chosen. The systems of the engine share one contract.
\<close>

section \<open>The scene\<close>

text \<open>\<open>i\<close> is the player; every other entity is a layer that stays where it was put.\<close>

definition scene :: "'g \<Rightarrow> tmx_map \<Rightarrow> nat \<Rightarrow> 'g entity list \<Rightarrow> bool" where
  "scene sprite renderer i es \<longleftrightarrow> i < length es \<and>
     (\<exists>p. es ! i = player_entity sprite p) \<and>
     (\<forall>j < length es. j \<noteq> i \<longrightarrow> (\<exists>k. es ! j = layer_entity renderer k))"

definition playing_inv :: "('b, 's, 'k, 'g, 'w) client \<Rightarrow> bool" where
  "playing_inv cl \<longleftrightarrow>
     (\<exists>i. cl_player cl = Some i \<and> scene (cl_playerSprite cl) (cl_outdoorRenderer cl) i (cl_entities cl)
        \<and> (\<forall>move \<in> set (mo_moves (cl_movement cl)). mv_entity move = i))
     \<and> mo_map (cl_movement cl) = cl_mapOutdoor cl \<and> mo_network (cl_movement cl) = None"

definition client_inv :: "('b, 's, 'k, 'g, 'w) client \<Rightarrow> bool" where
  "client_inv cl \<longleftrightarrow> playing_inv cl \<and> mo_moves (cl_movement cl) = []
     \<and> (cl_gameState cl \<noteq> LOGIN \<longrightarrow> cl_crypto cl \<noteq> None)
     \<and> (cl_gameState cl \<in> {MAP_SERVER_CONNECT, PLAYING} \<longrightarrow> cl_currentCharacter cl \<noteq> None)"

text \<open>What stays the same for good, and what a frame of play leaves alone.\<close>

definition same_assets :: "('b, 's, 'k, 'g, 'w) client \<Rightarrow> ('b, 's, 'k, 'g, 'w) client \<Rightarrow> bool" where
  "same_assets cl cl' \<longleftrightarrow> cl_mapOutdoor cl' = cl_mapOutdoor cl \<and> cl_mapIndoor cl' = cl_mapIndoor cl
     \<and> cl_playerSprite cl' = cl_playerSprite cl
     \<and> cl_outdoorRenderer cl' = cl_outdoorRenderer cl \<and> cl_indoorRenderer cl' = cl_indoorRenderer cl"

definition same_login :: "('b, 's, 'k, 'g, 'w) client \<Rightarrow> ('b, 's, 'k, 'g, 'w) client \<Rightarrow> bool" where
  "same_login cl cl' \<longleftrightarrow> same_assets cl cl' \<and> cl_gameState cl' = cl_gameState cl \<and> cl_crypto cl' = cl_crypto cl
     \<and> cl_currentCharacter cl' = cl_currentCharacter cl"

lemma same_refl [simp]: "same_assets cl cl" "same_login cl cl"
  by (simp_all add: same_assets_def same_login_def)

lemma same_trans:
  "same_assets cl cl1 \<Longrightarrow> same_assets cl1 cl2 \<Longrightarrow> same_assets cl cl2"
  "same_login cl cl1 \<Longrightarrow> same_login cl1 cl2 \<Longrightarrow> same_login cl cl2"
  by (simp_all add: same_assets_def same_login_def)

lemma player_entity_simps [simp]:
  "en_position (player_entity sp p) = Some p" "en_keyboardInputListener (player_entity sp p)"
  "en_focalPoint (player_entity sp p)" "en_renderable (player_entity sp p) = Some (Renderable_sprite sp)"
  by (simp_all add: player_entity_def)

lemma player_entity_moved: "(player_entity sp p)\<lparr>en_position := Some q\<rparr> = player_entity sp q"
  by (simp add: player_entity_def)

lemma scene_new:
  assumes "\<And>e. e \<in> set front \<union> set back \<Longrightarrow> \<exists>k. e = layer_entity r k"
  shows "scene sp r (length front) (front @ [player_entity sp p] @ back)"
proof -
  let ?es = "front @ [player_entity sp p] @ back"
  have "\<exists>k. ?es ! j = layer_entity r k" if j: "j < length ?es" "j \<noteq> length front" for j
  proof (cases "j < length front")
    case True
    then show ?thesis using assms by (simp add: nth_append)
  next
    case False
    define i where "i = j - Suc (length front)"
    have "j = Suc (length front + i)" "i < length back" using False j by (simp_all add: i_def)
    then show ?thesis using assms by (simp add: nth_append)
  qed
  moreover have "?es ! length front = player_entity sp p" "length front < length ?es"
    by (simp_all add: nth_append)
  ultimately show ?thesis unfolding scene_def by blast
qed

lemma changeToWorld_keeps:
  fixes cl :: "('b, 's, 'k, 'g, 'w) client"
  assumes "changeToWorld m cl = Inr cl'" "mo_map (cl_movement cl) = cl_mapOutdoor cl"
    and "mo_network (cl_movement cl) = None" "mo_moves (cl_movement cl) = []"
  shows "playing_inv cl'" "same_login cl cl'" "cl_movement cl' = cl_movement cl"
proof -
  let ?front = "generateFrontLayerEntities m (cl_outdoorRenderer cl) :: 'g entity list"
  let ?rear = "generateBackLayerEntities m (cl_outdoorRenderer cl) :: 'g entity list"
  obtain p where p: "spawnPosition m = Inr p"
    using assms(1) by (cases "spawnPosition m") (simp_all add: changeToWorld_def Let_def)
  have cl': "cl' = cl\<lparr>cl_entities := ?front @ [player_entity (cl_playerSprite cl) p] @ ?rear,
      cl_player := Some (length ?front)\<rparr>"
    using assms(1) by (auto simp: changeToWorld_def Let_def p)
  have "scene (cl_playerSprite cl) (cl_outdoorRenderer cl) (length ?front)
      (?front @ [player_entity (cl_playerSprite cl) p] @ ?rear)"
    by (rule scene_new) (auto simp: generateFrontLayerEntities_def generateBackLayerEntities_def)
  then show "playing_inv cl'" using assms(2-4) by (simp add: cl' playing_inv_def)
  show "same_login cl cl'" "cl_movement cl' = cl_movement cl"
    by (simp_all add: cl' same_login_def same_assets_def)
qed

section \<open>The systems\<close>

text \<open>The contract of a system: it keeps the scene and everything that is not part of playing.\<close>

locale playing_system =
  fixes A :: ashley and update :: "('b, 's, 'k, 'g, 'w) client \<Rightarrow> ('b, 's, 'k, 'g, 'w) client res"
  assumes keeps: "ashley_spec A \<Longrightarrow> playing_inv cl \<Longrightarrow> update cl = Inr cl' \<Longrightarrow> playing_inv cl' \<and> same_login cl cl'"
begin

lemma then_keeps:
  assumes "ashley_spec A" "playing_inv cl" "andThen (update cl) k = Inr r"
  shows "\<exists>cl'. playing_inv cl' \<and> same_login cl cl' \<and> k cl' = Inr r"
  using assms keeps by (auto simp: andThen_eq_Inr)

end

lemma scene_family:
  assumes "scene sp r i es" "ashley_spec A" "P (es ! i)" "\<And>k. \<not> P (layer_entity r k)"
  shows "family A P es = [i]"
proof -
  have i: "i < length es" "\<And>j. j < length es \<Longrightarrow> j \<noteq> i \<Longrightarrow> \<exists>k. es ! j = layer_entity r k"
    using assms(1) by (auto simp: scene_def)
  have "filter (\<lambda>j. P (es ! j)) [0..<length es] = filter (\<lambda>j. j = i) [0..<length es]"
    using i(2) assms(3,4) by (intro filter_cong) fastforce+
  also have "\<dots> = [i]"
    using i(1) by (induction es rule: rev_induct) auto
  finally have "mset (family A P es) = {#i#}"
    using assms(2) by (simp add: family_def ashley_spec_def)
  then show ?thesis by (metis mset_single_iff_right)
qed

lemma fold_input:
  "fold (InputSystem_processEntity pressed) [i] mo =
     (case keyMove pressed of None \<Rightarrow> mo | Some (x, y) \<Rightarrow> addMove i x y mo)"
  by (simp add: InputSystem_processEntity_def)

lemma run_input:
  assumes "playing_inv cl" "ashley_spec A" "run_system E A pressed INPUT cl = Inr cl'"
  shows "cl' = cl\<lparr>cl_movement := case keyMove pressed of None \<Rightarrow> cl_movement cl
            | Some (x, y) \<Rightarrow> addMove (the (cl_player cl)) x y (cl_movement cl)\<rparr>"
proof -
  obtain i where i: "cl_player cl = Some i" "scene (cl_playerSprite cl) (cl_outdoorRenderer cl) i (cl_entities cl)"
    using assms(1) by (auto simp: playing_inv_def)
  then have "en_keyboardInputListener (cl_entities cl ! i)" by (auto simp: scene_def)
  then have "family A en_keyboardInputListener (cl_entities cl) = [i]"
    using scene_family [OF i(2) assms(2)] by simp
  then have "cl' = cl\<lparr>cl_movement := fold (InputSystem_processEntity pressed) [i] (cl_movement cl)\<rparr>"
    using assms(3) by (simp add: run_system_def)
  then show ?thesis by (simp only: fold_input i(1) option.sel)
qed

lemma run_movement:
  assumes "playing_inv cl" "run_system E A pressed MOVEMENT cl = Inr cl'"
  shows "playing_inv cl' \<and> same_login cl cl' \<and> mo_moves (cl_movement cl') = [] \<and> cl_player cl' = cl_player cl"
proof -
  obtain i where i: "cl_player cl = Some i" "scene (cl_playerSprite cl) (cl_outdoorRenderer cl) i (cl_entities cl)"
      "\<forall>move \<in> set (mo_moves (cl_movement cl)). mv_entity move = i"
    using assms(1) by (auto simp: playing_inv_def)
  obtain mo es where run: "MovementSystem_update E (cl_movement cl) (cl_entities cl) = Inr (mo, es)"
      and cl': "cl' = cl\<lparr>cl_movement := mo, cl_entities := es\<rparr>"
    using assms(2) by (auto simp: run_system_def andThen_eq_Inr)
  obtain network where moves: "foldR (performMove E (mo_map (cl_movement cl))) (mo_moves (cl_movement cl))
        (cl_entities cl, mo_network (cl_movement cl)) = Inr (es, network)"
      and mo: "mo = (cl_movement cl)\<lparr>mo_network := network, mo_moves := []\<rparr>"
    using run by (auto simp: MovementSystem_update_def andThen_eq_Inr)
  have m: "moved (mo_map (cl_movement cl)) {i} (cl_entities cl) es" "network = None"
    using performMoves_moved [OF moves] moved_mono [of _ _ _ _ "{i}"] i(3) assms(1)
    by (auto simp: playing_inv_def)
  have "scene (cl_playerSprite cl) (cl_outdoorRenderer cl) i es"
    using m(1) i(2) unfolding moved_def scene_def by (metis player_entity_moved singletonD)
  then show ?thesis
    using assms(1) i(1) m(2) by (simp add: cl' mo playing_inv_def same_login_def same_assets_def)
qed

lemma run_camera:
  assumes "run_system E A pressed CAMERA cl = Inr cl'"
  shows "\<exists>c. cl' = cl\<lparr>cl_camera := c\<rparr>"
proof -
  have run: "foldR (\<lambda>i c. andThen (position_of (cl_entities cl) i) (\<lambda>p.
          Inr (c\<lparr>cl_camera := CameraFocusSystem_processEntity screenWidth screenHeight p\<rparr>)))
        (family A (\<lambda>e. en_position e \<noteq> None \<and> en_focalPoint e) (cl_entities cl)) cl = Inr cl'"
    using assms by (simp add: run_system_def)
  have "cl'\<lparr>cl_camera := cl_camera cl\<rparr> = cl"
    by (rule foldR_invariant [OF run]) (auto simp: andThen_eq_Inr)
  then have "cl' = cl\<lparr>cl_camera := cl_camera cl'\<rparr>"
    by (cases cl; cases cl') simp
  then show ?thesis by blast
qed

lemma run_render:
  assumes "run_system E A pressed RENDER cl = Inr cl'"
  shows "\<exists>ds. cl' = cl\<lparr>cl_drawn := ds\<rparr>"
proof -
  have run: "foldR (\<lambda>i c. andThen (drawEntity (cl_entities cl ! i)) (\<lambda>ds. Inr (c\<lparr>cl_drawn := cl_drawn c @ ds\<rparr>)))
        (family A (\<lambda>e. en_renderable e \<noteq> None \<and> en_position e \<noteq> None) (cl_entities cl)) (cl\<lparr>cl_drawn := []\<rparr>) = Inr cl'"
    using assms by (simp add: run_system_def)
  show ?thesis
    by (rule foldR_invariant [OF run]) (auto simp: andThen_eq_Inr)
qed

lemma run_input_keeps:
  assumes "ashley_spec A" "playing_inv cl" "run_system E A pressed INPUT cl = Inr cl'"
  shows "playing_inv cl' \<and> same_login cl cl'"
  using assms(2) unfolding run_input [OF assms(2,1,3)]
  by (auto simp: playing_inv_def same_login_def same_assets_def addMove_def split: option.split)

interpretation input: playing_system A "run_system E A pressed INPUT" for A E pressed
  by unfold_locales (rule run_input_keeps)

interpretation movement: playing_system A "run_system E A pressed MOVEMENT" for A E pressed
  by unfold_locales (simp add: run_movement)

interpretation camera: playing_system A "run_system E A pressed CAMERA" for A E pressed
  by unfold_locales (auto simp: playing_inv_def same_login_def same_assets_def dest!: run_camera)

interpretation rendering: playing_system A "run_system E A pressed RENDER" for A E pressed
  by unfold_locales (auto simp: playing_inv_def same_login_def same_assets_def dest!: run_render)

lemma run_order: "ashley_spec A \<Longrightarrow> as_run_order A systems = [INPUT, MOVEMENT, CAMERA, RENDER]"
  by (simp add: ashley_spec_def systems_def sort_key_def)

text \<open>A frame of play: the keys make a move, the move is performed, then nothing moves any more.\<close>

lemma engine_update_cases:
  assumes "ashley_spec A" "playing_inv cl" "engine_update E A pressed cl = Inr cl'"
  obtains cl1 cl2 c ds where "run_system E A pressed INPUT cl = Inr cl1" "run_system E A pressed MOVEMENT cl1 = Inr cl2"
    "playing_inv cl1" "playing_inv cl2" "same_login cl cl1" "same_login cl1 cl2"
    "cl' = cl2\<lparr>cl_camera := c, cl_drawn := ds\<rparr>"
proof -
  obtain cl1 cl2 cl3 where run: "run_system E A pressed INPUT cl = Inr cl1" "run_system E A pressed MOVEMENT cl1 = Inr cl2"
      "run_system E A pressed CAMERA cl2 = Inr cl3" "run_system E A pressed RENDER cl3 = Inr cl'"
    using assms(3) by (auto simp: engine_update_def run_order [OF assms(1)] andThen_eq_Inr)
  have 1: "playing_inv cl1" "same_login cl cl1" using input.keeps [OF assms(1,2) run(1)] by auto
  have 2: "playing_inv cl2" "same_login cl1 cl2" using movement.keeps [OF assms(1) 1(1) run(2)] by auto
  obtain c where c: "cl3 = cl2\<lparr>cl_camera := c\<rparr>" using run_camera [OF run(3)] by blast
  obtain ds where ds: "cl' = cl3\<lparr>cl_drawn := ds\<rparr>" using run_render [OF run(4)] by blast
  show ?thesis by (rule that [OF run(1,2) 1(1) 2(1) 1(2) 2(2)]) (simp add: c ds)
qed

lemma engine_update_keeps:
  assumes "ashley_spec A" "playing_inv cl" "engine_update E A pressed cl = Inr cl'"
  shows "playing_inv cl' \<and> same_login cl cl' \<and> mo_moves (cl_movement cl') = []"
proof -
  obtain cl1 cl2 c ds where run: "run_system E A pressed MOVEMENT cl1 = Inr cl2" "playing_inv cl1" "playing_inv cl2"
      "same_login cl cl1" "same_login cl1 cl2" "cl' = cl2\<lparr>cl_camera := c, cl_drawn := ds\<rparr>"
    using engine_update_cases [OF assms] by metis
  have "mo_moves (cl_movement cl2) = []" using run_movement [OF run(2,1)] by simp
  then show ?thesis
    using run(3,6) same_trans(2) [OF run(4,5)] by (simp add: playing_inv_def same_login_def same_assets_def)
qed

section \<open>Frames\<close>

lemma receiveChallenge_keeps:
  assumes "receiveChallenge E cl = Inr (ok, cl')"
  shows "same_assets cl cl' \<and> cl_entities cl' = cl_entities cl \<and> cl_player cl' = cl_player cl
    \<and> cl_movement cl' = cl_movement cl \<and> cl_indoor cl' = cl_indoor cl \<and> cl_gameState cl' = cl_gameState cl
    \<and> cl_currentCharacter cl' = cl_currentCharacter cl \<and> cl_username cl' = cl_username cl
    \<and> (ok \<longrightarrow> cl_crypto cl' \<noteq> None)
    \<and> (cl_crypto cl' = cl_crypto cl \<or>
       (\<exists>challenge. cl_crypto cl' = Some (RSACrypto_public E (ac_pubKey challenge)) \<and> ok = versionMatches E challenge))"
  using assms
  by (auto simp: receiveChallenge_def Let_def case_prod_beta andThen_eq_Inr same_assets_def split: if_splits)

text \<open>Leaving playing aside, a frame changes only what belongs to the login.\<close>

definition same_scene :: "('b, 's, 'k, 'g, 'w) client \<Rightarrow> ('b, 's, 'k, 'g, 'w) client \<Rightarrow> bool" where
  "same_scene cl cl' \<longleftrightarrow> same_assets cl cl' \<and> cl_entities cl' = cl_entities cl \<and> cl_player cl' = cl_player cl
     \<and> cl_movement cl' = cl_movement cl \<and> cl_indoor cl' = cl_indoor cl"

lemma same_scene_playing: "same_scene cl cl' \<Longrightarrow> playing_inv cl \<Longrightarrow> playing_inv cl'"
  by (simp add: same_scene_def same_assets_def playing_inv_def)

lemma same_scene_trans: "same_scene cl cl1 \<Longrightarrow> same_scene cl1 cl2 \<Longrightarrow> same_scene cl cl2"
  by (simp add: same_scene_def same_assets_def)

lemma sendIdentity_keeps:
  assumes "sendIdentity E cl = Inr (ok, cl')"
  shows "same_scene cl cl' \<and> cl_gameState cl' = cl_gameState cl \<and> cl_currentCharacter cl' = cl_currentCharacter cl
    \<and> cl_crypto cl' = cl_crypto cl \<and> cl_crypto cl \<noteq> None
    \<and> (ok \<longrightarrow> (\<exists>s response. receives E LOGIN_AUTHENTICATION_RESPONSE response_decode s response (cl_socket cl')
         \<and> ar_successful response))"
proof -
  obtain crypto where crypto: "cl_crypto cl = Some crypto"
    using assms by (cases "cl_crypto cl") (simp_all add: sendIdentity_def)
  obtain enc w where enc: "encryptStringPublic E crypto ''testa'' (cl_world cl) = Inr (enc, w)"
    using assms crypto by (cases "encryptStringPublic E crypto ''testa'' (cl_world cl)") (auto simp: sendIdentity_def)
  show ?thesis
    using assms
    by (auto simp: sendIdentity_def crypto enc Let_def case_prod_beta andThen_eq_Inr same_scene_def
        same_assets_def receives_iff split: if_splits)
qed

lemma doLogin_keeps:
  assumes "doLogin E cl = Inr (ok, cl')"
  shows "same_scene cl cl' \<and> cl_gameState cl' = cl_gameState cl \<and> cl_currentCharacter cl' = cl_currentCharacter cl
    \<and> (ok \<longrightarrow> cl_crypto cl' \<noteq> None
         \<and> (\<exists>s response. receives E LOGIN_AUTHENTICATION_RESPONSE response_decode s response (cl_socket cl')
              \<and> ar_successful response))"
proof -
  obtain greeted cl1 where 1: "(if \<not> so_isConnected E (cl_socket cl) then receiveChallenge E cl
        else Inr (True, cl\<lparr>cl_socket := so_clear E (cl_socket cl)\<rparr>)) = Inr (greeted, cl1)"
      and 2: "(if \<not> greeted then Inr (False, cl1) else sendIdentity E cl1) = Inr (ok, cl')"
    using assms by (auto simp: doLogin_def andThen_eq_Inr)
  have first: "same_scene cl cl1 \<and> cl_gameState cl1 = cl_gameState cl \<and> cl_currentCharacter cl1 = cl_currentCharacter cl"
  proof (cases "so_isConnected E (cl_socket cl)")
    case True
    then show ?thesis using 1 by (auto simp: same_scene_def same_assets_def)
  next
    case False
    then show ?thesis using 1 receiveChallenge_keeps [of E cl greeted cl1] by (simp add: same_scene_def)
  qed
  show ?thesis
  proof (cases greeted)
    case True
    then show ?thesis
      using 2 sendIdentity_keeps [of E cl1 ok cl'] first same_scene_trans [of cl cl1 cl'] by auto
  next
    case False
    then show ?thesis using 2 first by auto
  qed
qed

lemma case_list_eq:
  "(case xs of [] \<Rightarrow> a | x # ys \<Rightarrow> f x ys) = r \<longleftrightarrow> xs = [] \<and> a = r \<or> (\<exists>x ys. xs = x # ys \<and> f x ys = r)"
  by (cases xs) auto

lemma selectCharacter_keeps:
  assumes "selectCharacter E cl = Inr cl'"
  shows "same_scene cl cl' \<and> cl_crypto cl' = cl_crypto cl
    \<and> (cl_gameState cl' = cl_gameState cl \<and> cl_currentCharacter cl' = cl_currentCharacter cl
       \<or> cl_gameState cl' = MAP_SERVER_CONNECT \<and> (\<exists>s first others t.
            receives E PLAYER_CHARACTERS characters_decode s (first # others) t
            \<and> cl_currentCharacter cl' = Some first \<and> cl_socket cl' = snd (reply E (CharacterSelect_of E first) t)))"
  using assms
  by (auto simp: selectCharacter_def Let_def case_prod_beta andThen_eq_Inr case_list_eq same_scene_def
      same_assets_def receives_iff split: if_splits)

lemma awaitMapServer_keeps:
  assumes "awaitMapServer E cl = Inr cl'"
  shows "same_scene cl cl' \<and> cl_crypto cl' = cl_crypto cl \<and> cl_currentCharacter cl' = cl_currentCharacter cl
    \<and> (cl_gameState cl' \<in> {cl_gameState cl, CHARACTER_SELECTION}
       \<or> cl_gameState cl' = PLAYING \<and> (\<exists>msci t. receives E MAP_SERVER_CONNECTION_INSTRUCTIONS instructions_decode
            (snd (so_waitForActivity E None (so_clear E (cl_socket cl)))) msci t))"
  using assms
  by (fastforce simp: awaitMapServer_def Let_def case_prod_beta andThen_eq_Inr same_scene_def
      same_assets_def receives_iff split: if_splits)

lemma switchWorld_keeps:
  assumes "switchWorld pressed cl = Inr cl'" "playing_inv cl" "mo_moves (cl_movement cl) = []"
  shows "playing_inv cl' \<and> same_login cl cl' \<and> cl_movement cl' = cl_movement cl"
proof (cases "pressed KEY_RETURN")
  case False
  then show ?thesis using assms by (auto simp: switchWorld_def)
next
  case True
  define b where "b = (\<not> cl_indoor cl)"
  have run: "changeToWorld (if cl_indoor cl then cl_mapOutdoor cl else cl_mapIndoor cl) (cl\<lparr>cl_indoor := b\<rparr>) = Inr cl'"
    using assms(1) True by (auto simp: switchWorld_def b_def split: if_splits)
  show ?thesis
    using changeToWorld_keeps [OF run] assms(2,3) by (auto simp: playing_inv_def same_login_def same_assets_def)
qed

lemma render_keeps:
  assumes "ashley_spec A" "client_inv cl" "render E A pressed cl = Inr cl'"
  shows "client_inv cl' \<and> same_assets cl cl'"
proof -
  have inv: "playing_inv cl" "mo_moves (cl_movement cl) = []"
    using assms(2) by (simp_all add: client_inv_def)
  note same = same_scene_playing [OF _ inv(1)]
  show ?thesis
  proof (cases "cl_gameState cl")
    case LOGIN
    show ?thesis
    proof (cases "pressed KEY_SPACE")
      case True
      then obtain ok cl1 where run: "doLogin E cl = Inr (ok, cl1)"
          and cl': "cl' = (if ok then cl1\<lparr>cl_gameState := CHARACTER_SELECTION\<rparr> else cl1)"
        using assms(3) LOGIN by (auto simp: render_def andThen_eq_Inr)
      show ?thesis
        using doLogin_keeps [OF run] same [of cl1] inv(2) LOGIN
        by (auto simp: cl' client_inv_def same_scene_def same_assets_def playing_inv_def)
    next
      case False
      then show ?thesis
        using assms(2,3) LOGIN
        by (auto simp: render_def client_inv_def playing_inv_def same_assets_def split: if_splits)
    qed
  next
    case CHARACTER_SELECTION
    then show ?thesis
      using assms selectCharacter_keeps [of E cl cl'] same [of cl'] inv(2)
      by (auto simp: render_def client_inv_def same_scene_def split: if_splits)
  next
    case MAP_SERVER_CONNECT
    then show ?thesis
      using assms awaitMapServer_keeps [of E cl cl'] same [of cl'] inv(2)
      by (auto simp: render_def client_inv_def same_scene_def)
  next
    case PLAYING
    then obtain cl1 where run: "switchWorld pressed cl = Inr cl1" "engine_update E A pressed cl1 = Inr cl'"
      using assms(3) by (auto simp: render_def andThen_eq_Inr)
    note s = switchWorld_keeps [OF run(1) inv]
    note e = engine_update_keeps [OF assms(1) _ run(2)]
    show ?thesis
      using s e same_trans [of cl cl1 cl'] assms(2) by (auto simp: client_inv_def same_login_def)
  qed
qed

section \<open>Reachable clients\<close>

definition client_reachable ::
  "('b, 's, 'k, 'w, 'm) platform_scheme \<Rightarrow> ashley \<Rightarrow> (string \<Rightarrow> tmx_map) \<Rightarrow> ('b, 's, 'k, 'g, 'w) client \<Rightarrow> bool" where
  "client_reachable E A tmxRenderer cl \<longleftrightarrow>
     (\<exists>getSocket uninit sprite args w start. PlayPG_init getSocket tmxRenderer uninit sprite args w = Inr start
        \<and> (client_step E A)\<^sup>*\<^sup>* start cl)"

lemma init_inv:
  assumes "PlayPG_init getSocket tmxRenderer uninit sprite args w = Inr start"
  shows "client_inv start \<and> (\<exists>u. cl_mapOutdoor start = Map_new u (cl_outdoorRenderer start))"
proof -
  note run = assms [unfolded PlayPG_init_def Let_def]
  have "client_inv start" "cl_mapOutdoor start = Map_new uninit (cl_outdoorRenderer start)"
    using changeToWorld_keeps [OF run]
    by (simp_all add: MovementSystem_new_def client_inv_def same_login_def same_assets_def)
  then show ?thesis by blast
qed

lemma client_reachable_inv:
  assumes "client_reachable E A tmxRenderer cl" "ashley_spec A"
  shows "client_inv cl \<and> (\<exists>u. cl_mapOutdoor cl = Map_new u (cl_outdoorRenderer cl))"
proof -
  obtain getSocket uninit sprite args w start where init: "PlayPG_init getSocket tmxRenderer uninit sprite args w = Inr start"
      and run: "(client_step E A)\<^sup>*\<^sup>* start cl"
    using assms(1) by (auto simp: client_reachable_def)
  from run show ?thesis
  proof (induction rule: rtranclp_induct)
    case base
    show ?case by (rule init_inv [OF init])
  next
    case (step cl1 cl2)
    obtain pressed where "render E A pressed cl1 = Inr cl2" using step.hyps(2) by blast
    from render_keeps [OF assms(2) _ this] step.IH show ?case by (simp add: same_assets_def)
  qed
qed

end
