(* ===== verification/ClientScene.thy ===== *)
theory ClientScene imports ClientRun begin

text \<open>
  What is on the screen: the entities are the layers of the map that is shown, with the player between
  those behind and those in front, in every state the client can get to, and a frame of play draws
  each of them once.
\<close>

section \<open>Which layers are drawn where\<close>

text \<open>
  The numbers of the layers behind the player, the visible ones that no visible spawn layer precedes,
  and of those in front, the visible ones from a spawn layer on, visible or not. The two loops make
  entities of exactly these, each in the map's order.
\<close>

definition behind_player :: "tmx_layer list \<Rightarrow> nat list" where
  "behind_player ls =
     filter (\<lambda>k. tl_visible (ls ! k) \<and> (\<forall>j \<le> k. \<not> (tl_visible (ls ! j) \<and> spawn_layer (ls ! j)))) [0..<length ls]"

definition before_player :: "tmx_layer list \<Rightarrow> nat list" where
  "before_player ls = filter (\<lambda>k. tl_visible (ls ! k) \<and> (\<exists>j \<le> k. spawn_layer (ls ! j))) [0..<length ls]"

lemma all_le_Suc: "(\<forall>j \<le> Suc k. P j) \<longleftrightarrow> P 0 \<and> (\<forall>j \<le> k. P (Suc j))"
  by (metis Suc_le_mono le0 not0_implies_Suc)

lemma ex_le_Suc: "(\<exists>j \<le> Suc k. P j) \<longleftrightarrow> P 0 \<or> (\<exists>j \<le> k. P (Suc j))"
  using all_le_Suc [of k "\<lambda>j. \<not> P j"] by blast

lemma filter_upt_Suc:
  "filter P [0..<Suc n] = (if P 0 then 0 # map Suc (filter (\<lambda>k. P (Suc k)) [0..<n]) else map Suc (filter (\<lambda>k. P (Suc k)) [0..<n]))"
  by (simp add: upt_conv_Cons map_Suc_upt [symmetric] filter_map comp_def del: upt_Suc)

lemma frontLayers_behind: "frontLayers i ls = map ((+) i) (behind_player ls)"
proof (induction ls arbitrary: i)
  case (Cons l ls)
  then show ?case
    by (simp add: behind_player_def filter_upt_Suc all_le_Suc comp_def spawn_layer_def del: upt_Suc)
qed (simp add: behind_player_def)

lemma visible_from_filter: "visible_from i ls = map ((+) i) (filter (\<lambda>k. tl_visible (ls ! k)) [0..<length ls])"
proof (induction ls arbitrary: i)
  case (Cons l ls)
  then show ?case by (simp add: filter_upt_Suc comp_def del: upt_Suc)
qed simp

lemma backLayers_before: "backLayers False i ls = map ((+) i) (before_player ls)"
proof (induction ls arbitrary: i)
  case (Cons l ls)
  then show ?case
    by (cases "spawn_layer l") (simp_all add: before_player_def filter_upt_Suc ex_le_Suc comp_def spawn_layer_def Let_def backLayers_found
        visible_from_filter del: upt_Suc)
qed (simp add: before_player_def)

lemma layers_in_order:
  assumes "\<And>j. j < length ls \<Longrightarrow> spawn_layer (ls ! j) \<Longrightarrow> \<forall>i < j. \<not> spawn_layer (ls ! i) \<Longrightarrow> tl_visible (ls ! j)"
  shows "behind_player ls @ before_player ls = filter (\<lambda>k. tl_visible (ls ! k)) [0..<length ls]"
proof -
  let ?b = "length (takeWhile (\<lambda>l. \<not> spawn_layer l) ls)"
  have spawn: "(\<exists>j \<le> k. spawn_layer (ls ! j)) \<longleftrightarrow> ?b \<le> k" if "k < length ls" for k
  proof
    assume "\<exists>j \<le> k. spawn_layer (ls ! j)"
    then obtain j where "j \<le> k" "spawn_layer (ls ! j)" by blast
    then show "?b \<le> k" by (metis le_trans linorder_not_less nth_mem set_takeWhileD takeWhile_nth)
  next
    assume "?b \<le> k"
    then show "\<exists>j \<le> k. spawn_layer (ls ! j)"
      using that nth_length_takeWhile [of "\<lambda>l. \<not> spawn_layer l" ls] by (intro exI [of _ ?b]) simp
  qed
  have visible: "(\<forall>j \<le> k. \<not> (tl_visible (ls ! j) \<and> spawn_layer (ls ! j))) \<longleftrightarrow> k < ?b" if "k < length ls" for k
  proof
    assume none: "\<forall>j \<le> k. \<not> (tl_visible (ls ! j) \<and> spawn_layer (ls ! j))"
    show "k < ?b"
    proof (rule ccontr)
      assume "\<not> k < ?b"
      then have "?b < length ls" "spawn_layer (ls ! ?b)"
        using that nth_length_takeWhile [of "\<lambda>l. \<not> spawn_layer l" ls] by simp_all
      moreover have "\<forall>i < ?b. \<not> spawn_layer (ls ! i)" by (metis nth_mem set_takeWhileD takeWhile_nth)
      ultimately have "tl_visible (ls ! ?b)" using assms by blast
      then show False using none \<open>\<not> k < ?b\<close> \<open>spawn_layer (ls ! ?b)\<close> by simp
    qed
  next
    assume "k < ?b"
    then show "\<forall>j \<le> k. \<not> (tl_visible (ls ! j) \<and> spawn_layer (ls ! j))" using spawn that by (meson linorder_not_less)
  qed
  have b: "?b \<le> length ls" by (simp add: length_takeWhile_le)
  have split: "[0..<length ls] = [0..<?b] @ [?b..<length ls]"
    using upt_add_eq_append [of 0 ?b "length ls - ?b"] b by simp
  have "behind_player ls = filter (\<lambda>k. tl_visible (ls ! k)) [0..<?b]"
  proof -
    have "behind_player ls = filter (\<lambda>k. tl_visible (ls ! k) \<and> k < ?b) ([0..<?b] @ [?b..<length ls])"
      unfolding behind_player_def split [symmetric] using visible by (intro filter_cong) auto
    also have "\<dots> = filter (\<lambda>k. tl_visible (ls ! k)) [0..<?b]" by (auto intro: filter_cong)
    finally show ?thesis .
  qed
  moreover have "before_player ls = filter (\<lambda>k. tl_visible (ls ! k)) [?b..<length ls]"
  proof -
    have "before_player ls = filter (\<lambda>k. tl_visible (ls ! k) \<and> ?b \<le> k) ([0..<?b] @ [?b..<length ls])"
      unfolding before_player_def split [symmetric] using spawn by (intro filter_cong) auto
    also have "\<dots> = filter (\<lambda>k. tl_visible (ls ! k)) [?b..<length ls]" by (auto intro: filter_cong)
    finally show ?thesis .
  qed
  ultimately show ?thesis unfolding split by (simp only: filter_append)
qed

lemma behind_player_iff:
  "k \<in> set (behind_player ls) \<longleftrightarrow> k < length ls \<and> tl_visible (ls ! k)
     \<and> (\<forall>j \<le> k. \<not> (tl_visible (ls ! j) \<and> spawn_layer (ls ! j)))"
  unfolding behind_player_def by auto

lemma before_player_iff:
  "k \<in> set (before_player ls) \<longleftrightarrow> k < length ls \<and> tl_visible (ls ! k) \<and> (\<exists>j \<le> k. spawn_layer (ls ! j))"
  unfolding before_player_def by auto

lemma layers_ascend: "sorted_wrt (<) (behind_player ls)" "sorted_wrt (<) (before_player ls)"
  by (simp_all add: behind_player_def before_player_def sorted_wrt_filter)

lemma layer_numbers [simp]: "frontLayers 0 ls = behind_player ls" "backLayers False 0 ls = before_player ls"
  using frontLayers_behind [of 0 ls] backLayers_before [of 0 ls] by (simp_all add: map_idI)

lemma generate_layers:
  "generateFrontLayerEntities p r = map (layer_entity r) (behind_player (tm_tileLayers (gm_map p)))"
  "generateBackLayerEntities p r = map (layer_entity r) (before_player (tm_tileLayers (gm_map p)))"
  by (simp_all add: generateFrontLayerEntities_def generateBackLayerEntities_def)

section \<open>The entities\<close>

definition shown_map :: "('b, 's, 'k, 'g, 'w) client \<Rightarrow> game_map" where
  "shown_map cl = (if cl_indoor cl then cl_mapIndoor cl else cl_mapOutdoor cl)"

definition scene_entities :: "game_map \<Rightarrow> tmx_map \<Rightarrow> 'g \<Rightarrow> vec2 \<Rightarrow> 'g entity list" where
  "scene_entities m renderer sprite p =
     generateFrontLayerEntities m renderer @ [player_entity sprite p] @ generateBackLayerEntities m renderer"

definition is_scene :: "game_map \<Rightarrow> tmx_map \<Rightarrow> 'g \<Rightarrow> 'g entity list \<Rightarrow> bool" where
  "is_scene m renderer sprite es \<longleftrightarrow> (\<exists>p. es = scene_entities m renderer sprite p)"

lemma is_sceneI [intro, simp]: "is_scene m r sp (scene_entities m r sp p)"
  unfolding is_scene_def by blast

definition scene_inv :: "('b, 's, 'k, 'g, 'w) client \<Rightarrow> bool" where
  "scene_inv cl \<longleftrightarrow>
     is_scene (shown_map cl) (cl_outdoorRenderer cl) (cl_playerSprite cl) (cl_entities cl)
     \<and> cl_player cl = Some (length (frontLayers 0 (tm_tileLayers (gm_map (shown_map cl)))))"

lemma length_front [simp]:
  "length (generateFrontLayerEntities m r) = length (frontLayers 0 (tm_tileLayers (gm_map m)))"
  by (simp add: generateFrontLayerEntities_def)

lemma changeToWorld_scene:
  assumes "changeToWorld m cl = Inr cl'"
  shows "is_scene m (cl_outdoorRenderer cl') (cl_playerSprite cl') (cl_entities cl')
    \<and> cl_player cl' = Some (length (frontLayers 0 (tm_tileLayers (gm_map m)))) \<and> cl_indoor cl' = cl_indoor cl
    \<and> same_assets cl cl'"
proof -
  obtain p where "cl' = cl\<lparr>cl_entities := scene_entities m (cl_outdoorRenderer cl) (cl_playerSprite cl) p,
      cl_player := Some (length (frontLayers 0 (tm_tileLayers (gm_map m))))\<rparr>"
    using assms by (auto simp: changeToWorld_def Let_def andThen_eq_Inr scene_entities_def)
  then show ?thesis by (simp add: same_assets_def)
qed

lemma switchWorld_scene:
  assumes "switchWorld pressed cl = Inr cl'" "scene_inv cl"
  shows "scene_inv cl'" "shown_map cl' = (if pressed KEY_RETURN then
      (if cl_indoor cl then cl_mapOutdoor cl else cl_mapIndoor cl) else shown_map cl)"
proof -
  have "scene_inv cl' \<and> shown_map cl' = (if pressed KEY_RETURN then
      (if cl_indoor cl then cl_mapOutdoor cl else cl_mapIndoor cl) else shown_map cl)"
  proof (cases "pressed KEY_RETURN")
    case False
    then show ?thesis using assms by (simp add: switchWorld_def)
  next
    case True
    define b where "b = (\<not> cl_indoor cl)"
    define m where "m = (if cl_indoor cl then cl_mapOutdoor cl else cl_mapIndoor cl)"
    have "changeToWorld m (cl\<lparr>cl_indoor := b\<rparr>) = Inr cl'"
      using assms(1) True by (auto simp: switchWorld_def b_def m_def split: if_splits)
    from changeToWorld_scene [OF this] have "shown_map cl' = m"
        "is_scene m (cl_outdoorRenderer cl') (cl_playerSprite cl') (cl_entities cl')"
        "cl_player cl' = Some (length (frontLayers 0 (tm_tileLayers (gm_map m))))"
      by (auto simp: shown_map_def same_assets_def b_def m_def)
    then show ?thesis using True by (simp add: scene_inv_def m_def)
  qed
  then show "scene_inv cl'" "shown_map cl' = (if pressed KEY_RETURN then
      (if cl_indoor cl then cl_mapOutdoor cl else cl_mapIndoor cl) else shown_map cl)" by simp_all
qed

text \<open>The movement changes where the player is and nothing else of the scene.\<close>

lemma scene_nth:
  assumes "i = length (frontLayers 0 (tm_tileLayers (gm_map w)))"
  shows "scene_entities w r sp p ! i = player_entity sp p" "i < length (scene_entities w r sp p)"
    "(scene_entities w r sp p)[i := player_entity sp q] = scene_entities w r sp q"
  using assms by (simp_all add: scene_entities_def nth_append list_update_append)

lemma moved_scene:
  assumes "moved m {i} es es'" "is_scene w r sp es" "i = length (frontLayers 0 (tm_tileLayers (gm_map w)))"
  shows "is_scene w r sp es'"
proof -
  obtain p where es: "es = scene_entities w r sp p" using assms(2) unfolding is_scene_def by blast
  have i: "es ! i = player_entity sp p" "i < length es" using scene_nth [OF assms(3)] es by simp_all
  obtain q where q: "es' ! i = player_entity sp q"
    using assms(1) i player_entity_moved unfolding moved_def by metis
  have "es' = es[i := player_entity sp q]"
  proof (rule nth_equalityI)
    show "length es' = length (es[i := player_entity sp q])" using assms(1) by (simp add: moved_def)
    fix j assume "j < length es'"
    then show "es' ! j = es[i := player_entity sp q] ! j"
      using assms(1) i(2) q by (cases "j = i") (simp_all add: moved_def)
  qed
  then show ?thesis using scene_nth(3) [OF assms(3), of r sp p q] es by simp
qed

section \<open>A frame of play\<close>

lemma run_movement_scene:
  assumes "playing_inv cl" "scene_inv cl" "run_system E A pressed MOVEMENT cl = Inr cl'"
  shows "scene_inv cl' \<and> shown_map cl' = shown_map cl"
proof -
  obtain i where i: "cl_player cl = Some i" "\<forall>move \<in> set (mo_moves (cl_movement cl)). mv_entity move = i"
    using assms(1) by (auto simp: playing_inv_def)
  obtain mo es where run: "MovementSystem_update E (cl_movement cl) (cl_entities cl) = Inr (mo, es)"
      and cl': "cl' = cl\<lparr>cl_movement := mo, cl_entities := es\<rparr>"
    using assms(3) by (auto simp: run_system_def andThen_eq_Inr)
  obtain network where moves: "foldR (performMove E (mo_map (cl_movement cl))) (mo_moves (cl_movement cl))
        (cl_entities cl, mo_network (cl_movement cl)) = Inr (es, network)"
    using run by (auto simp: MovementSystem_update_def andThen_eq_Inr)
  have m: "moved (mo_map (cl_movement cl)) {i} (cl_entities cl) es"
    using performMoves_moved [OF moves] moved_mono [of _ _ _ _ "{i}"] i(2) by auto
  have shown: "shown_map cl' = shown_map cl" by (simp add: cl' shown_map_def)
  have "is_scene (shown_map cl) (cl_outdoorRenderer cl) (cl_playerSprite cl) (cl_entities cl)"
      "i = length (frontLayers 0 (tm_tileLayers (gm_map (shown_map cl))))"
    using assms(2) i(1) by (simp_all add: scene_inv_def)
  from moved_scene [OF m this] show ?thesis
    using assms(2) shown by (simp add: scene_inv_def cl')
qed

lemma run_input_scene:
  assumes "run_system E A pressed INPUT cl = Inr cl'"
  shows "\<exists>mo. cl' = cl\<lparr>cl_movement := mo\<rparr>"
  using assms by (auto simp: run_system_def)

text \<open>The loop of the renderer: what each entity draws, in the order of the visit.\<close>

lemma foldR_draws:
  "foldR (\<lambda>i c. andThen (g i) (\<lambda>ds. Inr (c\<lparr>cl_drawn := cl_drawn c @ ds\<rparr>))) is c =
     andThen (mapR g is) (\<lambda>dss. Inr (c\<lparr>cl_drawn := cl_drawn c @ concat dss\<rparr>))"
proof (induction "is" arbitrary: c)
  case (Cons i "is")
  then show ?case by (cases "g i"; cases "mapR g is") simp_all
qed simp

text \<open>What an entity of a scene draws.\<close>

definition scene_draws :: "game_map \<Rightarrow> tmx_map \<Rightarrow> 'g \<Rightarrow> vec2 \<Rightarrow> 'g draw list" where
  "scene_draws m renderer sprite p =
     map (\<lambda>k. DrawLayer (tm_tileLayers renderer ! k)) (frontLayers 0 (tm_tileLayers (gm_map m)))
     @ [DrawSprite sprite p]
     @ map (\<lambda>k. DrawLayer (tm_tileLayers renderer ! k)) (backLayers False 0 (tm_tileLayers (gm_map m)))"

definition scene_layers :: "game_map \<Rightarrow> nat list" where
  "scene_layers m = frontLayers 0 (tm_tileLayers (gm_map m)) @ backLayers False 0 (tm_tileLayers (gm_map m))"

lemma drawEntity_player: "drawEntity (player_entity sp p) = Inr [DrawSprite sp p]"
  by (simp add: drawEntity_def Renderable_sprite_def drawSpriteBase_def)

lemma layer_drawable: "isl (drawEntity (layer_entity r k)) \<longleftrightarrow> \<not> k < length (tm_tileLayers r)"
  by (simp add: drawEntity_layer)

lemma scene_drawable:
  "(\<forall>e \<in> set (scene_entities m r sp p). isl (drawEntity e) = False)
     \<longleftrightarrow> (\<forall>k \<in> set (scene_layers m). k < length (tm_tileLayers r))"
  by (simp add: scene_entities_def scene_layers_def generateFrontLayerEntities_def generateBackLayerEntities_def
      drawEntity_player layer_drawable ball_Un)

lemma scene_drawn:
  fixes sp :: 'g
  assumes "\<forall>k \<in> set (scene_layers m). k < length (tm_tileLayers r)"
  shows "concat (map (projr \<circ> drawEntity) (scene_entities m r sp p)) = scene_draws m r sp p"
proof -
  have "concat (map (projr \<circ> drawEntity \<circ> layer_entity r) ks)
      = (map (\<lambda>k. DrawLayer (tm_tileLayers r ! k)) ks :: 'g draw list)"
    if "\<forall>k \<in> set ks. k < length (tm_tileLayers r)" for ks
    using that by (induction ks) (simp_all add: drawEntity_layer)
  then show ?thesis
    using assms
    by (simp add: scene_entities_def scene_draws_def scene_layers_def generateFrontLayerEntities_def
        generateBackLayerEntities_def drawEntity_player comp_assoc)
qed

lemma mapR_Inr:
  "mapR f xs = Inr ys \<Longrightarrow> (\<forall>x \<in> set xs. isl (f x) = False) \<and> ys = map (projr \<circ> f) xs"
  by (induction xs arbitrary: ys) (auto simp: andThen_eq_Inr)

lemma mset_concat_map: "mset xs = mset ys \<Longrightarrow> mset (concat (map f xs)) = mset (concat (map f ys))"
proof -
  have "mset (concat (map f xs)) = sum_mset (image_mset (\<lambda>x. mset (f x)) (mset xs))" for xs
    by (induction xs) simp_all
  then show "mset xs = mset ys \<Longrightarrow> ?thesis" by simp
qed

lemma run_render_draws:
  assumes "run_system E A pressed RENDER cl = Inr cl'" "ashley_spec A"
    and "cl_entities cl = scene_entities m r sp p"
  shows "(\<forall>k \<in> set (scene_layers m). k < length (tm_tileLayers r)) \<and> mset (cl_drawn cl') = mset (scene_draws m r sp p)"
proof -
  let ?es = "scene_entities m r sp p" and ?P = "\<lambda>e. en_renderable e \<noteq> None \<and> en_position e \<noteq> None"
  let ?g = "\<lambda>i. drawEntity (?es ! i)"
  have "?P e" if "e \<in> set ?es" for e
    using that by (auto simp: scene_entities_def generateFrontLayerEntities_def generateBackLayerEntities_def)
  then have "filter (\<lambda>i. ?P (?es ! i)) [0..<length ?es] = [0..<length ?es]"
    by (intro filter_True) simp
  then have fam: "mset (family A ?P ?es) = mset [0..<length ?es]"
    using assms(2) by (simp add: family_def ashley_spec_def)
  obtain dss where dss: "mapR ?g (family A ?P ?es) = Inr dss" "cl_drawn cl' = concat dss"
    using assms(1) by (auto simp: run_system_def assms(3) foldR_draws andThen_eq_Inr)
  note d = mapR_Inr [OF dss(1)]
  have "set (family A ?P ?es) = {0..<length ?es}" using mset_eq_setD [OF fam] by simp
  then have "\<forall>e \<in> set ?es. isl (drawEntity e) = False"
    using d by (auto simp: in_set_conv_nth)
  then have ok: "\<forall>k \<in> set (scene_layers m). k < length (tm_tileLayers r)" by (simp only: scene_drawable)
  have "mset (cl_drawn cl') = mset (concat (map (projr \<circ> ?g) [0..<length ?es]))"
    using d dss(2) mset_concat_map [OF fam] by simp
  also have "map (projr \<circ> ?g) [0..<length ?es] = map (projr \<circ> drawEntity) ?es"
    by (rule nth_equalityI) simp_all
  finally show ?thesis using ok by (simp only: scene_drawn [OF ok])
qed

section \<open>Frames and runs\<close>

text \<open>The other states of the game leave the scene alone.\<close>

lemma shown_map_cong:
  "cl_indoor cl' = cl_indoor cl \<Longrightarrow> same_assets cl cl' \<Longrightarrow> shown_map cl' = shown_map cl"
  by (simp add: same_assets_def shown_map_def)

lemma scene_inv_cong:
  "cl_indoor cl' = cl_indoor cl \<Longrightarrow> same_assets cl cl' \<Longrightarrow> cl_entities cl' = cl_entities cl \<Longrightarrow>
    cl_player cl' = cl_player cl \<Longrightarrow> scene_inv cl' = scene_inv cl"
  using shown_map_cong [of cl' cl] by (simp add: scene_inv_def same_assets_def)

lemma same_scene_scene: "same_scene cl cl' \<Longrightarrow> scene_inv cl \<Longrightarrow> scene_inv cl'"
  using scene_inv_cong [of cl' cl] by (simp add: same_scene_def)

lemma engine_update_scene:
  assumes "ashley_spec A" "playing_inv cl" "scene_inv cl" "engine_update E A pressed cl = Inr cl'"
  obtains p where "cl_entities cl' = scene_entities (shown_map cl) (cl_outdoorRenderer cl) (cl_playerSprite cl) p"
    "scene_inv cl'" "shown_map cl' = shown_map cl" "same_assets cl cl'"
    "\<forall>k \<in> set (scene_layers (shown_map cl)). k < length (tm_tileLayers (cl_outdoorRenderer cl))"
    "mset (cl_drawn cl') = mset (scene_draws (shown_map cl) (cl_outdoorRenderer cl) (cl_playerSprite cl) p)"
proof -
  obtain cl1 cl2 cl3 where run: "run_system E A pressed INPUT cl = Inr cl1" "run_system E A pressed MOVEMENT cl1 = Inr cl2"
      "run_system E A pressed CAMERA cl2 = Inr cl3" "run_system E A pressed RENDER cl3 = Inr cl'"
    using assms(4) by (auto simp: engine_update_def run_order [OF assms(1)] andThen_eq_Inr)
  obtain mo where cl1: "cl1 = cl\<lparr>cl_movement := mo\<rparr>" using run_input_scene [OF run(1)] by blast
  have assets1: "same_assets cl cl1" "cl_indoor cl1 = cl_indoor cl" by (simp_all add: cl1 same_assets_def)
  have inv1: "playing_inv cl1" "scene_inv cl1" "shown_map cl1 = shown_map cl"
    using input.keeps [OF assms(1,2) run(1)] assms(3) scene_inv_cong [OF assets1(2,1)] shown_map_cong [OF assets1(2,1)]
    by (simp_all add: cl1)
  have 2: "scene_inv cl2" "shown_map cl2 = shown_map cl1" "same_assets cl1 cl2"
    using run_movement_scene [OF inv1(1,2) run(2)] run_movement [OF inv1(1) run(2)] by (simp_all add: same_login_def)
  obtain c where c: "cl3 = cl2\<lparr>cl_camera := c\<rparr>" using run_camera [OF run(3)] by blast
  obtain ds where ds: "cl' = cl3\<lparr>cl_drawn := ds\<rparr>" using run_render [OF run(4)] by blast
  have last: "same_assets cl2 cl'" "cl_indoor cl' = cl_indoor cl2" by (simp_all add: ds c same_assets_def)
  have assets: "same_assets cl cl'" using assets1(1) 2(3) last(1) same_trans(1) by blast
  have shown: "shown_map cl' = shown_map cl" "scene_inv cl'"
    using shown_map_cong [OF last(2,1)] scene_inv_cong [OF last(2,1)] 2(1,2) inv1(3) by (simp_all add: ds c)
  obtain p where "cl_entities cl2 = scene_entities (shown_map cl2) (cl_outdoorRenderer cl2) (cl_playerSprite cl2) p"
    using 2(1) by (auto simp: scene_inv_def is_scene_def)
  moreover have "cl_outdoorRenderer cl2 = cl_outdoorRenderer cl" "cl_playerSprite cl2 = cl_playerSprite cl"
    using same_trans(1) [OF assets1(1) 2(3)] by (simp_all add: same_assets_def)
  ultimately have p: "cl_entities cl3 = scene_entities (shown_map cl) (cl_outdoorRenderer cl) (cl_playerSprite cl) p"
    using 2(2) inv1(3) by (simp add: c)
  then have "cl_entities cl' = scene_entities (shown_map cl) (cl_outdoorRenderer cl) (cl_playerSprite cl) p"
    by (simp add: ds)
  from that [OF this shown(2,1) assets] run_render_draws [OF run(4) assms(1) p] show thesis by blast
qed

lemma render_scene:
  assumes "ashley_spec A" "client_inv cl" "scene_inv cl" "render E A pressed cl = Inr cl'"
  shows "scene_inv cl'"
proof (cases "cl_gameState cl")
  case LOGIN
  show ?thesis
  proof (cases "pressed KEY_SPACE")
    case True
    then obtain ok cl1 where run: "doLogin E cl = Inr (ok, cl1)"
        and cl': "cl' = (if ok then cl1\<lparr>cl_gameState := CHARACTER_SELECTION\<rparr> else cl1)"
      using assms(4) LOGIN by (auto simp: render_def andThen_eq_Inr)
    have "scene_inv cl1" using same_scene_scene [OF _ assms(3)] doLogin_keeps [OF run] by blast
    moreover have "scene_inv cl' = scene_inv cl1" by (rule scene_inv_cong) (simp_all add: cl' same_assets_def)
    ultimately show ?thesis by simp
  next
    case False
    have "scene_inv cl' = scene_inv cl"
      by (rule scene_inv_cong) (use assms(4) LOGIN False in \<open>auto simp: render_def same_assets_def split: if_splits\<close>)
    then show ?thesis using assms(3) by simp
  qed
next
  case CHARACTER_SELECTION
  then show ?thesis
    using assms(3,4) selectCharacter_keeps [of E cl cl'] same_scene_scene [of cl cl']
    by (auto simp: render_def split: if_splits)
next
  case MAP_SERVER_CONNECT
  then show ?thesis
    using assms(3,4) awaitMapServer_keeps [of E cl cl'] same_scene_scene [of cl cl']
    by (auto simp: render_def)
next
  case PLAYING
  then obtain cl1 where run: "switchWorld pressed cl = Inr cl1" "engine_update E A pressed cl1 = Inr cl'"
    using assms(4) by (auto simp: render_def andThen_eq_Inr)
  have "playing_inv cl1" using switchWorld_keeps [OF run(1)] assms(2) by (simp add: client_inv_def)
  from engine_update_scene [OF assms(1) this switchWorld_scene(1) [OF run(1) assms(3)] run(2)] show ?thesis .
qed

lemma client_reachable_scene:
  assumes "client_reachable E A tmxRenderer cl" "ashley_spec A"
  shows "client_inv cl \<and> scene_inv cl"
proof -
  obtain getSocket uninit sprite args w start where init: "PlayPG_init getSocket tmxRenderer uninit sprite args w = Inr start"
      and run: "(client_step E A)\<^sup>*\<^sup>* start cl"
    using assms(1) by (auto simp: client_reachable_def)
  from run show ?thesis
  proof (induction rule: rtranclp_induct)
    case base
    note start = changeToWorld_scene [OF init [unfolded PlayPG_init_def Let_def], simplified]
    have "scene_inv start" using start by (auto simp: scene_inv_def shown_map_def same_assets_def)
    then show ?case using init_inv [OF init] by simp
  next
    case (step cl1 cl2)
    obtain pressed where run: "render E A pressed cl1 = Inr cl2" using step.hyps(2) by blast
    then show ?case
      using render_keeps [OF assms(2) _ run] render_scene [OF assms(2) _ _ run] step.IH by simp
  qed
qed

end
