(* ===== verification/ClientFaults.thy ===== *)
theory ClientFaults imports ClientScene begin

text \<open>
  What can stop the client: the faults of each part of a frame, traced back to what causes them.
\<close>

section \<open>Texts\<close>

lemma json_number_faults: "jGetBool j = Inl e \<Longrightarrow> text_fault e" "jGetInt j = Inl e \<Longrightarrow> text_fault e"
  by (cases j; simp add: jGetBool_def jGetInt_def text_fault_def split: if_splits)+

lemma client_decode_faults:
  "response_decode d = Inl e \<Longrightarrow> text_fault e" "instructions_decode d = Inl e \<Longrightarrow> text_fault e"
  "character_decode d = Inl e \<Longrightarrow> text_fault e" "characters_decode d = Inl e \<Longrightarrow> text_fault e"
proof -
  show c: "character_decode d = Inl e \<Longrightarrow> text_fault e" for d
    by (auto simp: character_decode_def andThen_eq_Inl dest: json_text_faults json_number_faults)
  show "characters_decode d = Inl e \<Longrightarrow> text_fault e"
    by (auto simp: characters_decode_def andThen_eq_Inl dest!: mapR_faults c dest: json_text_faults)
qed (auto simp: response_decode_def instructions_decode_def andThen_eq_Inl dest: json_text_faults json_number_faults)

lemma receiveChallenge_faults: "receiveChallenge E cl = Inl e \<Longrightarrow> text_fault e"
  by (auto simp: receiveChallenge_def Let_def case_prod_beta andThen_eq_Inl fromJSON_def
      dest: challenge_decode_text split: if_splits)

lemma selectCharacter_faults: "selectCharacter E cl = Inl e \<Longrightarrow> text_fault e"
  by (auto simp: selectCharacter_def Let_def case_prod_beta andThen_eq_Inl fromJSON_def case_list_eq
      dest: client_decode_faults split: if_splits)

lemma awaitMapServer_faults: "awaitMapServer E cl = Inl e \<Longrightarrow> text_fault e"
  by (auto simp: awaitMapServer_def Let_def case_prod_beta andThen_eq_Inl fromJSON_def
      dest: client_decode_faults split: if_splits)

text \<open>The key: none was received, or OpenSSL could not read it.\<close>

lemma sendIdentity_faults:
  assumes "sendIdentity E cl = Inl e"
  shows "text_fault e \<or> e = NullDeref \<and> (\<forall>crypto. cl_crypto cl = Some crypto \<longrightarrow> rc_keyPair crypto = None)"
proof (cases "\<exists>crypto key. cl_crypto cl = Some crypto \<and> rc_keyPair crypto = Some key")
  case True
  then obtain crypto key where c: "cl_crypto cl = Some crypto" "rc_keyPair crypto = Some key" by blast
  then have "\<exists>r. encryptStringPublic E crypto ''testa'' (cl_world cl) = Inr r"
    by (auto simp: encryptStringPublic_def split: option.split prod.split)
  then show ?thesis
    using assms c
    by (auto simp: sendIdentity_def Let_def case_prod_beta andThen_eq_Inl fromJSON_def
        dest: client_decode_faults split: if_splits)
next
  case False
  then have "e = NullDeref"
    using assms by (cases "cl_crypto cl") (auto simp: sendIdentity_def encryptStringPublic_def)
  then show ?thesis using False by auto
qed

lemma receiveChallenge_key:
  assumes "receiveChallenge E cl = Inr (True, cl1)"
  shows "\<exists>challenge t. receives E LOGIN_AUTHENTICATION_CHALLENGE challenge_decode
      (snd (so_waitForActivity E (Some 2000) (so_connect E (cl_socket cl)))) challenge t
    \<and> cl_crypto cl1 = Some (RSACrypto_public E (ac_pubKey challenge))"
  using assms
  by (auto simp: receiveChallenge_def receives_iff Let_def case_prod_beta andThen_eq_Inr split: if_splits)

lemma doLogin_faults:
  assumes "doLogin E cl = Inl e"
  shows "text_fault e \<or> e = NullDeref
    \<and> (if so_isConnected E (cl_socket cl) then (\<forall>crypto. cl_crypto cl = Some crypto \<longrightarrow> rc_keyPair crypto = None)
       else \<exists>challenge t. receives E LOGIN_AUTHENTICATION_CHALLENGE challenge_decode
              (snd (so_waitForActivity E (Some 2000) (so_connect E (cl_socket cl)))) challenge t
            \<and> ssl_PEM_read_public E (c_str (ac_pubKey challenge)) = None)"
proof (cases "so_isConnected E (cl_socket cl)")
  case True
  then show ?thesis using assms sendIdentity_faults [of E _ e] by (fastforce simp: doLogin_def)
next
  case False
  show ?thesis
  proof (cases "receiveChallenge E cl")
    case (Inl f)
    then show ?thesis using assms False receiveChallenge_faults [OF Inl] by (simp add: doLogin_def)
  next
    case (Inr r)
    then obtain cl1 where cl1: "receiveChallenge E cl = Inr (True, cl1)" "sendIdentity E cl1 = Inl e"
      using assms False by (cases r) (auto simp: doLogin_def split: if_splits)
    from sendIdentity_faults [OF cl1(2)] receiveChallenge_key [OF cl1(1)] show ?thesis
      using False by (auto simp: RSACrypto_public_def)
  qed
qed

section \<open>Playing\<close>

lemma int_times_faults: "int_times a b = Inl e \<Longrightarrow> e = SignedOverflow"
  by (auto simp: int_times_def split: if_splits)

lemma switchWorld_faults: "switchWorld pressed cl = Inl e \<Longrightarrow> pressed KEY_RETURN \<and> e = SignedOverflow"
  by (auto simp: switchWorld_def changeToWorld_def Let_def spawnPosition_def andThen_eq_Inl
      dest: int_times_faults split: if_splits)

lemma isSolidAtCoord_faults: "isSolidAtCoord m x y = Inl e \<Longrightarrow> e = UndefinedConversion \<or> e = OutOfBounds"
  by (auto simp: isSolidAtCoord_def tileAtCoord_def tileCoord_def to_u32_def getTile_def Let_def andThen_eq_Inl
      split: if_splits)

lemma performMove_faults:
  assumes "performMove E m move (es, network) = Inl e" "position_of es (mv_entity move) = Inr p"
  shows "e \<in> {SignedOverflow, UndefinedConversion, OutOfBounds}"
  using assms
  by (auto simp: performMove_def destination_def shifted_def andThen_eq_Inl
      dest: int_times_faults isSolidAtCoord_faults)

lemma scene_position:
  "scene sp r i es \<Longrightarrow> \<exists>p. position_of es i = Inr p"
  by (auto simp: scene_def position_of_def)

lemma run_input_total: "\<exists>cl'. run_system E A pressed INPUT cl = Inr cl'"
  by (simp add: run_system_def)

text \<open>No move is left from the frame before, so there is at most the one the keys ask for.\<close>

lemma run_movement_faults:
  assumes "playing_inv cl" "mo_moves (cl_movement cl) = []" "ashley_spec A"
    and "run_system E A pressed INPUT cl = Inr cl1" "run_system E A pressed MOVEMENT cl1 = Inl e"
  shows "keyMove pressed \<noteq> None \<and> e \<in> {SignedOverflow, UndefinedConversion, OutOfBounds}"
proof -
  note cl1 = run_input [OF assms(1,3,4)]
  obtain i where i: "cl_player cl = Some i" "scene (cl_playerSprite cl) (cl_outdoorRenderer cl) i (cl_entities cl)"
    using assms(1) by (auto simp: playing_inv_def)
  obtain p where p: "position_of (cl_entities cl) i = Inr p" using scene_position [OF i(2)] by blast
  have loop: "foldR (performMove E (mo_map (cl_movement cl1))) (mo_moves (cl_movement cl1))
      (cl_entities cl1, mo_network (cl_movement cl1)) = Inl e"
    using assms(5) by (auto simp: run_system_def MovementSystem_update_def andThen_eq_Inl)
  show ?thesis
  proof (cases "keyMove pressed")
    case None
    then show ?thesis using loop assms(2) by (simp add: cl1)
  next
    case (Some d)
    then show ?thesis
      using loop assms(2) p i(1)
      by (cases d) (auto simp: cl1 addMove_def andThen_eq_Inl dest!: performMove_faults [where p = p])
  qed
qed

lemma run_camera_total:
  assumes "playing_inv cl" "ashley_spec A"
  shows "\<exists>cl'. run_system E A pressed CAMERA cl = Inr cl'"
proof -
  obtain i where i: "scene (cl_playerSprite cl) (cl_outdoorRenderer cl) i (cl_entities cl)"
    using assms(1) by (auto simp: playing_inv_def)
  then obtain p q where p: "position_of (cl_entities cl) i = Inr p" "cl_entities cl ! i = player_entity (cl_playerSprite cl) q"
    using scene_position [OF i] by (auto simp: scene_def)
  have "family A (\<lambda>e. en_position e \<noteq> None \<and> en_focalPoint e) (cl_entities cl) = [i]"
    by (rule scene_family [OF i assms(2)]) (simp_all add: p(2))
  then show ?thesis by (simp add: run_system_def p(1))
qed

lemma run_render_faults:
  assumes "run_system E A pressed RENDER cl = Inl e" "ashley_spec A" "cl_entities cl = scene_entities m r sp p"
  shows "e = OutOfBounds \<and> (\<exists>k \<in> set (scene_layers m). \<not> k < length (tm_tileLayers r))"
proof -
  let ?es = "scene_entities m r sp p" and ?P = "\<lambda>e. en_renderable e \<noteq> None \<and> en_position e \<noteq> None"
  obtain i where i: "i \<in> set (family A ?P ?es)" "drawEntity (?es ! i) = Inl e"
    using assms(1) by (auto simp: run_system_def assms(3) foldR_draws andThen_eq_Inl dest: mapR_faults)
  have "mset (family A ?P ?es) = mset (filter (\<lambda>i. ?P (?es ! i)) [0..<length ?es])"
    using assms(2) by (simp add: family_def ashley_spec_def)
  from mset_eq_setD [OF this] have "?es ! i \<in> set ?es" using i(1) by simp
  then show ?thesis
    using i(2)
    by (auto simp: scene_entities_def scene_layers_def generate_layers drawEntity_player drawEntity_layer split: if_splits)
qed

lemma engine_update_faults:
  assumes "ashley_spec A" "playing_inv cl" "scene_inv cl" "mo_moves (cl_movement cl) = []"
    and "engine_update E A pressed cl = Inl e"
  shows "keyMove pressed \<noteq> None \<and> e \<in> {SignedOverflow, UndefinedConversion, OutOfBounds}
    \<or> e = OutOfBounds \<and> (\<exists>k \<in> set (scene_layers (shown_map cl)). \<not> k < length (tm_tileLayers (cl_outdoorRenderer cl)))"
proof -
  obtain cl1 where cl1: "run_system E A pressed INPUT cl = Inr cl1" using run_input_total by blast
  have run: "andThen (run_system E A pressed MOVEMENT cl1) (\<lambda>c. andThen (run_system E A pressed CAMERA c)
      (run_system E A pressed RENDER)) = Inl e"
    using assms(5) by (auto simp: engine_update_def run_order [OF assms(1)] cl1 andThen_eq_Inl)
  show ?thesis
  proof (cases "run_system E A pressed MOVEMENT cl1")
    case (Inl f)
    then show ?thesis using run run_movement_faults [OF assms(2,4,1) cl1 Inl] by simp
  next
    case (Inr cl2)
    note keep1 = input.keeps [OF assms(1,2) cl1]
    obtain mo where mo: "cl1 = cl\<lparr>cl_movement := mo\<rparr>" using run_input_scene [OF cl1] by blast
    have same1: "cl_indoor cl1 = cl_indoor cl" "same_assets cl cl1" by (simp_all add: mo same_assets_def)
    have 1: "scene_inv cl1" "shown_map cl1 = shown_map cl"
      using assms(3) scene_inv_cong [OF same1] shown_map_cong [OF same1] by (simp_all add: mo)
    have 2: "playing_inv cl2" "scene_inv cl2" "shown_map cl2 = shown_map cl" "same_assets cl cl2"
      using run_movement [OF _ Inr] run_movement_scene [OF _ 1(1) Inr] keep1 1(2) same1(2) same_trans(1) [of cl cl1 cl2]
      by (auto simp: same_login_def)
    obtain cl3 where cl3: "run_system E A pressed CAMERA cl2 = Inr cl3" using run_camera_total [OF 2(1) assms(1)] by blast
    obtain c where c: "cl3 = cl2\<lparr>cl_camera := c\<rparr>" using run_camera [OF cl3] by blast
    obtain p where "cl_entities cl3 = scene_entities (shown_map cl) (cl_outdoorRenderer cl) (cl_playerSprite cl) p"
      using 2 by (auto simp: c scene_inv_def is_scene_def same_assets_def)
    moreover have "run_system E A pressed RENDER cl3 = Inl e" using run by (simp add: Inr cl3)
    ultimately show ?thesis using run_render_faults [OF _ assms(1)] by metis
  qed
qed

end
