(* ===== verification/ClientProperties.thy ===== *)
theory ClientProperties imports ClientFaults SampleWorld begin

text \<open>The client: its states, its login, the scene it shows, and a frame of play.\<close>

section \<open>States\<close>

text \<open>C21: A frame takes the client along the edges of its state machine only: to the characters when the server's
  response said the login succeeded, to the wait for a map server when it sent a list of characters, whose first
  was chosen, and from there to playing when instructions could be read, or back to the characters. Playing is
  never left.\<close>

theorem client_state_machine:
  assumes "render E A pressed cl = Inr cl'"
  shows "(case cl_gameState cl of
      LOGIN \<Rightarrow> cl_gameState cl' = LOGIN
        \<or> cl_gameState cl' = CHARACTER_SELECTION \<and> pressed KEY_SPACE \<and> cl_crypto cl' \<noteq> None
          \<and> (\<exists>s response. receives E LOGIN_AUTHENTICATION_RESPONSE response_decode s response (cl_socket cl')
               \<and> ar_successful response)
    | CHARACTER_SELECTION \<Rightarrow> cl_gameState cl' = CHARACTER_SELECTION
        \<or> cl_gameState cl' = MAP_SERVER_CONNECT \<and> pressed KEY_RETURN
          \<and> (\<exists>s first others t. receives E PLAYER_CHARACTERS characters_decode s (first # others) t
               \<and> cl_currentCharacter cl' = Some first \<and> cl_socket cl' = snd (reply E (CharacterSelect_of E first) t))
    | MAP_SERVER_CONNECT \<Rightarrow> cl_gameState cl' \<in> {MAP_SERVER_CONNECT, CHARACTER_SELECTION}
        \<or> cl_gameState cl' = PLAYING \<and> (\<exists>msci t. receives E MAP_SERVER_CONNECTION_INSTRUCTIONS instructions_decode
            (snd (so_waitForActivity E None (so_clear E (cl_socket cl)))) msci t)
    | PLAYING \<Rightarrow> cl_gameState cl' = PLAYING)"
proof (cases "cl_gameState cl")
  case LOGIN
  show ?thesis
  proof (cases "pressed KEY_SPACE")
    case True
    then obtain ok cl1 where "doLogin E cl = Inr (ok, cl1)"
        "cl' = (if ok then cl1\<lparr>cl_gameState := CHARACTER_SELECTION\<rparr> else cl1)"
      using assms LOGIN by (auto simp: render_def andThen_eq_Inr)
    then show ?thesis using doLogin_keeps [of E cl ok cl1] LOGIN True by auto
  next
    case False
    then show ?thesis using assms LOGIN by (auto simp: render_def split: if_splits)
  qed
next
  case CHARACTER_SELECTION
  then show ?thesis
    using assms selectCharacter_keeps [of E cl cl'] by (auto simp: render_def split: if_splits)
next
  case MAP_SERVER_CONNECT
  then show ?thesis using assms awaitMapServer_keeps [of E cl cl'] by (auto simp: render_def)
next
  case PLAYING
  then obtain cl1 where run: "switchWorld pressed cl = Inr cl1"
      "foldR (run_system E A pressed) (as_run_order A systems) cl1 = Inr cl'"
    using assms by (auto simp: render_def engine_update_def andThen_eq_Inr)
  have "cl_gameState cl1 = cl_gameState cl"
    using run(1) by (auto simp: switchWorld_def changeToWorld_def Let_def andThen_eq_Inr split: if_splits)
  moreover have sys: "cl_gameState c' = cl_gameState c" if "run_system E A pressed sys c = Inr c'" for sys c c'
    using that run_camera [of E A pressed c c'] run_render [of E A pressed c c']
    by (cases sys) (auto simp: run_system_def andThen_eq_Inr)
  ultimately have "cl_gameState cl' = cl_gameState cl"
    by (intro foldR_invariant [OF run(2), of "\<lambda>c. cl_gameState c = cl_gameState cl"]) (simp_all add: sys)
  then show ?thesis using PLAYING by simp
qed

section \<open>The login\<close>



section \<open>The scene\<close>

text \<open>C39: The entities behind the player are the visible layers that have no visible spawn layer at or before them, those
  in front the visible layers that have a spawn layer, visible or not, at or before them, each in the map's
  order. When the first spawn layer is visible or there is none, the two together are all visible layers, once
  each and in order. A visible layer at or after a spawn layer, all of which so far are hidden, is on both
  sides.\<close>

theorem layers_partition:
  assumes "ls = tm_tileLayers (gm_map p)"
  shows "generateFrontLayerEntities p r = map (layer_entity r) (behind_player ls)
    \<and> generateBackLayerEntities p r = map (layer_entity r) (before_player ls)
    \<and> sorted_wrt (<) (behind_player ls) \<and> sorted_wrt (<) (before_player ls)
    \<and> (\<forall>k. k \<in> set (behind_player ls) \<longleftrightarrow> k < length ls \<and> tl_visible (ls ! k)
          \<and> \<not> (\<exists>j \<le> k. tl_visible (ls ! j) \<and> tl_name (ls ! j) = ''__playerSpawn''))
    \<and> (\<forall>k. k \<in> set (before_player ls) \<longleftrightarrow> k < length ls \<and> tl_visible (ls ! k)
          \<and> (\<exists>j \<le> k. tl_name (ls ! j) = ''__playerSpawn''))
    \<and> ((\<forall>j < length ls. spawn_layer (ls ! j) \<longrightarrow> (\<forall>i < j. \<not> spawn_layer (ls ! i)) \<longrightarrow> tl_visible (ls ! j)) \<longrightarrow>
          behind_player ls @ before_player ls = filter (\<lambda>k. tl_visible (ls ! k)) [0..<length ls])"
  using generate_layers [of p r] layers_ascend [of ls] layers_in_order [of ls]
  by (auto simp: assms behind_player_iff before_player_iff spawn_layer_def)

text \<open>C19: In every state the client can get to there is one entity that listens to the keyboard, the player, and all
  others are layers of the outdoor map at the origin: also when the indoor map is entered. In order they are
  the layers of the map that is shown, with the player between those behind and those in front. Collisions are
  decided by the outdoor map, no move is on its way to a server, and past the login there is a key, past the
  choice a character.\<close>

theorem reachable_client:
  assumes "client_reachable E A tmxRenderer cl" "ashley_spec A"
  shows "\<exists>i u. cl_player cl = Some i \<and> i < length (cl_entities cl)
      \<and> (\<exists>p. cl_entities cl ! i = player_entity (cl_playerSprite cl) p)
      \<and> (\<forall>j < length (cl_entities cl). j \<noteq> i \<longrightarrow> (\<exists>k. cl_entities cl ! j = layer_entity (cl_outdoorRenderer cl) k))
      \<and> (\<exists>p. cl_entities cl = scene_entities (shown_map cl) (cl_outdoorRenderer cl) (cl_playerSprite cl) p)
      \<and> mo_map (cl_movement cl) = Map_new u (cl_outdoorRenderer cl)
      \<and> \<not> networkingAttached (cl_movement cl) \<and> mo_moves (cl_movement cl) = []
      \<and> (cl_crypto cl = None \<longrightarrow> cl_gameState cl = LOGIN)
      \<and> (cl_currentCharacter cl = None \<longrightarrow> cl_gameState cl \<in> {LOGIN, CHARACTER_SELECTION})"
proof -
  obtain u where inv: "client_inv cl" and u: "cl_mapOutdoor cl = Map_new u (cl_outdoorRenderer cl)"
    using client_reachable_inv [OF assms] by blast
  obtain i where i: "cl_player cl = Some i" "scene (cl_playerSprite cl) (cl_outdoorRenderer cl) i (cl_entities cl)"
    using inv by (auto simp: client_inv_def playing_inv_def)
  have "cl_gameState cl \<in> {LOGIN, CHARACTER_SELECTION, MAP_SERVER_CONNECT, PLAYING}"
    by (cases "cl_gameState cl") simp_all
  then have "cl_crypto cl = None \<longrightarrow> cl_gameState cl = LOGIN"
      "cl_currentCharacter cl = None \<longrightarrow> cl_gameState cl \<in> {LOGIN, CHARACTER_SELECTION}"
    using inv by (auto simp: client_inv_def)
  moreover obtain p where
      "cl_entities cl = scene_entities (shown_map cl) (cl_outdoorRenderer cl) (cl_playerSprite cl) p"
    using client_reachable_scene [OF assms] by (auto simp: scene_inv_def is_scene_def)
  moreover have "mo_map (cl_movement cl) = Map_new u (cl_outdoorRenderer cl)" "\<not> networkingAttached (cl_movement cl)"
      "mo_moves (cl_movement cl) = []"
    using inv u by (auto simp: client_inv_def playing_inv_def networkingAttached_def)
  ultimately show ?thesis
    using i(1) i(2) [unfolded scene_def] by (intro exI [of _ i] exI [of _ u] conjI) blast+
qed

section \<open>Faults\<close>

text \<open>C30: In every state the client can get to, a frame can stop the program in these ways only. At the login, with Space
  pressed: on text that is not the JSON expected, or on a null pointer, on a connected socket when no readable
  key is at hand, on one that was not connected when the key of the challenge it got cannot be read. While
  choosing a character or waiting for a map server: on text that is not the JSON expected. In play: with Return
  pressed, by an overflow in working out where the player spawns; when a direction key is pressed, by an overflow, an undefined conversion
  or an index out of range in working out the move's tile; or by a layer to be drawn that has no number among the outdoor
  map's. No pointer in play is ever null or dangling.\<close>

theorem reachable_client_faults:
  assumes "client_reachable E A tmxRenderer cl" "ashley_spec A" "render E A pressed cl = Inl e"
    and "m = (if pressed KEY_RETURN \<and> \<not> cl_indoor cl \<or> \<not> pressed KEY_RETURN \<and> cl_indoor cl
        then cl_mapIndoor cl else cl_mapOutdoor cl)"
    and "ls = tm_tileLayers (gm_map m)"
  shows "case cl_gameState cl of
      LOGIN \<Rightarrow> pressed KEY_SPACE \<and> (e \<in> {JsonPrecondition, AssertFailed} \<or> e = NullDeref
        \<and> (if so_isConnected E (cl_socket cl)
           then \<forall>crypto. cl_crypto cl = Some crypto \<longrightarrow> rc_keyPair crypto = None
           else \<exists>challenge t. receives E LOGIN_AUTHENTICATION_CHALLENGE challenge_decode
                  (snd (so_waitForActivity E (Some 2000) (so_connect E (cl_socket cl)))) challenge t
                \<and> ssl_PEM_read_public E (c_str (ac_pubKey challenge)) = None))
    | CHARACTER_SELECTION \<Rightarrow> pressed KEY_RETURN \<and> e \<in> {JsonPrecondition, AssertFailed}
    | MAP_SERVER_CONNECT \<Rightarrow> e \<in> {JsonPrecondition, AssertFailed}
    | PLAYING \<Rightarrow> pressed KEY_RETURN \<and> e = SignedOverflow
        \<or> keyMove pressed \<noteq> None \<and> e \<in> {SignedOverflow, UndefinedConversion, OutOfBounds}
        \<or> e = OutOfBounds \<and> (\<exists>k < length ls. (k \<in> set (behind_player ls) \<or> k \<in> set (before_player ls))
            \<and> \<not> k < length (tm_tileLayers (cl_outdoorRenderer cl)))"
proof (cases "cl_gameState cl")
  case LOGIN
  then have "pressed KEY_SPACE" "doLogin E cl = Inl e"
    using assms(3) by (auto simp: render_def andThen_eq_Inl split: if_splits)
  then show ?thesis using doLogin_faults [of E cl e] LOGIN by (auto simp: text_fault_def)
next
  case CHARACTER_SELECTION
  then have "pressed KEY_RETURN" "selectCharacter E cl = Inl e"
    using assms(3) by (auto simp: render_def split: if_splits)
  then show ?thesis using selectCharacter_faults [of E cl e] CHARACTER_SELECTION by (auto simp: text_fault_def)
next
  case MAP_SERVER_CONNECT
  then show ?thesis
    using assms(3) awaitMapServer_faults [of E cl e] by (auto simp: render_def text_fault_def)
next
  case PLAYING
  have inv: "playing_inv cl" "mo_moves (cl_movement cl) = []" "scene_inv cl"
    using client_reachable_scene [OF assms(1,2)] by (auto simp: client_inv_def)
  show ?thesis
  proof (cases "switchWorld pressed cl")
    case (Inl f)
    then show ?thesis using assms(3) PLAYING switchWorld_faults [OF Inl] by (simp add: render_def)
  next
    case (Inr cl1)
    have run: "engine_update E A pressed cl1 = Inl e" using assms(3) PLAYING Inr by (simp add: render_def)
    have 1: "playing_inv cl1" "same_assets cl cl1" "mo_moves (cl_movement cl1) = []"
      using switchWorld_keeps [OF Inr inv(1,2)] inv(2) by (auto simp: same_login_def)
    have "shown_map cl1 = m"
      unfolding switchWorld_scene(2) [OF Inr inv(3)] assms(4) by (simp add: shown_map_def)
    then show ?thesis
      using engine_update_faults [OF assms(2) 1(1) switchWorld_scene(1) [OF Inr inv(3)] 1(3) run] PLAYING 1(2)
      by (auto simp: scene_layers_def same_assets_def assms(5) behind_player_iff before_player_iff)
  qed
qed

section \<open>A frame of play\<close>

text \<open>C20: A frame of play that completes leaves the player between the visible layers behind it and those in front of it,
  of the map that is shown or that Return has just changed to, and draws each of these entities once: the
  sprite where the player then is, and the layers, of which only those on both sides, behind a hidden spawn
  layer, are drawn twice. The order is the entity system's. It can complete only where every layer to be drawn
  has a number the outdoor map has too, since it is the outdoor map's layers that are drawn.\<close>

theorem frame_draws_scene:
  fixes cl :: "('b, 's, 'k, 'g, 'w) client"
  assumes "ashley_spec A" "client_inv cl" "scene_inv cl" "cl_gameState cl = PLAYING" "render E A pressed cl = Inr cl'"
    and "m = (if pressed KEY_RETURN \<and> \<not> cl_indoor cl \<or> \<not> pressed KEY_RETURN \<and> cl_indoor cl
        then cl_mapIndoor cl else cl_mapOutdoor cl)"
    and "ls = tm_tileLayers (gm_map m)" "outdoor = cl_outdoorRenderer cl"
  shows "(\<forall>k < length ls. tl_visible (ls ! k) \<and> (k \<in> set (behind_player ls) \<or> k \<in> set (before_player ls))
        \<longrightarrow> k < length (tm_tileLayers outdoor))
    \<and> (\<exists>p. cl_entities cl' = map (layer_entity outdoor) (behind_player ls) @ [player_entity (cl_playerSprite cl) p]
            @ map (layer_entity outdoor) (before_player ls)
          \<and> mset (cl_drawn cl') = {#DrawSprite (cl_playerSprite cl) p#}
            + {#DrawLayer (tm_tileLayers outdoor ! k). k \<in># mset (behind_player ls)#}
            + {#DrawLayer (tm_tileLayers outdoor ! k). k \<in># mset (before_player ls)#})"
proof -
  obtain cl1 where run: "switchWorld pressed cl = Inr cl1" "engine_update E A pressed cl1 = Inr cl'"
    using assms(4,5) by (auto simp: render_def andThen_eq_Inr)
  have inv: "playing_inv cl" "mo_moves (cl_movement cl) = []" using assms(2) by (simp_all add: client_inv_def)
  have 1: "playing_inv cl1" "same_assets cl cl1"
    using switchWorld_keeps [OF run(1) inv] by (simp_all add: same_login_def)
  have m: "shown_map cl1 = m"
    unfolding switchWorld_scene(2) [OF run(1) assms(3)] assms(6) by (simp add: shown_map_def)
  have same: "cl_outdoorRenderer cl1 = cl_outdoorRenderer cl" "cl_playerSprite cl1 = cl_playerSprite cl"
    using 1(2) by (simp_all add: same_assets_def)
  obtain p where p: "cl_entities cl' = scene_entities m outdoor (cl_playerSprite cl) p"
      "\<forall>k \<in> set (scene_layers m). k < length (tm_tileLayers outdoor)"
      "mset (cl_drawn cl') = mset (scene_draws m outdoor (cl_playerSprite cl) p)"
    using engine_update_scene [OF assms(1) 1(1) switchWorld_scene(1) [OF run(1) assms(3)] run(2), unfolded m same]
      assms(8) by metis
  have "\<forall>k \<in> set (behind_player ls @ before_player ls). k < length (tm_tileLayers outdoor)"
    using p(2) by (simp add: scene_layers_def assms(7))
  moreover have "cl_entities cl' = map (layer_entity outdoor) (behind_player ls)
      @ [player_entity (cl_playerSprite cl) p] @ map (layer_entity outdoor) (before_player ls)"
    using p(1) by (simp add: scene_entities_def generate_layers assms(7))
  moreover have "mset (cl_drawn cl') = {#DrawSprite (cl_playerSprite cl) p#}
      + {#DrawLayer (tm_tileLayers outdoor ! k). k \<in># mset (behind_player ls)#}
      + {#DrawLayer (tm_tileLayers outdoor ! k). k \<in># mset (before_player ls)#}"
    using p(3) by (simp add: scene_draws_def assms(7))
  ultimately show ?thesis by (intro conjI exI [of _ p]) auto
qed

text \<open>C22: In one frame a direction key takes the player from a tile's corner to the next tile's in that direction,
  diagonals included, exactly when that tile of the outdoor map is not solid, whatever map is shown; no other
  entity changes.\<close>

theorem frame_moves_player:
  assumes "ashley_spec A" "client_inv cl" "cl_gameState cl = PLAYING" "\<not> pressed KEY_RETURN"
    and "render E A pressed cl = Inr cl'"
    and "cl_mapOutdoor cl = Map_new u m" "playable m" "cl_player cl = Some i"
    and "en_position (cl_entities cl ! i) = Some (corner m x y)" "keyMove pressed = Some (dx, dy)"
    and "0 \<le> x" "x < tm_width m" "0 \<le> y" "y < tm_height m"
    and "0 \<le> x + dx" "x + dx < tm_width m" "0 \<le> y + dy" "y + dy < tm_height m"
  shows "cl_entities cl' = (if solid_cell m (x + dx) (y + dy) then cl_entities cl
    else set_position i (corner m (x + dx) (y + dy)) (cl_entities cl))"
proof -
  have inv: "playing_inv cl" "mo_moves (cl_movement cl) = []" using assms(2) by (simp_all add: client_inv_def)
  have i: "i < length (cl_entities cl)" "mo_map (cl_movement cl) = Map_new u m"
    using inv assms(6,8) by (auto simp: playing_inv_def scene_def)
  have "engine_update E A pressed cl = Inr cl'"
    using assms(3,4,5) by (simp add: render_def switchWorld_def)
  from engine_update_cases [OF assms(1) inv(1) this]
  obtain cl1 cl2 c ds where 1: "run_system E A pressed INPUT cl = Inr cl1"
      and 2: "run_system E A pressed MOVEMENT cl1 = Inr cl2" and "cl' = cl2\<lparr>cl_camera := c, cl_drawn := ds\<rparr>" .
  then have e: "cl_entities cl' = cl_entities cl2" by simp
  let ?move = "\<lparr>mv_entity = i, mv_xTiles = dx, mv_yTiles = dy\<rparr>"
  have cl1: "cl_movement cl1 = (cl_movement cl)\<lparr>mo_moves := [?move]\<rparr>" "cl_entities cl1 = cl_entities cl"
    using run_input [OF inv(1) assms(1) 1] assms(8,10) inv(2) by (simp_all add: addMove_def)
  show ?thesis
    using 2 performMove_corner [of m ?move "cl_entities cl" x y E u "mo_network (cl_movement cl)"] assms(7-18) i
    by (auto simp: run_system_def MovementSystem_update_def cl1 e)
qed

section \<open>Witnesses\<close>

definition sample_ashley :: ashley where
  "sample_ashley = \<lparr>as_run_order = (\<lambda>ps. map fst (sort_key snd ps)), as_visit_order = (\<lambda>is. is)\<rparr>"

lemma sample_ashley_spec: "ashley_spec sample_ashley"
  by (simp add: ashley_spec_def sample_ashley_def)

definition sample_spawned :: "unit entity list" where
  "sample_spawned = [layer_entity sample_tmx 0, layer_entity sample_tmx 1,
     player_entity () (corner sample_tmx 2 1), layer_entity sample_tmx 2]"

definition sample_client :: "(string, sample_socket, unit, unit, sample_world) client" where
  "sample_client =
     \<lparr>cl_gameState = LOGIN, cl_mapOutdoor = Map_new (0, 0) sample_tmx, cl_mapIndoor = Map_new (0, 0) sample_tmx,
      cl_indoor = False, cl_playerSprite = (), cl_outdoorRenderer = sample_tmx, cl_indoorRenderer = sample_tmx,
      cl_entities = sample_spawned, cl_player = Some 2,
      cl_movement = MovementSystem_new (Map_new (0, 0) sample_tmx) None, cl_camera = (0, 0), cl_drawn = [],
      cl_currentCharacter = None, cl_username = ''test@example.com'', cl_crypto = None, cl_serverPubKey = [],
      cl_socket = (sample_peer [sample_s16 1])\<lparr>sk_open := False\<rparr>, cl_world = sample_world_0\<rparr>"

lemma sample_layers:
  "behind_player (tm_tileLayers sample_tmx) = [0, 1]" "before_player (tm_tileLayers sample_tmx) = [2]"
  unfolding layer_numbers [symmetric] by (simp_all add: sample_tmx_def sample_layer_def del: layer_numbers)

lemma sample_init:
  "PlayPG_init (\<lambda>a p. (sample_peer [sample_s16 1])\<lparr>sk_open := False\<rparr>) (\<lambda>f. sample_tmx) (0, 0) () [] sample_world_0
   = Inr sample_client"
proof -
  have "fl 64 = 64" "fl 32 = 32" using fl_int [of 64] fl_int [of 32] by simp_all
  then have "spawnPosition (Map_new (0, 0) sample_tmx) = Inr (corner sample_tmx 2 1)"
    unfolding spawnPosition_def sample_spawn
    by (simp add: int_times_def getTileWidth_def getTileHeight_def corner_def)
  then show ?thesis
    by (simp add: PlayPG_init_def changeToWorld_def sample_client_def generateFrontLayerEntities_def
        generateBackLayerEntities_def sample_layers sample_spawned_def Let_def)
qed

lemma sample_greeting:
  "\<exists>cl. receiveChallenge sample_platform sample_client = Inr (False, cl) \<and> cl_crypto cl = None
     \<and> cl_gameState cl = LOGIN \<and> so_isConnected sample_platform (cl_socket cl)"
  by (simp add: receiveChallenge_def sample_client_def sample_peer_def sample_recv_def)

lemma sample_unconnected: "\<not> so_isConnected sample_platform (cl_socket sample_client)" "cl_crypto sample_client = None"
  by (simp_all add: sample_client_def)

lemma client_state_machine_witness:
  "\<exists>cl'. render sample_platform sample_ashley (\<lambda>k. k = KEY_SPACE) sample_client = Inr cl' \<and> cl_gameState cl' = LOGIN"
proof -
  obtain cl' where cl': "receiveChallenge sample_platform sample_client = Inr (False, cl')" "cl_crypto cl' = None"
    using sample_greeting by blast
  have login: "cl_gameState sample_client = LOGIN" by (simp add: sample_client_def)
  have "doLogin sample_platform sample_client = Inr (False, cl')"
    using cl'(1) sample_unconnected by (simp add: doLogin_def)
  then have run: "render sample_platform sample_ashley (\<lambda>k. k = KEY_SPACE) sample_client = Inr cl'"
    by (simp add: render_def login)
  then show ?thesis using client_state_machine [OF run] cl'(2) by (simp add: login)
qed






lemma layers_partition_witness:
  "generateFrontLayerEntities (Map_new (0, 0) sample_tmx) sample_tmx = map (layer_entity sample_tmx) [0, 1]
    \<and> generateBackLayerEntities (Map_new (0, 0) sample_tmx) sample_tmx = map (layer_entity sample_tmx) [2]
    \<and> [0, 1] @ [2] = filter (\<lambda>k. tl_visible (tm_tileLayers sample_tmx ! k)) [0..<length (tm_tileLayers sample_tmx)]"
proof -
  have "\<forall>l \<in> set (tm_tileLayers sample_tmx). tl_visible l" by (simp add: sample_tmx_def sample_layer_def)
  then have visible: "\<forall>j < length (tm_tileLayers sample_tmx). tl_visible (tm_tileLayers sample_tmx ! j)" by simp
  have "tm_tileLayers sample_tmx = tm_tileLayers (gm_map (Map_new (0, 0) sample_tmx))" by simp
  from layers_partition [OF this, of sample_tmx, unfolded sample_layers] visible show ?thesis
    by (elim conjE) (intro conjI; assumption | blast)
qed

lemma sample_client_reachable: "client_reachable sample_platform sample_ashley (\<lambda>f. sample_tmx) sample_client"
  unfolding client_reachable_def using sample_init by blast

lemma reachable_client_witness:
  "\<exists>u. mo_map (cl_movement sample_client) = Map_new u sample_tmx \<and> \<not> networkingAttached (cl_movement sample_client)"
  using reachable_client [OF sample_client_reachable sample_ashley_spec] by (auto simp: sample_client_def)

lemma reachable_client_faults_witness:
  "\<exists>cl :: (string, sample_socket, unit, unit, sample_world) client.
     client_reachable sample_platform sample_ashley (\<lambda>f. sample_tmx) cl
     \<and> render sample_platform sample_ashley (\<lambda>k. k = KEY_SPACE) cl = Inl NullDeref
     \<and> so_isConnected sample_platform (cl_socket cl) \<and> (\<forall>crypto. cl_crypto cl = Some crypto \<longrightarrow> rc_keyPair crypto = None)"
proof -
  obtain cl where cl: "receiveChallenge sample_platform sample_client = Inr (False, cl)" "cl_crypto cl = None"
      "cl_gameState cl = LOGIN" "so_isConnected sample_platform (cl_socket cl)"
    using sample_greeting by blast
  have login: "cl_gameState sample_client = LOGIN" by (simp add: sample_client_def)
  have "doLogin sample_platform sample_client = Inr (False, cl)"
    using cl(1) sample_unconnected by (simp add: doLogin_def)
  then have "client_step sample_platform sample_ashley sample_client cl"
    by (intro client_step.Frame [of _ _ "\<lambda>k. k = KEY_SPACE"]) (simp add: render_def login)
  then have reach: "client_reachable sample_platform sample_ashley (\<lambda>f. sample_tmx) cl"
    unfolding client_reachable_def using sample_init by blast
  have "\<exists>e. render sample_platform sample_ashley (\<lambda>k. k = KEY_SPACE) cl = Inl e"
    using cl(2,3,4) by (simp add: render_def doLogin_def sendIdentity_def)
  then obtain e where e: "render sample_platform sample_ashley (\<lambda>k. k = KEY_SPACE) cl = Inl e" by blast
  then have "e = NullDeref" using cl(2,3,4) by (simp add: render_def doLogin_def sendIdentity_def)
  then show ?thesis
    using reachable_client_faults [OF reach sample_ashley_spec e refl refl] reach e cl(3,4)
    by (intro exI [of _ cl]) auto
qed

definition sample_playing :: "(string, sample_socket, unit, unit, sample_world) client" where
  "sample_playing = sample_client\<lparr>cl_gameState := PLAYING, cl_crypto := Some sample_keys,
     cl_currentCharacter := Some (Character_new ''ann'' 10 1 1)\<rparr>"

lemma sample_playing_inv: "client_inv sample_playing"
  using init_inv [OF sample_init] by (auto simp: sample_playing_def client_inv_def playing_inv_def)

lemma sample_frame: "\<exists>cl'. render sample_platform sample_ashley (\<lambda>k. k = KEY_A) sample_playing = Inr cl'"
proof -
  let ?p = "\<lambda>k. k = KEY_A" and ?E = sample_platform and ?A = sample_ashley
  let ?move = "\<lparr>mv_entity = 2, mv_xTiles = - 1, mv_yTiles = 0\<rparr>"
  let ?M = "Map_new (0, 0) sample_tmx"
  define es where "es = [layer_entity sample_tmx 0, layer_entity sample_tmx 1,
     player_entity () (corner sample_tmx 1 1), layer_entity sample_tmx 2]"
  define cl1 where "cl1 = sample_playing\<lparr>cl_movement := addMove 2 (- 1) 0 (MovementSystem_new ?M None)\<rparr>"
  define cl2 where "cl2 = sample_playing\<lparr>cl_entities := es\<rparr>"
  have upt: "[0..<4] = [0, 1, 2, 3 :: nat]" by (simp add: upt_rec)
  have input: "run_system ?E ?A ?p INPUT sample_playing = Inr cl1"
    by (simp add: run_system_def cl1_def sample_playing_def sample_client_def family_def sample_ashley_def
        sample_spawned_def upt InputSystem_processEntity_def keyMove_def numeral_2_eq_2)
  have "set_position 2 (corner sample_tmx 1 1) sample_spawned = es"
    by (simp add: set_position_def sample_spawned_def es_def player_entity_moved)
  then have "performMove ?E ?M ?move (sample_spawned, None) = Inr (es, None)"
    using performMove_corner [OF playable_sample, of ?move sample_spawned 2 1 ?E "(0, 0)" None] sample_cells_solid
    by (simp add: sample_spawned_def)
  then have movement: "run_system ?E ?A ?p MOVEMENT cl1 = Inr cl2"
    by (simp add: run_system_def MovementSystem_update_def cl1_def cl2_def sample_playing_def sample_client_def
        addMove_def MovementSystem_new_def)
  have three: "length (tm_tileLayers sample_tmx) = 3" "tm_tileLayers sample_tmx \<noteq> []" by (simp_all add: sample_tmx_def)
  have camera: "\<exists>cl3. run_system ?E ?A ?p CAMERA cl2 = Inr cl3 \<and> cl_entities cl3 = es"
    by (simp add: run_system_def cl2_def family_def sample_ashley_def es_def upt position_of_def)
  have rendering: "\<exists>cl4. run_system ?E ?A ?p RENDER cl3 = Inr cl4" if "cl_entities cl3 = es" for cl3
    using that
    by (simp add: run_system_def family_def sample_ashley_def es_def upt drawEntity_layer three drawEntity_def
        Renderable_layer_def Renderable_sprite_def drawSpriteBase_def drawTiled_def)
  obtain cl3 where cl3: "run_system ?E ?A ?p CAMERA cl2 = Inr cl3" "cl_entities cl3 = es" using camera by blast
  obtain cl' where "run_system ?E ?A ?p RENDER cl3 = Inr cl'" using rendering [OF cl3(2)] by blast
  then have "engine_update ?E ?A ?p sample_playing = Inr cl'"
    by (simp add: engine_update_def run_order [OF sample_ashley_spec] input movement cl3(1))
  then have run: "render ?E ?A ?p sample_playing = Inr cl'"
    by (simp add: render_def switchWorld_def sample_playing_def)
  then show ?thesis by blast
qed

lemma frame_moves_player_witness:
  "\<exists>cl'. render sample_platform sample_ashley (\<lambda>k. k = KEY_A) sample_playing = Inr cl'
     \<and> en_position (cl_entities cl' ! 2) = Some (corner sample_tmx 1 1)"
proof -
  obtain cl' where run: "render sample_platform sample_ashley (\<lambda>k. k = KEY_A) sample_playing = Inr cl'"
    using sample_frame by blast
  show ?thesis
    using run frame_moves_player [OF sample_ashley_spec sample_playing_inv _ _ run, of "(0, 0)" sample_tmx 2 2 1 "- 1" 0]
      playable_sample sample_cells_solid
    by (simp add: sample_playing_def sample_client_def sample_spawned_def keyMove_def)
qed

lemma sample_playing_scene: "scene_inv sample_playing"
  using client_reachable_scene [OF sample_client_reachable sample_ashley_spec]
    scene_inv_cong [of sample_playing sample_client]
  by (simp add: sample_playing_def same_assets_def)

lemma frame_draws_scene_witness:
  "\<exists>cl' p. render sample_platform sample_ashley (\<lambda>k. k = KEY_A) sample_playing = Inr cl'
     \<and> mset (cl_drawn cl') = mset [DrawLayer (tm_tileLayers sample_tmx ! 0), DrawLayer (tm_tileLayers sample_tmx ! 1),
         DrawSprite () p, DrawLayer (tm_tileLayers sample_tmx ! 2)]"
proof -
  obtain cl' where run: "render sample_platform sample_ashley (\<lambda>k. k = KEY_A) sample_playing = Inr cl'"
    using sample_frame by blast
  show ?thesis
    using run frame_draws_scene [OF sample_ashley_spec sample_playing_inv sample_playing_scene _ run refl refl refl]
    by (auto simp: sample_playing_def sample_client_def sample_layers)
qed

end
