(* ===== verification/LoginOrigins.thy ===== *)
theory LoginOrigins imports LoginSimulation begin

text \<open>
  Where sessions come from: a turn of the incoming thread makes one only on a login packet whose
  account and password were verified, and no other step of the run makes any.
\<close>

text \<open>A connection's turn that changes the heap of sessions is one that read a login packet.\<close>

definition read_login ::
  "('b, 's, 'k, 'w, 'm) platform_scheme \<Rightarrow> 's incoming \<Rightarrow> string \<Rightarrow> bool" where
  "read_login E c json \<longleftrightarrow>
     (ic_state c = CHALLENGE_SENT \<or> ic_state c = LOGIN_FAILED) \<and>
     (\<exists>s. ic_socket c = Some s \<and> fst (so_hasActivity E s)
        \<and> fst (read_frame E (snd (so_recv E (Some 2048) (snd (so_hasActivity E s))))) = client_opcode LOGIN_AUTHENTICATION_IDENTITY
        \<and> fst (snd (read_frame E (snd (so_recv E (Some 2048) (snd (so_hasActivity E s)))))) = json)"

lemma processState_new_session:
  assumes "processState E ch c ls = Inr (c', ls')" "ls_sessionHeap ls' \<noteq> ls_sessionHeap ls"
  shows "\<exists>json t. read_login E c json \<and> login_packet E json (c\<lparr>ic_socket := Some t\<rparr>) ls = Inr (c', ls')"
proof -
  have register: "ls_sessionHeap (register_map_server m ls) = ls_sessionHeap ls" for m
    by (simp add: register_map_server_def Let_def)
  show ?thesis
  proof (cases "ic_state c")
    case CHALLENGE_SENT
    then show ?thesis
      using assms
      by (auto simp: processState_def processChallengeSentSocket_def processMapAuthenticationRequest_def
          read_login_def read_frame_def andThen_eq_Inr deref_eq_Inr Let_def case_prod_beta split: if_splits)
  next
    case LOGIN_FAILED
    then show ?thesis
      using assms
      by (auto simp: processState_def processLoginFailedSocket_def
          read_login_def read_frame_def andThen_eq_Inr deref_eq_Inr Let_def case_prod_beta split: if_splits)
  next
    case MAP_WAIT_ACK
    then show ?thesis
      using assms register
      by (auto simp: processState_def processMapWaitAckSocket_def andThen_eq_Inr deref_eq_Inr Let_def
          case_prod_beta split: if_splits)
  qed (use assms in \<open>auto simp: processState_def processFreshSocket_def processMapListSocket_def
      processDoneSocket_def andThen_eq_Inr Let_def case_prod_beta split: if_splits\<close>)
qed

text \<open>What a verified login is: the account found, not locked, and the hash of the password.\<close>

definition verified ::
  "('b, 's, 'k, 'w, 'm) platform_scheme \<Rightarrow> ('s, 'k, 'w) login_server \<Rightarrow> auth_identity \<Rightarrow> player \<Rightarrow> bool" where
  "verified E ls authID person \<longleftrightarrow>
     (\<exists>crypto password rest. ls_crypto ls = Some crypto \<and> decryptStringPrivate E crypto (ai_password authID) = Inr password
        \<and> fst (db_players_by_username E (ai_username authID) (db_begin E (ls_world ls))) = person # rest
        \<and> \<not> pl_locked person
        \<and> pl_password person
            = sha256ToString (hashPasswordSHA256 E (ls_hasher ls) password (stringToSalt (pl_salt person))))"

lemma processConnection_new_session:
  assumes "processConnection E ch c ls = Inr (c', ls')" "conn_inv (ls_allMaps ls) c"
    and "ls_sessionHeap ls a = None" "ls_sessionHeap ls' a = Some s"
  shows "\<exists>json authID person. read_login E c json \<and> fromJSON E identity_decode json = Inr authID
    \<and> verified E ls authID person \<and> ps_username s = ai_username authID \<and> ps_playerID s = pl_id person"
proof -
  have differ: "ls_sessionHeap ls' \<noteq> ls_sessionHeap ls" using assms(3,4) by auto
  have "check_error E c = Inr c"
    using check_error_cases [OF assms(2), of E] assms(1) differ
    by (auto simp: processConnection_def processState_def processDoneSocket_def)
  then have "processState E ch c ls = Inr (c', ls')" using assms(1) by (simp add: processConnection_def)
  then obtain json t where "read_login E c json" "login_packet E json (c\<lparr>ic_socket := Some t\<rparr>) ls = Inr (c', ls')"
    using processState_new_session [OF _ differ] by blast
  moreover from this(2) obtain authID ok c1 where decode: "fromJSON E identity_decode json = Inr authID"
      and run: "processLoginAttempt E authID (c\<lparr>ic_socket := Some t\<rparr>) ls = Inr (ok, c1, ls')"
    by (auto simp: login_packet_def andThen_eq_Inr)
  moreover have ok
    using run by (cases rule: processLoginAttempt_cases) (use differ in auto)
  moreover from this obtain person where "verified E ls authID person \<and> ps_username s = ai_username authID
      \<and> ps_playerID s = pl_id person"
    using run assms(3,4) unfolding verified_def
    by (auto elim!: processLoginAttempt_success split: if_splits) 
  ultimately show ?thesis by blast
qed

lemma turn_keeps_sessions:
  assumes "turn_outcome c ls c' ls'" "ls_sessionHeap ls a = Some t" "server_inv ls"
  shows "ls_sessionHeap ls' a = Some t"
proof -
  have "a \<noteq> ls_nextAddress ls"
    using assms(2,3) by (auto simp: server_inv_def sessions_inv_def dom_def)
  then show ?thesis
    using assms(1,2) by (auto simp: turn_outcome_def register_map_server_def Let_def)
qed

text \<open>A login behind a session: at some point of the run a connection's packet was verified.\<close>

definition logged_in_at ::
  "('b, 's, 'k, 'w, 'm) platform_scheme \<Rightarrow> ('b, 's, 'k, 'w) running \<Rightarrow> 's player_session \<Rightarrow> bool" where
  "logged_in_at E r s \<longleftrightarrow>
     (\<exists>c json authID person. c \<in> set (ls_incomingConnections (rn_server r)) \<and> read_login E c json
        \<and> fromJSON E identity_decode json = Inr authID \<and> verified E (rn_server r) authID person
        \<and> ps_username s = ai_username authID \<and> ps_playerID s = pl_id person)"

lemma login_step_sessions:
  assumes "login_step E r r'" "run_inv r" "ls_sessionHeap (rn_server r') a = Some s"
  shows "(\<exists>t. ls_sessionHeap (rn_server r) a = Some t \<and> ps_username s = ps_username t \<and> ps_playerID s = ps_playerID t)
    \<or> logged_in_at E r s"
proof -
  have inv: "login_inv (rn_server r)" "server_inv (rn_server r)"
    using assms(2) by (simp_all add: run_inv_def login_inv_def)
  from assms(1) show ?thesis
  proof (cases rule: login_step.cases)
    case Boot
    then show ?thesis using assms(3) initDB_frame [of E "rn_server r"] by auto
  next
    case (Accept socket)
    then show ?thesis using assms(3) by (simp add: accept_def)
  next
    case (Turn c' ls')
    let ?c = "ls_incomingConnections (rn_server r) ! rn_cursor r"
    have c: "conn_inv (ls_allMaps (rn_server r)) ?c" using inv(1) Turn(2) by (simp add: login_inv_def)
    show ?thesis
    proof (cases "ls_sessionHeap (rn_server r) a")
      case None
      then show ?thesis
        using processConnection_new_session [OF Turn(3) c None] Turn(1,2) assms(3)
        unfolding logged_in_at_def by (fastforce intro: nth_mem)
    next
      case (Some t)
      then show ?thesis
        using turn_keeps_sessions [OF processConnection_outcome [OF Turn(3) c] Some inv(2)] Turn(1) assms(3) by simp
    qed
  next
    case (EndPass elapsed)
    then show ?thesis using assms(3) by simp
  next
    case (Connected elapsed active ls')
    obtain sessions where m: "serves (abs_directory (rn_server r)) (abs_sessions (rn_server r)) sessions"
        "sessions = abs_sessions ls'"
      using connectedPass_serves [OF Connected(2) inv(1)] by (auto simp: abs_server_def abs_sessions_def)
    have "sessions a = Some (abs_session s)"
      using m(2) Connected(1) assms(3) by (simp add: abs_sessions_def)
    then obtain u where "abs_sessions (rn_server r) a = Some u" "ps_username s = li_username u" "ps_playerID s = li_player u"
      using m(1) by (fastforce simp: serves_def abs_session_def)
    then show ?thesis by (auto simp: abs_sessions_def abs_session_def)
  qed
qed

lemma sessions_from_logins:
  assumes "login_reachable E r" "ls_sessionHeap (rn_server r) a = Some s"
  shows "\<exists>r1. login_reachable E r1 \<and> (login_step E)\<^sup>*\<^sup>* r1 r \<and> logged_in_at E r1 s"
proof -
  obtain details k w r0 where start: "run_start E details k w = Inr r0" and steps: "(login_step E)\<^sup>*\<^sup>* r0 r"
    using assms(1) by (auto simp: login_reachable_def)
  from steps assms(2) show ?thesis
  proof (induction arbitrary: s rule: rtranclp_induct)
    case base
    have "sp_sessions (abs_run r0) a = None" by (simp add: abs_run_start [OF start] spec_start_def)
    then show ?case using base by (simp add: abs_run_def abs_server_def)
  next
    case (step r r')
    have r: "login_reachable E r" by (rule login_reachable_steps [OF step.hyps(1) login_reachable_start [OF start]])
    have same: "logged_in_at E r1 s" if "logged_in_at E r1 t" "ps_username s = ps_username t"
        "ps_playerID s = ps_playerID t" for r1 t
      using that by (simp add: logged_in_at_def)
    from login_step_sessions [OF step.hyps(2) login_reachable_inv [OF r] step.prems] show ?case
    proof
      assume "logged_in_at E r s"
      then show ?thesis using r step.hyps(2) by blast
    next
      assume "\<exists>t. ls_sessionHeap (rn_server r) a = Some t \<and> ps_username s = ps_username t \<and> ps_playerID s = ps_playerID t"
      then obtain t where t: "ls_sessionHeap (rn_server r) a = Some t" "ps_username s = ps_username t"
          "ps_playerID s = ps_playerID t" by blast
      obtain r1 where "login_reachable E r1" "(login_step E)\<^sup>*\<^sup>* r1 r" "logged_in_at E r1 t"
        using step.IH [OF t(1)] by blast
      then show ?thesis using same [OF _ t(2,3)] step.hyps(2) by (meson rtranclp.rtrancl_into_rtrancl)
    qed
  qed
qed

end
