(* ===== verification/SpecProperties.thy ===== *)
theory SpecProperties imports LoginOrigins LoginProgress SampleLogin begin

text \<open>
  The login server against its specification: its runs are runs of the abstract server, where a player
  is sent does not change, every session stems from a verified login, and every connection ends.
\<close>

section \<open>Refinement\<close>

text \<open>C2: The login server implements its specification step by step: its start is the start of the abstract server, and
  from every state of a run each step, whatever clients, map servers, sockets, the database and the interleaving of
  the threads do, is one step of the abstract server or changes nothing of it: neither the states and attempts of
  the connections, nor the players logged in, nor the directory of map servers.\<close>

theorem run_refines_spec:
  assumes "run_start E details makeNewKeys w = Inr r0" "(login_step E)\<^sup>*\<^sup>* r0 r" "login_step E r r'"
  shows "abs_run r0 = spec_start
    \<and> (spec_step (hosted_names (rn_server r0)))\<^sup>*\<^sup>* (abs_run r0) (abs_run r)
    \<and> (spec_step (hosted_names (rn_server r0)) (abs_run r) (abs_run r') \<or> abs_run r' = abs_run r)"
proof -
  note run = login.run_refines [OF assms(2) run_start_inv [OF assms(1)]]
  have "hosted_names (rn_server r) = hosted_names (rn_server r0)" using run by (simp add: hosted_names_def)
  then have "(spec_step (hosted_names (rn_server r0)))\<^sup>=\<^sup>= (abs_run r) (abs_run r')"
    using login_step_simulated(1) [OF assms(3)] run by simp
  then show ?thesis using run abs_run_start [OF assms(1)] by (auto simp: hosted_names_def)
qed

lemma run_refines_spec_witness:
  "\<exists>hosted sp sp'. spec_step hosted sp sp' \<and> sp_directory sp ''town'' = None
     \<and> sp_directory sp' ''town'' = Some (''map'', ''host'', 10420) \<and> sp_connections sp' = [(DONE, 0)]"
proof -
  let ?E = sample_platform and ?b = "rn_server sample_booted"
  obtain r s c where r: "login_reachable ?E r" "rn_cursor r = 0" "rn_server r = with_connections [c] ?b"
      "processConnection ?E (rn_challenge r) c (rn_server r) = Inr (sample_conn None DONE (Some []),
         with_connections [c] (register_map_server (sample_registered s) ?b))"
    using sample_map_server_life by blast
  let ?t = "r\<lparr>rn_server := with_connections [sample_conn None DONE (Some [])] (register_map_server (sample_registered s) ?b),
      rn_cursor := 1\<rparr>"
  have "conns r = [c]" by (simp add: r(3) with_connections_def)
  from sample_first_steps(1) [OF r(1,2) this r(4)] have step: "login_step ?E r ?t" by (simp add: with_connections_def)
  obtain details k w r0 where run: "run_start ?E details k w = Inr r0" "(login_step ?E)\<^sup>*\<^sup>* r0 r"
    using r(1) unfolding login_reachable_def by blast
  have "sp_directory (abs_run ?t) ''town'' = Some (''map'', ''host'', 10420)" "sp_directory (abs_run r) ''town'' = None"
    by (simp_all add: r(3) abs_run_def abs_server_def abs_directory_def with_connections_def register_index
        sample_booted_server offers_def sample_registered_def MapServerConnection_new_def sample_location_def
        vec_back_ptr_def server_instructions_def)
  moreover have "sp_connections (abs_run ?t) = [(DONE, 0)]"
    by (simp add: abs_run_def with_connections_def abs_connection_def sample_conn_def)
  ultimately show ?thesis using run_refines_spec [OF run step] by (metis option.distinct(1))
qed

section \<open>Where players are sent\<close>

lemma selectAnswer_from_directory:
  assumes "selectAnswer E ls i = Inr (True, answer)"
  shows "\<exists>name f h p. ls_mapIDToName ls i = Some name \<and> abs_directory ls name = Some (f, h, p)
    \<and> answer = MapServerConnectionInstructions_new E f h p"
  using assms
  by (auto simp: selectAnswer_def abs_directory_def um_find_def server_instructions_def vec_deref_def andThen_eq_Inr
      split: option.splits if_splits prod.splits)

text \<open>C5: Where a player is sent does not change: once a character on a location was answered with a map server, every
  later answer for that location, to any player and however many map servers have registered since, names the
  same server.\<close>

theorem same_map_same_server:
  assumes "login_reachable E r" "(login_step E)\<^sup>*\<^sup>* r r'"
    and "selectAnswer E (rn_server r) i = Inr (True, answer)" "selectAnswer E (rn_server r') i = Inr (ok, answer')"
  shows "ok \<and> answer' = answer"
proof -
  obtain name f h p where old: "ls_mapIDToName (rn_server r) i = Some name"
      "abs_directory (rn_server r) name = Some (f, h, p)" "answer = MapServerConnectionInstructions_new E f h p"
    using selectAnswer_from_directory [OF assms(3)] by blast
  note run = login.run_refines [OF assms(2) login_reachable_inv [OF assms(1)]]
  have "sp_directory (abs_run r) \<subseteq>\<^sub>m sp_directory (abs_run r')"
    by (rule login.preserved [OF assms(2) login_reachable_inv [OF assms(1)]])
      (auto dest: spec_directory_grows intro: map_le_trans)
  then have new: "abs_directory (rn_server r') name = Some (f, h, p)"
    using old(2) by (auto simp: map_le_def abs_run_def abs_server_def dom_def)
  have name: "ls_mapIDToName (rn_server r') i = Some name" using run old(1) by simp
  have ok
    using assms(4) name new
    by (auto simp: selectAnswer_def abs_directory_def um_find_def andThen_eq_Inr split: option.splits)
  then show ?thesis
    using selectAnswer_from_directory [of E "rn_server r'" i answer'] assms(4) name new old(3) by auto
qed

lemma same_map_same_server_witness:
  "\<exists>r r' answer. (login_step sample_platform)\<^sup>*\<^sup>* r r' \<and> ls_incomingConnections (rn_server r') = []
     \<and> selectAnswer sample_platform (rn_server r') 1 = Inr (True, answer)
     \<and> answer = MapServerConnectionInstructions_new sample_platform ''map'' ''host'' 10420"
proof -
  let ?answer = "MapServerConnectionInstructions_new sample_platform ''map'' ''host'' 10420"
  obtain r s where r: "login_reachable sample_platform r" "rn_cursor r = 0"
      "rn_server r = with_connections [sample_conn None DONE (Some [])]
         (register_map_server (sample_registered s) (rn_server sample_booted))"
    using sample_registered_reachable by blast
  let ?m = "register_map_server (sample_registered s) (rn_server sample_booted)"
  have index: "ls_mapIDToName ?m = [1 \<mapsto> ''town'']"
    using initDB_frame [of sample_platform sample_server]
    by (auto simp: register_map_server_def Let_def sample_booted_def sample_server_def)
  have "offers (sample_registered s) ''town''"
    by (simp add: offers_def sample_registered_def MapServerConnection_new_def sample_location_def)
  then have "ls_mapNameToConnection ?m ''town'' = Some (1, 0)" "vec_deref (ls_mapServers ?m) (1, 0) = Inr (sample_registered s)"
    by (simp_all add: register_index sample_booted_server vec_back_ptr_def vec_emplace_back_def vec_deref_def vec_valid_def)
  then have answers: "selectAnswer sample_platform (with_connections cs ?m) 1 = Inr (True, ?answer)" for cs
    by (simp add: selectAnswer_def with_connections_def index um_find_def)
      (simp add: sample_registered_def MapServerConnection_new_def)
  let ?a = "r\<lparr>rn_server := with_connections [sample_conn None DONE (Some [])] ?m, rn_cursor := 1\<rparr>"
  let ?b = "r\<lparr>rn_server := with_connections [] ?m, rn_cursor := 0\<rparr>"
  have "login_step sample_platform ?a ?b"
    using EndPass [of ?a sample_platform 6] r(3)
    by (simp add: with_connections_def purge_done_def sample_conn_def DONE_PURGE_TIME_def)
  moreover have "login_step sample_platform r ?a"
    using Turn [of r sample_platform "sample_conn None DONE (Some [])" "rn_server r"] r(2,3)
    by (simp add: with_connections_def processConnection_def check_error_def processState_def processDoneSocket_def sample_conn_def)
  ultimately have steps: "(login_step sample_platform)\<^sup>*\<^sup>* r ?b" by auto
  have "selectAnswer sample_platform (rn_server r) 1 = Inr (True, ?answer)"
    "selectAnswer sample_platform (rn_server ?b) 1 = Inr (True, ?answer)"
    using answers by (simp_all add: r(3) del: sample_simps)
  from same_map_same_server [OF r(1) steps this] this(2) show ?thesis
    using steps by (intro exI conjI) (assumption, simp_all add: with_connections_def)
qed

section \<open>Where sessions come from\<close>

text \<open>C3: Nobody plays without having logged in: every player session of a reachable state stems from an earlier moment
  of the run at which a connection's packet was read as a login, its password decrypted with the server's key,
  and its hash found to be the one stored for an account of that user name that was not locked; the session has
  that user name and that account.\<close>

theorem sessions_stem_from_logins:
  assumes "login_reachable E r" "ls_sessionHeap (rn_server r) a = Some s"
  shows "\<exists>r1 c json authID crypto password person rest.
    login_reachable E r1 \<and> (login_step E)\<^sup>*\<^sup>* r1 r \<and> c \<in> set (ls_incomingConnections (rn_server r1))
    \<and> read_login E c json \<and> fromJSON E identity_decode json = Inr authID
    \<and> ls_crypto (rn_server r1) = Some crypto \<and> decryptStringPrivate E crypto (ai_password authID) = Inr password
    \<and> fst (db_players_by_username E (ai_username authID) (db_begin E (ls_world (rn_server r1)))) = person # rest
    \<and> \<not> pl_locked person
    \<and> pl_password person
        = sha256ToString (hashPasswordSHA256 E (ls_hasher (rn_server r1)) password (stringToSalt (pl_salt person)))
    \<and> ps_username s = ai_username authID \<and> ps_playerID s = pl_id person"
  using sessions_from_logins [OF assms] unfolding logged_in_at_def verified_def by blast

lemma sessions_stem_from_logins_witness:
  "\<exists>r person rest. login_reachable sample_platform r
     \<and> fst (db_players_by_username sample_platform superUserID (db_begin sample_platform (ls_world (rn_server r)))) = person # rest
     \<and> \<not> pl_locked person"
proof -
  obtain r s where r: "login_reachable sample_platform r" "ls_sessionHeap (rn_server r) 0 = Some s"
      "ps_username s = superUserID"
    using sample_login_reachable by blast
  show ?thesis using sessions_stem_from_logins [OF r(1,2)] unfolding r(3) by metis
qed

section \<open>The end of a connection\<close>

text \<open>C4: Every connection comes to its end. Follow one connection through a run, while others come, are served and are
  purged and the sessions are served: until a purge removes it, done, it keeps its place among those that are
  left, and it is done once four of its turns have found that its peer had sent something, and could answer
  where that was a map server's request. What the other connections do, and how often the peer is silent, does not
  matter, and whatever the run does next the connection can be followed on.\<close>

theorem connections_finish:
  assumes "login_reachable E r" "i < length (ls_incomingConnections (rn_server r))" "life E r i n q p"
  shows "case p of None \<Rightarrow> True
    | Some j \<Rightarrow> j < length (ls_incomingConnections (rn_server q))
        \<and> (4 \<le> n \<longrightarrow> ic_state (ls_incomingConnections (rn_server q) ! j) = DONE)
        \<and> (\<forall>q'. login_step E q q' \<longrightarrow> (\<exists>m p'. life E r i m q' p'))"
proof (cases p)
  case (Some j)
  have life: "run_inv q" "j < length (conns q)" "turns_left (abs_connection (conns q ! j)) \<le> 4 - n"
    using life_closer [OF assms(3) login_reachable_inv [OF assms(1)] assms(2)] Some by simp_all
  then have "conn_inv (ls_allMaps (rn_server q)) (conns q ! j)" by (simp add: run_inv_def login_inv_def)
  then have "4 \<le> n \<longrightarrow> ic_state (conns q ! j) = DONE" using turns_left_none life(3) by fastforce
  moreover have "\<forall>q'. login_step E q q' \<longrightarrow> (\<exists>m p'. life E r i m q' p')"
    using life_goes_on assms(3) Some by blast
  ultimately show ?thesis using Some life(2) by simp
qed simp

lemma connections_finish_witness:
  "\<exists>q. life sample_platform (sample_accepted [sample_map_socket]) 0 4 q (Some 0)
     \<and> map ic_state (ls_incomingConnections (rn_server q)) = [DONE]"
proof -
  let ?E = sample_platform and ?r = "sample_accepted [sample_map_socket]"
  obtain r s c where r: "login_reachable ?E r" "rn_cursor r = 0" "rn_server r = with_connections [c] (rn_server sample_booted)"
      "processConnection ?E (rn_challenge r) c (rn_server r) = Inr (sample_conn None DONE (Some []),
         with_connections [c] (register_map_server (sample_registered s) (rn_server sample_booted)))"
    and life: "life ?E ?r 0 3 r (Some 0)" "heard ?E c"
    using sample_map_server_life by blast
  have "conns r = [c]" by (simp add: r(3) with_connections_def)
  from sample_first_life [OF r(1,2) this r(4) life] obtain q where q: "life ?E ?r 0 4 q (Some 0)" "length (conns q) = 1"
    by (auto simp: eval_nat_numeral)
  have "ic_state (conns q ! 0) = DONE"
    using connections_finish [OF sample_accepted_reachable _ q(1)] by (simp add: sample_accepted_connections)
  then show ?thesis using q by (intro exI [of _ q]) (cases "conns q"; simp)
qed

end
