(* ===== verification/ServerProgram.thy ===== *)
theory ServerProgram imports ServerMain begin

text \<open>
  The program of the servers as a whole (\<open>main\<close> of server/servermain.cpp), with the base class
  both servers are built on (server/ServerCommon.cpp).
\<close>

section \<open>main\<close>

text \<open>
  What the program comes to: it exits with success at once, a login server runs, or a map server
  has started, or exits with success again where it did not come to listen. The acceptor's error is
  what APG reports for the port. The socket library is started only after the server was built.
\<close>

datatype ('b, 's, 'k, 'w, 'd) program =
    Exited
  | LoginRunning "('b, 's, 'k, 'w) running" "'d server_base"
  | MapStarted start "('s, 'k) map_server" "'d server_base"

definition server_main ::
  "('b, 's, 'k, 'w, 'm) platform_scheme \<Rightarrow> ('s, 'a, 'd) net_api \<Rightarrow> (u16 \<Rightarrow> bool) \<Rightarrow> int \<times> int \<Rightarrow> u32 \<times> u32
     \<Rightarrow> variables_map \<Rightarrow> 'w \<Rightarrow> ('b, 's, 'k, 'w, 'd) program res" where
  "server_main E N validatePort uninit draws vm w =
     andThen (initializeProgramOptions E (\<lambda>host port. Server_getSocket N host port None None) validatePort vm w) (\<lambda>server.
     case server of
       NoServer \<Rightarrow> Inr Exited
     | LoginServerOf ls db \<Rightarrow>
         andThen (LoginServer_run E ls) (\<lambda>r. Inr (LoginRunning r (Server_new N (ls_details ls) db draws)))
     | MapServerOf ms db \<Rightarrow>
         andThen (MapServer_run E
             (\<lambda>port. na_acceptor_hasError N (Server_getAcceptorSocket N port (Some True) None)) uninit ms w) (\<lambda>(start, ms1).
         Inr (MapStarted start ms1 (Server_new N (ms_details ms) db draws))))"

section \<open>What the program comes to\<close>

lemma startLoginServer_built:
  assumes "startLoginServer E validatePort vm defaulted w = Inr (Some (ls, db))"
  shows "\<exists>details. LoginServer_new E details (vm_regenerate_keys vm) w = Inr ls"
  using assms by (auto simp: startLoginServer_def andThen_eq_Inr Let_def split: if_splits)

lemma LoginServer_new_details: "LoginServer_new E details k w = Inr ls \<Longrightarrow> ls_details ls = details"
  by (auto simp: LoginServer_new_def Let_def andThen_eq_Inr split: if_splits)

lemma login_reachable_run:
  assumes "startLoginServer E validatePort vm defaulted w = Inr (Some (ls, db))" "LoginServer_run E ls = Inr r"
  shows "login_reachable E r"
proof -
  obtain details where "LoginServer_new E details (vm_regenerate_keys vm) w = Inr ls"
    using startLoginServer_built [OF assms(1)] by blast
  then have "run_start E details (vm_regenerate_keys vm) w = Inr r" using assms(2) by (simp add: run_start_def)
  then show ?thesis by (rule login_reachable_start)
qed

lemma processMaps_frame:
  assumes "processMaps E ls = Inr ls'"
  shows "ls_details ls' = ls_details ls \<and> ls_crypto ls' = ls_crypto ls"
proof -
  obtain paths ls1 where run: "foldR (processMap E) paths ls = Inr ls1"
      and ls': "ls' = ls1\<lparr>ls_mapServers := vec_reserve (length (ls_allMaps ls1)) (ls_mapServers ls1)\<rparr>"
    using assms by (auto simp: processMaps_def andThen_eq_Inr deref_eq_Inr)
  have "ls_details ls1 = ls_details ls \<and> ls_crypto ls1 = ls_crypto ls"
    by (rule foldR_invariant [OF run]) (auto dest: processMap_keeps)
  then show ?thesis by (simp add: ls')
qed

lemma LoginServer_run_Inr:
  assumes "LoginServer_run E ls = Inr r"
  shows "ls_crypto ls \<noteq> None \<and> ls_details (rn_server r) = ls_details ls \<and> ls_crypto (rn_server r) = ls_crypto ls
    \<and> incomingChallenge E (rn_server r) = Inr (rn_challenge r) \<and> \<not> rn_booted r"
proof -
  obtain ls1 where ls1: "processMaps E ls = Inr ls1" "incomingChallenge E ls1 = Inr (rn_challenge r)" "rn_server r = ls1"
      "\<not> rn_booted r"
    using assms by (auto simp: LoginServer_run_def andThen_eq_Inr)
  then have "ls_crypto ls1 \<noteq> None" by (cases "ls_crypto ls1") (simp_all add: incomingChallenge_def)
  then show ?thesis using ls1 processMaps_frame [OF ls1(1)] by simp
qed

lemma MapServer_run_Inr:
  assumes "MapServer_run E acceptorFails uninit ms w = Inr (LISTENING, ms')"
  shows "ms_details ms' = ms_details ms \<and> \<not> acceptorFails (sd_port (ms_details ms))
    \<and> (\<exists>ms1. parseMaps E uninit ms w = Inr (True, ms1) \<and> ms' = ms1\<lparr>ms_masterServerConnection := ms_masterServerConnection ms'\<rparr>
         \<and> registerWithMasterServer E ms1 = Inr (True, ms_masterServerConnection ms'))"
  using assms
  by (auto simp: MapServer_run_def parseMaps_def Let_def andThen_eq_Inr deref_eq_Inr split: if_splits)

lemma startLoginServer_None:
  "startLoginServer E validatePort vm (vm_login_server vm = None) w = Inr None \<Longrightarrow>
    \<not> validatePort (case vm_login_server vm of None \<Rightarrow> DEFAULT_LOGIN_PORT | Some p \<Rightarrow> p)
    \<or> (\<exists>p. vm_database_port vm = Some p \<and> \<not> validatePort p) \<or> vm_database_password vm = None \<or> loadMaps E vm w = Inr []"
  by (cases "vm_login_server vm")
    (auto simp: startLoginServer_def andThen_eq_Inr deref_eq_Inr Let_def split: if_splits)

lemma startWorldServer_None:
  "startWorldServer E getSocket validatePort vm w = Inr None \<Longrightarrow>
    (\<exists>p. vm_world_server vm = Some p \<and> \<not> validatePort p)
    \<or> (\<exists>p. vm_database_port vm = Some p \<and> \<not> validatePort p) \<or> vm_database_password vm = None \<or> loadMaps E vm w = Inr []
    \<or> vm_master_address vm = None"
  by (auto simp: startWorldServer_def andThen_eq_Inr deref_eq_Inr Let_def split: if_splits)

lemma startLoginServer_database:
  "startLoginServer E validatePort vm defaulted w = Inr (Some (ls, db)) \<Longrightarrow>
    vm_database_server vm = Some (dd_hostName db) \<and> vm_database_port vm = Some (dd_port db)
    \<and> vm_database_username vm = Some (dd_userName db) \<and> vm_database_password vm = Some (dd_password db)"
  by (auto simp: startLoginServer_def andThen_eq_Inr deref_eq_Inr Let_def DatabaseDetails_new_def split: if_splits)

lemma startWorldServer_database:
  "startWorldServer E getSocket validatePort vm w = Inr (Some (ms, db)) \<Longrightarrow>
    vm_database_server vm = Some (dd_hostName db) \<and> vm_database_port vm = Some (dd_port db)
    \<and> vm_database_username vm = Some (dd_userName db) \<and> vm_database_password vm = Some (dd_password db)"
  by (auto simp: startWorldServer_def andThen_eq_Inr deref_eq_Inr Let_def DatabaseDetails_new_def split: if_splits)

lemma startWorldServer_keys:
  "startWorldServer E getSocket validatePort vm w = Inr (Some (ms, db)) \<Longrightarrow>
    \<exists>pub prv. vm_master_public vm = Some pub \<and> vm_master_private vm = Some prv
      \<and> fromFiles E pub prv w = Inr (ms_masterServerCrypto ms)"
  by (auto simp: startWorldServer_def andThen_eq_Inr deref_eq_Inr Let_def MapServer_new_def split: if_splits)

lemma startLoginServer_keys:
  "startLoginServer E validatePort vm defaulted w = Inr (Some (ls, db)) \<Longrightarrow>
    vm_regenerate_keys vm \<or> fromFiles E ''login.pub'' ''login.prv'' w = Inr (ls_crypto ls)"
  by (auto simp: startLoginServer_def LoginServer_new_def ServerDetails_new_def andThen_eq_Inr Let_def split: if_splits)

lemma initializeProgramOptions_NoServer:
  "initializeProgramOptions E getSocket validatePort vm w = Inr NoServer \<Longrightarrow>
    vm_help vm \<or> vm_version vm \<or> vm_login_server vm \<noteq> None \<and> vm_world_server vm \<noteq> None
    \<or> vm_world_server vm \<noteq> None \<and> startWorldServer E getSocket validatePort vm w = Inr None
    \<or> startLoginServer E validatePort vm (vm_login_server vm = None) w = Inr None"
  by (auto simp: initializeProgramOptions_def Let_def andThen_eq_Inr split: if_splits option.splits) (metis not_None_eq surj_pair)+

lemma server_main_cases:
  assumes "server_main E N validatePort uninit draws vm w = Inr p"
  obtains "p = Exited"
  | ls db r where "startLoginServer E validatePort vm (vm_login_server vm = None) w = Inr (Some (ls, db))"
      "vm_world_server vm = None" "LoginServer_run E ls = Inr r" "p = LoginRunning r (Server_new N (ls_details ls) db draws)"
  | ms db start ms' where "startWorldServer E (\<lambda>host port. Server_getSocket N host port None None) validatePort vm w
        = Inr (Some (ms, db))" "vm_login_server vm = None"
      "MapServer_run E (\<lambda>port. na_acceptor_hasError N (Server_getAcceptorSocket N port (Some True) None)) uninit ms w
        = Inr (start, ms')"
      "p = MapStarted start ms' (Server_new N (ms_details ms) db draws)"
  using assms
  by (auto simp: server_main_def initializeProgramOptions_def andThen_eq_Inr split: if_splits option.splits server.splits)

end
