(* ===== verification/ClientMain.thy ===== *)
theory ClientMain imports ClientScene begin

text \<open>
  The program of the client (client/main.cpp): it is built and set up, and then updated for ever,
  until an update says that it is done.
\<close>

section \<open>The loop\<close>

text \<open>
  The time since the last frame, in seconds: a duration of the clock, whose unit is the nanosecond,
  cast to milliseconds, which drops the fraction, and divided in single precision.
\<close>

definition milliseconds :: "int \<Rightarrow> int" where
  "milliseconds d = (if 0 \<le> d then d div 1000000 else - (- d div 1000000))"

definition deltaTime :: "int \<Rightarrow> int \<Rightarrow> rat" where
  "deltaTime startTime timeNow = fl (fl (of_int (milliseconds (timeNow - startTime))) / 1000)"

text \<open>
  \<open>update\<close> is APG's: it handles the events, calls \<open>render\<close> and tells whether the game is done. \<open>now i\<close>
  is what the clock says when it is read for the \<open>i\<close>-th time. A loop that does not end is \<^const>\<open>None\<close>.
\<close>

partial_function (option) game_loop ::
  "(rat \<Rightarrow> 'c \<Rightarrow> (bool \<times> 'c) res) \<Rightarrow> (nat \<Rightarrow> int) \<Rightarrow> int \<Rightarrow> nat \<Rightarrow> 'c \<Rightarrow> 'c res option" where
  "game_loop update now startTime i c =
     (case update (deltaTime startTime (now i)) c of
        Inl e \<Rightarrow> Some (Inl e)
      | Inr r \<Rightarrow> if fst r then Some (Inr (snd r)) else game_loop update now (now i) (Suc i) (snd r))"

datatype exit_code = EXIT_SUCCESS | EXIT_FAILURE

text \<open>\<open>init\<close> gives true wherever it gives anything.\<close>

definition client_main ::
  "(rat \<Rightarrow> ('b, 's, 'k, 'g, 'w) client \<Rightarrow> (bool \<times> ('b, 's, 'k, 'g, 'w) client) res) \<Rightarrow> (nat \<Rightarrow> int)
     \<Rightarrow> (string \<Rightarrow> u16 \<Rightarrow> 's) \<Rightarrow> (string \<Rightarrow> tmx_map) \<Rightarrow> int \<times> int \<Rightarrow> 'g \<Rightarrow> string list \<Rightarrow> 'w \<Rightarrow> exit_code res option" where
  "client_main update now getSocket tmxRenderer uninit sprite args w =
     (case mapRes (Pair True) (PlayPG_init getSocket tmxRenderer uninit sprite args w) of
        Inl e \<Rightarrow> Some (Inl e)
      | Inr (ok, cl) \<Rightarrow>
          if \<not> ok then Some (Inr EXIT_FAILURE)
          else map_option (mapRes (\<lambda>_. EXIT_SUCCESS)) (game_loop update now (now 0) 1 cl))"

end
