(* ===== verification/ProgramProperties.thy ===== *)
theory ProgramProperties imports HandshakeProperties ServerProgram ClientMain ClientProperties begin

text \<open>The server program from its \<open>main\<close> on: what it comes to, and that all it does is among the reachable states.\<close>

section \<open>The servers\<close>

text \<open>The database connection that the command line asks for.\<close>

definition connects :: "('s, 'a, 'd) net_api \<Rightarrow> variables_map \<Rightarrow> 'd server_base \<Rightarrow> bool" where
  "connects N vm base \<longleftrightarrow>
     (\<exists>host port user password. vm_database_server vm = Some host \<and> vm_database_port vm = Some port
        \<and> vm_database_username vm = Some user \<and> vm_database_password vm = Some password
        \<and> sb_db base = na_mysql_database N (c_str user) (c_str password) ''ppg'' (c_str host) port)"

lemma connects_base:
  assumes "vm_database_server vm = Some (dd_hostName db) \<and> vm_database_port vm = Some (dd_port db)
    \<and> vm_database_username vm = Some (dd_userName db) \<and> vm_database_password vm = Some (dd_password db)"
  shows "connects N vm (Server_new N details db draws)"
  using assms by (auto simp: connects_def Server_new_def Server_getDatabaseConnection_def)

text \<open>C24: The server program ends at once only when help or the version was asked for, or both kinds of server, or a port
  is not valid, or there is no database password, no map, or no address of a master for a world server. A login
  server that it runs has keys, the maps of the map directory and the asked-for port on localhost, and is a
  start of the run that the other properties are about; a map server comes to listen only after it has seen the
  challenge of a login server of the same version whose public key is the one in its key file. Both connect to
  the database ppg with the given account.\<close>

theorem server_program:
  assumes "server_main E N validatePort uninit draws vm w = Inr p"
  shows "case p of
      Exited \<Rightarrow> vm_help vm \<or> vm_version vm \<or> vm_login_server vm \<noteq> None \<and> vm_world_server vm \<noteq> None
        \<or> (\<exists>port. port \<in> {case vm_login_server vm of None \<Rightarrow> DEFAULT_LOGIN_PORT | Some q \<Rightarrow> q}
              \<union> set_option (vm_world_server vm) \<union> set_option (vm_database_port vm) \<and> \<not> validatePort port)
        \<or> vm_database_password vm = None \<or> loadMaps E vm w = Inr []
        \<or> vm_world_server vm \<noteq> None \<and> vm_master_address vm = None
    | LoginRunning r base \<Rightarrow> login_reachable E r \<and> \<not> rn_booted r \<and> vm_world_server vm = None
        \<and> sd_port (ls_details (rn_server r)) = (case vm_login_server vm of None \<Rightarrow> DEFAULT_LOGIN_PORT | Some q \<Rightarrow> q)
        \<and> sd_hostName (ls_details (rn_server r)) = ''localhost''
        \<and> sd_maps (ls_details (rn_server r)) = Some (projr (loadMaps E vm w))
        \<and> (vm_regenerate_keys vm \<or> (\<exists>crypto. fromFiles E ''login.pub'' ''login.prv'' w = Inr (Some crypto))) \<and> connects N vm base
    | MapStarted start ms base \<Rightarrow> vm_login_server vm = None \<and> connects N vm base \<and>
        (start = LISTENING \<longrightarrow> vm_world_server vm = Some (sd_port (ms_details ms))
          \<and> sd_hostName (ms_details ms) = ''localhost''
          \<and> \<not> na_acceptor_hasError N (na_acceptor N (sd_port (ms_details ms)) True (na_BB_DEFAULT_SIZE N))
          \<and> (\<exists>pub prv crypto s challenge t. vm_master_public vm = Some pub \<and> vm_master_private vm = Some prv
               \<and> fromFiles E pub prv w = Inr (Some crypto)
               \<and> receives E LOGIN_AUTHENTICATION_CHALLENGE challenge_decode s challenge t
               \<and> ac_pubKey challenge = rc_publicKey crypto \<and> versionMatches E challenge))"
  using assms
proof (cases rule: server_main_cases)
  case 1
  let ?init = "initializeProgramOptions E (\<lambda>host port. Server_getSocket N host port None None) validatePort vm w"
  obtain server where server: "?init = Inr server" using assms by (auto simp: server_main_def andThen_eq_Inr)
  then have "?init = Inr NoServer"
    using assms 1 by (cases server) (auto simp: server_main_def andThen_eq_Inr)
  note none = initializeProgramOptions_NoServer [OF this]
  have "vm_help vm \<or> vm_version vm \<or> vm_login_server vm \<noteq> None \<and> vm_world_server vm \<noteq> None
      \<or> (\<exists>port. port \<in> {case vm_login_server vm of None \<Rightarrow> DEFAULT_LOGIN_PORT | Some q \<Rightarrow> q}
            \<union> set_option (vm_world_server vm) \<union> set_option (vm_database_port vm) \<and> \<not> validatePort port)
      \<or> vm_database_password vm = None \<or> loadMaps E vm w = Inr []
      \<or> vm_world_server vm \<noteq> None \<and> vm_master_address vm = None"
    using none
  proof (elim disjE conjE)
    assume "startLoginServer E validatePort vm (vm_login_server vm = None) w = Inr None"
    from startLoginServer_None [OF this] show ?thesis by fastforce
  next
    assume "startWorldServer E (\<lambda>host port. Server_getSocket N host port None None) validatePort vm w = Inr None"
      "vm_world_server vm \<noteq> None"
    with startWorldServer_None [OF this(1)] show ?thesis by fastforce
  qed blast+
  then show ?thesis unfolding 1 program.case .
next
  case (2 ls db r)
  note started = startLoginServer_Inr [OF 2(1)] and run = LoginServer_run_Inr [OF 2(3)]
  have "vm_regenerate_keys vm \<or> (\<exists>crypto. fromFiles E ''login.pub'' ''login.prv'' w = Inr (Some crypto))"
    using started run startLoginServer_keys [OF 2(1)] by auto
  moreover have "sd_maps (ls_details ls) = Some (projr (loadMaps E vm w))" using started by auto
  ultimately show ?thesis
    using started run login_reachable_run [OF 2(1,3)] connects_base [OF startLoginServer_database [OF 2(1)]] 2(2,4)
    by simp
next
  case (3 ms db start ms')
  note started = startWorldServer_Inr [OF 3(1)]
  have "\<exists>pub prv crypto s challenge t. vm_master_public vm = Some pub \<and> vm_master_private vm = Some prv
      \<and> fromFiles E pub prv w = Inr (Some crypto) \<and> receives E LOGIN_AUTHENTICATION_CHALLENGE challenge_decode s challenge t
      \<and> ac_pubKey challenge = rc_publicKey crypto \<and> versionMatches E challenge"
    if "start = LISTENING"
  proof -
    note run = MapServer_run_Inr [OF 3(3) [unfolded that]]
    obtain ms1 s' where reg: "registerWithMasterServer E ms1 = Inr (True, s')" "parseMaps E uninit ms w = Inr (True, ms1)"
      using run by blast
    have "ms_masterServerCrypto ms1 = ms_masterServerCrypto ms"
      using reg(2) by (auto simp: parseMaps_def Let_def andThen_eq_Inr split: if_splits)
    then show ?thesis
      using registered_with_verified_server [OF reg(1)] startWorldServer_keys [OF 3(1)] by metis
  qed
  moreover have "ms_details ms' = ms_details ms
      \<and> \<not> na_acceptor_hasError N (na_acceptor N (sd_port (ms_details ms)) True (na_BB_DEFAULT_SIZE N))"
    if "start = LISTENING"
    using MapServer_run_Inr [OF 3(3) [unfolded that]] by (simp add: Server_getAcceptorSocket_def)
  ultimately show ?thesis
    using started connects_base [OF startWorldServer_database [OF 3(1)]] 3(2,4) by simp
qed

section \<open>Witnesses\<close>

lemma server_program_witness:
  "\<exists>base. server_main sample_platform \<lparr>na_socket = (\<lambda>h p b n. sample_sock [] []), na_acceptor = (\<lambda>p b n. ()),
       na_acceptor_hasError = (\<lambda>a. False), na_BB_DEFAULT_SIZE = 4096, na_mysql_database = (\<lambda>u p d h q. (d, q))\<rparr>
     (\<lambda>p. True) (0, 0) (1, 2) ((default_options ''ppg'')\<lparr>vm_database_password := Some ''pw'', vm_regenerate_keys := True\<rparr>)
     sample_world_0 = Inr (LoginRunning sample_run base) \<and> sb_db base = (''ppg'', 3306) \<and> sb_seed base = 0x100000002"
proof -
  let ?vm = "(default_options ''ppg'')\<lparr>vm_database_password := Some ''pw'', vm_regenerate_keys := True\<rparr>"
  let ?N = "\<lparr>na_socket = (\<lambda>h p b n. sample_sock [] []), na_acceptor = (\<lambda>p b n. ()),
       na_acceptor_hasError = (\<lambda>a. False), na_BB_DEFAULT_SIZE = 4096, na_mysql_database = (\<lambda>u p d h q. (d, q))\<rparr>"
  obtain ls where ls: "LoginServer_new sample_platform sample_details True sample_world_0 = Inr ls"
      "LoginServer_run sample_platform ls = Inr sample_run"
    using sample_run_start by (auto simp: run_start_def andThen_eq_Inr)
  define base where "base = Server_new ?N (ls_details ls) (DatabaseDetails_new ''localhost'' 3306 ''root'' ''pw'' MYSQL) (1, 2)"
  have "fs_list sample_platform ''./maps/'' sample_world_0 = [(''a.tmx'', ''.tmx'')]" by (simp add: sample_world_0_def)
  then have "server_main sample_platform ?N (\<lambda>p. True) (0, 0) (1, 2) ?vm sample_world_0 = Inr (LoginRunning sample_run base)"
    using ls
    by (simp add: server_main_def initializeProgramOptions_def startLoginServer_def default_options_def loadMaps_def
        sample_details_def DEFAULT_LOGIN_PORT_def base_def)
  note run = this
  have "sb_seed base = 0x100000002"
    by (simp add: base_def Server_new_def twister_seed_def)
  moreover have "connects ?N ?vm base" using server_program [OF run] by simp
  then have "sb_db base = (''ppg'', 3306)" by (auto simp: connects_def default_options_def)
  ultimately show ?thesis using run by blast
qed

end
