(* ===== verification/JoinProperties.thy ===== *)
theory JoinProperties imports HandshakeProperties ServiceProperties SpecProperties begin

text \<open>
  A map server joins: the login server's three turns on its connection after the challenge, put together, from
  the request it makes to the answers that players get; and the same exchange as the map server runs it.
\<close>

section \<open>What arrives\<close>

text \<open>A packet is the next thing that a turn on the connection reads, with \<open>so_recv\<close> asked for at most \<open>most\<close> bytes.\<close>

definition arrives ::
  "('b, 's, 'm) socket_api_scheme \<Rightarrow> ('s \<Rightarrow> string) \<Rightarrow> nat option \<Rightarrow> 's incoming \<Rightarrow> string \<Rightarrow> bool" where
  "arrives E unread most c packet \<longleftrightarrow>
     (\<exists>s s0 n s1 r. ic_socket c = Some s \<and> \<not> so_hasError E s \<and> so_hasActivity E s = (True, s0)
        \<and> so_recv E most s0 = (n, s1) \<and> n \<noteq> 0 \<and> unread s1 = packet @ r)"

lemma turn_of_state:
  assumes "arrives E unread most c packet" "ic_state c \<noteq> DONE"
  shows "processConnection E ch c ls = processState E ch c ls"
  using assms by (auto simp: arrives_def processConnection_def check_error_def)

section \<open>The turns\<close>

lemma request_turn:
  assumes io: "fifo_put E content s16" "fifo_get E unread s16" "length name < 65536" "length address < 65536"
    and c: "ic_state c = CHALLENGE_SENT" "ic_loginAttempts c = 0" "can_answer E c"
    and packet: "arrives E unread (Some 2048) c (content (pk_buffer (MapServerRegistrationRequest_new E name address port)))"
  shows "\<exists>c'. processConnection E ch c ls = Inr (c', ls) \<and> ic_state c' = MAP_LIST
    \<and> ic_mapServerFriendlyName c' = Some name \<and> ic_mapServerListenAddress c' = Some address
    \<and> ic_mapServerPort c' = Some port"
proof -
  obtain s s0 n s1 r where s: "ic_socket c = Some s" "so_hasActivity E s = (True, s0)" "so_recv E (Some 2048) s0 = (n, s1)"
      "n \<noteq> 0" "unread s1 = content (pk_buffer (MapServerRegistrationRequest_new E name address port)) @ r"
    using packet unfolding arrives_def by blast
  obtain s2 where "fst (so_getShort E s1) = server_opcode MAP_SERVER_REGISTRATION_REQUEST"
      and read: "read_registration E (snd (so_getShort E s1)) = (name, address, port, s2)"
    using registration_request_round_trip [OF io s(5)] by blast
  then have "so_getShort E s1 = (server_opcode MAP_SERVER_REGISTRATION_REQUEST, snd (so_getShort E s1))"
    by (simp add: prod_eq_iff)
  note turn = registration_needs_no_credentials [OF s(1) c(1,2) s(2-4) this read]
  have "0 < fst (reply E (MapServerRegistrationResponse_new E ''hello, world'') (so_clear E s2))"
    using c(3) s read by (simp add: can_answer_def Let_def)
  then show ?thesis
    using turn turn_of_state [OF packet, of ch ls] c(1) by (auto simp: processState_def)
qed

lemma acknowledgement_turn:
  assumes "ic_state c = MAP_WAIT_ACK" "ic_maps c = Some maps" "ic_mapServerFriendlyName c = Some name"
      "ic_mapServerPort c = Some port" "ic_mapServerListenAddress c = Some address"
    and "arrives E unread None c packet"
  shows "\<exists>c' s. processConnection E ch c ls
      = Inr (c', register_map_server (MapServerConnection_new address port (Some s) maps name) ls) \<and> ic_state c' = DONE"
  using assms turn_of_state [OF assms(6), of ch ls]
  by (auto simp: arrives_def processState_def processMapWaitAckSocket_def)

text \<open>What players are told about a map of a server that has just registered, when the map had none.\<close>

lemma selectAnswer_registered:
  assumes "ls_mapNameToConnection ls name = None" "offers server name" "ls_mapIDToName ls i = Some name"
  shows "selectAnswer E (register_map_server server ls) i
    = Inr (True, MapServerConnectionInstructions_new E (mc_friendlyName server) (mc_hostname server) (mc_port server))"
proof -
  have "ls_mapNameToConnection (register_map_server server ls) name
      = Some (vec_back_ptr (vec_emplace_back server (ls_mapServers ls)))"
    using assms(1,2) by (simp add: register_index)
  moreover have "ls_mapServers (register_map_server server ls) = vec_emplace_back server (ls_mapServers ls)"
      "ls_mapIDToName (register_map_server server ls) = ls_mapIDToName ls"
    by (simp_all add: register_map_server_def Let_def)
  ultimately show ?thesis
    using assms(3) by (simp add: selectAnswer_def um_find_def vec_deref_back)
qed

section \<open>Joining\<close>

text \<open>C16: A map server that follows the protocol joins: when the login server's turns on its connection read its
  request, then its offer, then anything at all, and the first could be answered, then the connection is done, and
  a player on any of the maps that were offered with the login server's own file and had no server, neither when
  they were offered nor at the end, is sent to the name, address and port of the request. What other connections
  and the sessions do between these turns does not matter. The login server's maps must have distinct names, the
  offered names no NUL, and the texts must fit their 16-bit lengths.\<close>

theorem map_server_joins:
  assumes "fifo_put E content s16" "fifo_get E unread s16" "length name < 65536" "length address < 65536"
    and "listFromMaps E maps = Inr hashes" "reads_back E (map_list_doc hashes)"
      "length (toJSON E (map_list_events hashes)) < 65536" "\<forall>p \<in> set maps. nul_free (gm_name p)"
    and request: "ic_state c0 = CHALLENGE_SENT" "ic_loginAttempts c0 = 0" "can_answer E c0"
      "arrives E unread (Some 2048) c0 (content (pk_buffer (MapServerRegistrationRequest_new E name address port)))"
      "processConnection E challenge c0 ls0 = Inr (c1, ls0')"
    and offer: "arrives E unread None c1 (content (pk_buffer (MapServerMapList_new E hashes)))"
      "processConnection E challenge c1 ls1 = Inr (c2, ls1')" "distinct (map lo_locationName (ls_allMaps ls1))"
    and ack: "arrives E unread None c2 packet" "processConnection E challenge c2 ls2 = Inr (c3, ls2')"
    and wanted: "m \<in> set (ls_allMaps ls1)" "p \<in> set maps" "gm_name p = lo_locationName m"
      "makeMD5Hash E (tm_filehash (gm_map p)) = Inr (lo_knownMD5Hash m)"
      "ls_mapNameToConnection ls1 (lo_locationName m) = None" "ls_mapNameToConnection ls2 (lo_locationName m) = None"
    and location: "ls_mapIDToName ls2 i = Some (lo_locationName m)"
  shows "ic_state c3 = DONE
    \<and> selectAnswer E ls2' i = Inr (True, MapServerConnectionInstructions_new E name address port)"
proof -
  have 1: "ic_state c1 = MAP_LIST" "ic_mapServerFriendlyName c1 = Some name" "ic_mapServerListenAddress c1 = Some address"
      "ic_mapServerPort c1 = Some port"
    using request_turn [OF assms(1-4) request(1-4), of challenge ls0] request(5) by auto
  obtain s s0 n s1 r where s: "ic_socket c1 = Some s" "so_hasActivity E s = (True, s0)" "so_recv E None s0 = (n, s1)"
      "n \<noteq> 0" "unread s1 = content (pk_buffer (MapServerMapList_new E hashes)) @ r"
    using offer(1) unfolding arrives_def by blast
  define wanted_maps where "wanted_maps = {m \<in> set (ls_allMaps ls1). ls_mapNameToConnection ls1 (lo_locationName m) = None
      \<and> (\<exists>p \<in> set maps. gm_name p = lo_locationName m \<and> makeMD5Hash E (tm_filehash (gm_map p)) = Inr (lo_knownMD5Hash m))}"
  have m: "m \<in> wanted_maps" using wanted unfolding wanted_maps_def by blast
  have "processConnection E challenge c1 ls1 = processMapListSocket E c1 ls1"
    using turn_of_state [OF offer(1)] 1(1) by (simp add: processState_def)
  moreover have wanted_maps: "wanted_maps \<noteq> {}" using m by blast
  obtain ms t0 where ms: "set ms = wanted_maps" "processMapListSocket E c1 ls1 = Inr (c1\<lparr>ic_socket :=
      Some (snd (reply E (MapServerMapList_new E ms) t0)), ic_maps := Some ms, ic_state := MAP_WAIT_ACK\<rparr>, ls1)"
    using offer_turn [OF assms(1,2,5-8) s offer(3) wanted_maps_def] unfolding if_not_P [OF wanted_maps] by blast
  ultimately have c2: "c2 = c1\<lparr>ic_socket := Some (snd (reply E (MapServerMapList_new E ms) t0)), ic_maps := Some ms,
      ic_state := MAP_WAIT_ACK\<rparr>"
    using offer(2) by simp
  obtain t where finished: "ic_state c3 = DONE" "ls2' = register_map_server (MapServerConnection_new address port (Some t) ms name) ls2"
    using acknowledgement_turn [OF _ _ _ _ _ ack(1), of ms name port address challenge ls2] ack(2) 1(2-4) by (auto simp: c2)
  have "offers (MapServerConnection_new address port (Some t) ms name) (lo_locationName m)"
    using m ms(1) by (auto simp: offers_def MapServerConnection_new_def)
  from selectAnswer_registered [OF wanted(6) this location] show ?thesis
    by (simp add: finished MapServerConnection_new_def)
qed

section \<open>The map server's side\<close>


text \<open>Where a reader of a frame stands afterwards.\<close>

abbreviation behind_frame :: "('b, 's, 'm) socket_api_scheme \<Rightarrow> 's \<Rightarrow> 's" where
  "behind_frame E s \<equiv> snd (snd (read_frame E s))"

lemma read_frame_eq:
  "read_frame E s = (fst (so_getShort E s),
     fst (so_getStringByLength E (fst (so_getShort E (snd (so_getShort E s)))) (snd (so_getShort E (snd (so_getShort E s))))),
     snd (so_getStringByLength E (fst (so_getShort E (snd (so_getShort E s)))) (snd (so_getShort E (snd (so_getShort E s))))))"
  by (simp add: read_frame_def case_prod_beta Let_def)

lemma awaitMapList_accepted:
  assumes "so_waitForActivity E (Some 3000) s = (True, s1)" "so_recv E None s1 = (n, s2)" "n \<noteq> 0"
    and "fst (read_frame E s2) = server_opcode MAP_SERVER_MAP_LIST"
      "fromJSON E map_list_decode (fst (snd (read_frame E s2))) = Inr maps"
  shows "awaitMapList E s = Inr (True, snd (so_send E (so_putShort E (server_opcode MAP_SERVER_ACK)
    (so_clear E (behind_frame E s2)))))"
  using assms by (simp add: awaitMapList_def read_frame_eq case_prod_beta Let_def opcodes_injective)

lemma requestRegistration_accepted:
  assumes "so_waitForActivity E (Some 3000) (snd (reply E (MapServerRegistrationRequest_new E (sd_friendlyName details)
        (sd_hostName details) (sd_port details)) s)) = (True, s1)"
    and "so_recv E None s1 = (n, s2)" "0 < n" "fst (so_getShort E s2) = server_opcode MAP_SERVER_REGISTRATION_RESPONSE"
    and "listFromMaps E maps = Inr hashes"
  shows "requestRegistration E details maps s
    = awaitMapList E (snd (reply E (MapServerMapList_new E hashes) (snd (so_getShort E s2))))"
  using assms by (simp add: requestRegistration_def case_prod_beta Let_def)

lemma registerWithMasterServer_accepted:
  assumes "\<not> so_hasError E (so_connect E (ms_masterServerConnection ms))"
    and "so_recv E None (snd (so_waitForActivity E (Some 5000) (so_connect E (ms_masterServerConnection ms)))) = (n, s)"
      "n \<noteq> 0" "fst (read_frame E s) = server_opcode LOGIN_AUTHENTICATION_CHALLENGE"
      "fromJSON E challenge_decode (fst (snd (read_frame E s))) = Inr challenge"
    and "ms_masterServerCrypto ms = Some crypto" "ac_pubKey challenge = rc_publicKey crypto" "versionMatches E challenge"
  shows "registerWithMasterServer E ms = requestRegistration E (ms_details ms) (ms_maps ms) (behind_frame E s)"
  using assms by (simp add: registerWithMasterServer_def read_frame_eq case_prod_beta Let_def)

text \<open>C17: A registration completes on the map server's side: when the next three things that its socket reads are the
  challenge of a login server of the same build whose public key it has loaded, the answer to its request, and
  a list of maps, then it succeeds, having sent the acknowledgement, and has read
  exactly those packets: of what the last read brought, what is behind the list of maps is left.\<close>

theorem registration_completes:
  assumes io: "fifo_put E content s16" "fifo_get E unread s16"
    and keys: "incomingChallenge E ls = Inr challenge" "ls_crypto ls = Some key" "ms_masterServerCrypto ms = Some crypto"
      "rc_publicKey crypto = rc_publicKey key" "nul_free (rc_publicKey key)"
    and texts: "sent = \<lparr>ac_version = Version_versionString E, ac_versionHash = Version_gitHash E,
        ac_name = sd_friendlyName (ls_details ls), ac_pubKey = rc_publicKey key\<rparr>"
      "reads_back E (challenge_doc sent)" "length (toJSON E (challenge_events sent)) < 65536"
      "reads_back E (map_list_doc wanted)" "length (toJSON E (map_list_events wanted)) < 65536"
    and connected: "\<not> so_hasError E (so_connect E (ms_masterServerConnection ms))"
      "so_recv E None (snd (so_waitForActivity E (Some 5000) (so_connect E (ms_masterServerConnection ms)))) = (n1, s1)"
      "n1 \<noteq> 0" "unread s1 = content (pk_buffer challenge) @ r1"
    and request: "so_waitForActivity E (Some 3000) (snd (reply E (MapServerRegistrationRequest_new E
          (sd_friendlyName (ms_details ms)) (sd_hostName (ms_details ms)) (sd_port (ms_details ms))) (behind_frame E s1)))
        = (True, t2)"
      "so_recv E None t2 = (n2, s2)" "0 < n2"
      "unread s2 = content (pk_buffer (MapServerRegistrationResponse_new E ''hello, world'')) @ r2"
    and offer: "listFromMaps E (ms_maps ms) = Inr hashes"
      "so_waitForActivity E (Some 3000) (snd (reply E (MapServerMapList_new E hashes) (snd (so_getShort E s2)))) = (True, t3)"
      "so_recv E None t3 = (n3, s3)" "n3 \<noteq> 0" "unread s3 = content (pk_buffer (MapServerMapList_new E wanted)) @ r3"
  shows "registerWithMasterServer E ms = Inr (True, snd (so_send E (so_putShort E (server_opcode MAP_SERVER_ACK)
      (so_clear E (behind_frame E s3))))) \<and> unread (behind_frame E s3) = r3"
proof -
  have challenge: "challenge = AuthenticationChallenge_new E sent"
    using keys(1,2) texts(1) by (simp add: incomingChallenge_def)
  have 1: "fst (read_frame E s1) = server_opcode LOGIN_AUTHENTICATION_CHALLENGE"
      "fromJSON E challenge_decode (fst (snd (read_frame E s1))) = Inr (challenge_view sent)"
    using challenge.frame_round_trip [OF io texts(2,3)] connected(4)
    by (simp_all add: challenge AuthenticationChallenge_new_def ServerPacket_new_def)
  have 2: "fst (so_getShort E s2) = server_opcode MAP_SERVER_REGISTRATION_RESPONSE"
    using getShort_next [OF io(2), of s2] request(4)
    by (simp add: MapServerRegistrationResponse_new_def ServerPacket_new_def content_pkSized [OF io(1)] content_Packet_new [OF io(1)])
  have 3: "fst (read_frame E s3) = server_opcode MAP_SERVER_MAP_LIST"
      "fromJSON E map_list_decode (fst (snd (read_frame E s3))) = Inr (map_list_view wanted)" "unread (behind_frame E s3) = r3"
    using map_list.frame_round_trip [OF io texts(4,5)] offer(5)
    by (simp_all add: MapServerMapList_new_def ServerPacket_new_def)
  have same: "ac_pubKey (challenge_view sent) = rc_publicKey crypto" "versionMatches E (challenge_view sent)"
    using keys(4,5) by (simp_all add: texts(1) challenge_view_def versionMatches_def)
  have "registerWithMasterServer E ms
      = awaitMapList E (snd (reply E (MapServerMapList_new E hashes) (snd (so_getShort E s2))))"
    using registerWithMasterServer_accepted [OF connected(1-3) 1 keys(3) same]
      requestRegistration_accepted [OF request(1-3) 2 offer(1)] by simp
  then show ?thesis using awaitMapList_accepted [OF offer(2-4) 3(1,2)] 3(3) by simp
qed

section \<open>Witnesses\<close>

lemma map_server_joins_witness:
  "\<exists>c3 ls'. processConnection sample_platform (rn_challenge sample_booted) c3 (rn_server sample_booted) = Inr (sample_conn None DONE (Some []), ls')
     \<and> selectAnswer sample_platform ls' 1 = Inr (True, MapServerConnectionInstructions_new sample_platform ''map'' ''host'' 10420)"
proof -
  let ?E = sample_platform and ?ls = "rn_server sample_booted" and ?ch = "rn_challenge sample_booted"
  let ?c0 = "sample_challenged [sample_m1, sample_m2, sample_m3] []"
  obtain s2 where one: "processConnection ?E ?ch ?c0 ?ls
      = Inr (sample_conn (Some (sample_sock [sample_m2, sample_m3] s2)) MAP_LIST None, ?ls)"
    using sample_turn_registration by blast
  let ?c1 = "sample_conn (Some (sample_sock [sample_m2, sample_m3] s2)) MAP_LIST None"
  obtain s3 where two: "processConnection ?E ?ch ?c1 ?ls
      = Inr (sample_conn (Some (sample_sock [sample_m3] s3)) MAP_WAIT_ACK (Some [sample_location]), ?ls)"
    using sample_turn_list [OF sample_booted_server(1,2)] by blast
  let ?c2 = "sample_conn (Some (sample_sock [sample_m3] s3)) MAP_WAIT_ACK (Some [sample_location])"
  obtain s where three: "processConnection ?E ?ch ?c2 ?ls
      = Inr (sample_conn None DONE (Some []), register_map_server (sample_registered s) ?ls)"
    using sample_turn_ack by blast
  have arrives: "arrives ?E sk_buf most c p"
    if "ic_socket c = Some (sample_sock (p # ps) t)" "p \<noteq> []" "\<forall>n. most = Some n \<longrightarrow> length p \<le> n" for most c p ps t
    using that by (cases most) (auto simp: arrives_def sample_sock_def sample_recv_def)
  have m: "\<exists>x xs. sample_m1 = x # xs" "length sample_m1 \<le> 2048" "\<exists>x xs. sample_m2 = x # xs" "\<exists>x xs. sample_m3 = x # xs"
    by (simp_all add: sample_m1_def sample_m2_def sample_m3_def MapServerRegistrationRequest_new_def MapServerMapList_new_def
        pkSized_def pkString_def pkShort_def ServerPacket_new_def Packet_new_def sample_s16_def)
  have offer: "pk_buffer (MapServerMapList_new ?E sample_hashes) = sample_m2"
    by (simp only: sample_m2_def MapServerMapList_new_def sample_hashes_events)
  have c0: "ic_socket ?c0 = Some (sample_sock [sample_m1, sample_m2, sample_m3] [])" "ic_state ?c0 = CHALLENGE_SENT"
      "ic_loginAttempts ?c0 = 0"
    by (simp_all add: sample_challenged_def IncomingConnection_new_def)
  have in0: "arrives ?E sk_buf (Some 2048) ?c0 (pk_buffer (MapServerRegistrationRequest_new ?E ''map'' ''host'' 10420))"
    using arrives [OF c0(1)] m(1,2) by (auto simp: sample_m1_def)
  have in1: "arrives ?E sk_buf None ?c1 (pk_buffer (MapServerMapList_new ?E sample_hashes))"
    unfolding offer using m(3) by (intro arrives [of _ _ "[sample_m3]" s2]) (auto simp: sample_conn_def)
  have in2: "arrives ?E sk_buf None ?c2 sample_m3"
    using m(4) by (intro arrives [of _ _ "[]" s3]) (auto simp: sample_conn_def)
  have answer: "can_answer ?E ?c0"
    by (rule sample_open_can_answer) (simp add: c0(1), simp add: sample_sock_def)
  have len: "length (toJSON ?E (map_list_events sample_hashes)) < 65536"
    using sample_offered_text by (simp add: sample_hashes_events)
  have map: "gm_name (Map_new (0, 0) sample_tmx) = lo_locationName sample_location"
      "makeMD5Hash ?E (tm_filehash (gm_map (Map_new (0, 0) sample_tmx))) = Inr (lo_knownMD5Hash sample_location)"
    by (simp_all add: sample_name sample_location_def makeMD5Hash_eq sample_hash_def) (simp_all add: sample_tmx_def)
  have ids: "ls_mapIDToName ?ls 1 = Some (lo_locationName sample_location)"
    using initDB_frame [of ?E sample_server] by (auto simp: sample_booted_def sample_server_def sample_location_def)
  have "ic_state (sample_conn None DONE (Some [])) = DONE \<and> selectAnswer ?E (register_map_server (sample_registered s) ?ls) 1
      = Inr (True, MapServerConnectionInstructions_new ?E ''map'' ''host'' 10420)"
    by (rule map_server_joins [OF sample_fifo_put sample_fifo_get _ _ sample_listFromMaps sample_docs(5) len _ c0(2,3) answer in0
          one in1 two _ in2 three _ _ map _ _ ids])
      (simp_all add: sample_booted_server sample_name del: sample_simps)
  then show ?thesis using three by blast
qed


lemma sample_passes_on:
  "sk_peer (behind_frame sample_platform s) = sk_peer s" "sk_open (behind_frame sample_platform s) = sk_open s"
  "sk_peer (snd (so_getShort sample_platform s)) = sk_peer s" "sk_open (snd (so_getShort sample_platform s)) = sk_open s"
  by (simp_all add: read_frame_eq sample_getString_def)

lemma sample_replied:
  assumes "sk_open s"
  shows "sk_peer (snd (reply sample_platform p s)) = sk_peer s" "sk_open (snd (reply sample_platform p s))"
    "sk_buf (snd (reply sample_platform p s)) = []"
  using assms by (simp_all add: sample_reply)

lemma sample_next:
  assumes "sk_peer s = p # ps" "p \<noteq> []"
  shows "\<exists>t n u. so_waitForActivity sample_platform most s = (True, t) \<and> so_recv sample_platform None t = (n, u) \<and> 0 < n \<and> n \<noteq> 0
    \<and> sk_buf u = sk_buf s @ p \<and> sk_peer u = ps \<and> sk_open u = sk_open s"
  using assms by (simp add: sample_recv_def)

lemma registration_completes_witness:
  "\<exists>s. registerWithMasterServer sample_platform sample_map_server
    = Inr (True, snd (so_send sample_platform (so_putShort sample_platform (server_opcode MAP_SERVER_ACK) s)))"
proof -
  let ?E = sample_platform and ?ms = sample_map_server
  let ?ch = "AuthenticationChallenge_new ?E \<lparr>ac_version = Version_versionString ?E, ac_versionHash = Version_gitHash ?E,
      ac_name = sd_friendlyName (ls_details sample_server), ac_pubKey = rc_publicKey sample_keys\<rparr>"
  have ch: "incomingChallenge ?E sample_server = Inr ?ch" "ls_crypto sample_server = Some sample_keys"
    by (simp_all add: incomingChallenge_def sample_server_def)
  have start: "so_connect ?E (ms_masterServerConnection ?ms) = ms_masterServerConnection ?ms"
      "sk_peer (ms_masterServerConnection ?ms) = pk_buffer ?ch # tl sample_answers"
      "sk_open (ms_masterServerConnection ?ms)" "sk_buf (ms_masterServerConnection ?ms) = []" "\<not> so_hasError ?E (ms_masterServerConnection ?ms)"
    by (simp_all add: sample_map_server_def sample_sock_def sample_answers_def sample_server_def sample_details_def
        ServerDetails_new_def sample_keys_def)
  have tl: "tl sample_answers = [pk_buffer (MapServerRegistrationResponse_new ?E ''hello, world''), sample_m2]"
    by (simp add: sample_answers_def)
  have ne: "pk_buffer ?ch \<noteq> []" "pk_buffer (MapServerRegistrationResponse_new ?E ''hello, world'') \<noteq> []" "sample_m2 \<noteq> []"
    by (simp_all add: sample_m2_def AuthenticationChallenge_new_def MapServerRegistrationResponse_new_def MapServerMapList_new_def
        pkSized_def pkString_def pkShort_def ServerPacket_new_def Packet_new_def sample_s16_def)
  obtain t1 n1 s1 where 1: "so_waitForActivity ?E (Some 5000) (ms_masterServerConnection ?ms) = (True, t1)"
      "so_recv ?E None t1 = (n1, s1)" "n1 \<noteq> 0" "sk_buf s1 = pk_buffer ?ch" "sk_peer s1 = tl sample_answers" "sk_open s1"
    using sample_next [OF start(2) ne(1), of "Some 5000"] start(3,4) by auto
  define a where "a = snd (reply ?E (MapServerRegistrationRequest_new ?E (sd_friendlyName (ms_details ?ms))
      (sd_hostName (ms_details ?ms)) (sd_port (ms_details ?ms))) (behind_frame ?E s1))"
  have a: "sk_peer a = [pk_buffer (MapServerRegistrationResponse_new ?E ''hello, world''), sample_m2]" "sk_open a" "sk_buf a = []"
    using 1(5,6) by (simp_all only: a_def sample_replied sample_passes_on tl)
  obtain t2 n2 s2 where 2: "so_waitForActivity ?E (Some 3000) a = (True, t2)" "so_recv ?E None t2 = (n2, s2)" "0 < n2"
      "sk_buf s2 = pk_buffer (MapServerRegistrationResponse_new ?E ''hello, world'')" "sk_peer s2 = [sample_m2]" "sk_open s2"
    using sample_next [OF a(1) ne(2), of "Some 3000"] a(2,3) by auto
  define b where "b = snd (reply ?E (MapServerMapList_new ?E sample_hashes) (snd (so_getShort ?E s2)))"
  have b: "sk_peer b = [sample_m2]" "sk_open b" "sk_buf b = []"
    using 2(5,6) by (simp_all only: b_def sample_replied sample_passes_on)
  obtain t3 n3 s3 where 3: "so_waitForActivity ?E (Some 3000) b = (True, t3)" "so_recv ?E None t3 = (n3, s3)" "n3 \<noteq> 0"
      "sk_buf s3 = pk_buffer (MapServerMapList_new ?E [sample_location])"
    using sample_next [OF b(1) ne(3), of "Some 3000"] b(2,3) by (auto simp: sample_m2_def)
  have keys: "ms_masterServerCrypto ?ms = Some sample_keys" "nul_free (rc_publicKey sample_keys)"
      "listFromMaps ?E (ms_maps ?ms) = Inr sample_hashes"
    by (simp_all add: sample_map_server_def sample_keys_def sample_listFromMaps nul_free_def del: sample_simps)
  have len: "length (toJSON ?E (challenge_events \<lparr>ac_version = Version_versionString ?E, ac_versionHash = Version_gitHash ?E,
      ac_name = sd_friendlyName (ls_details sample_server), ac_pubKey = rc_publicKey sample_keys\<rparr>)) < 65536"
    using sample_challenge(2) [OF refl] by (simp add: sample_server_def sample_details_def ServerDetails_new_def sample_keys_def)
  have "registerWithMasterServer ?E ?ms = Inr (True, snd (so_send ?E (so_putShort ?E (server_opcode MAP_SERVER_ACK)
      (so_clear ?E (behind_frame ?E s3))))) \<and> sk_buf (behind_frame ?E s3) = []"
    by (rule registration_completes [OF sample_fifo_put sample_fifo_get ch keys(1) refl keys(2) refl sample_docs(1) len sample_docs(5)
          sample_offered_text _ _ _ _ 2(1) [unfolded a_def] 2(2,3) _ keys(3) 3(1) [unfolded b_def] 3(2)])
      (use start 1 2 3 in \<open>simp_all del: sample_simps\<close>)
  then show ?thesis by blast
qed

end
