(* ===== verification/KeyOwnership.thy ===== *)
theory KeyOwnership imports Crypto "HOL-Library.Multiset" begin

text \<open>
  Who frees OpenSSL's objects: the smart pointers of net/crypto/CryptoCommon, and how the constructors of
  \<open>RSACrypto\<close>, its defaulted moves and its destructor pass the objects on. The texts of the keys are the subject
  of Crypto; here only the objects count.
\<close>

section \<open>OpenSSL's objects\<close>

datatype ssl_object = BIO nat | RSA nat

datatype deleter = BIO_free_all | RSA_free

fun frees :: "deleter \<Rightarrow> ssl_object \<Rightarrow> bool" where
  "frees BIO_free_all (BIO _) = True"
| "frees RSA_free (RSA _) = True"
| "frees _ _ = False"

text \<open>
  The calls that \<open>RSACrypto\<close> makes, over OpenSSL's own state, with the objects that are allocated in it. A call
  that allocates gives null where it fails; a key is read into a pointer that the call may set.
\<close>

record 'h openssl =
  oh_live :: "'h \<Rightarrow> ssl_object set"
  oh_BIO_new_mem_buf :: "string \<Rightarrow> 'h \<Rightarrow> ssl_object option \<times> 'h"
  oh_BIO_new :: "'h \<Rightarrow> ssl_object option \<times> 'h"
  oh_RSA_new :: "'h \<Rightarrow> ssl_object option \<times> 'h"
  oh_RSA_generate_key :: "nat \<Rightarrow> nat \<Rightarrow> 'h \<Rightarrow> ssl_object option \<times> 'h"
  oh_PEM_read_public :: "ssl_object option \<Rightarrow> 'h \<Rightarrow> ssl_object option \<times> 'h"
  oh_PEM_read_private_into :: "ssl_object option \<Rightarrow> ssl_object option \<Rightarrow> 'h \<Rightarrow> ssl_object option \<times> 'h"
  oh_PEM_read_public_into :: "ssl_object option \<Rightarrow> ssl_object option \<Rightarrow> 'h \<Rightarrow> ssl_object option \<times> 'h"
  oh_PEM_write_private :: "ssl_object option \<Rightarrow> ssl_object \<Rightarrow> 'h \<Rightarrow> 'h"
  oh_PEM_write_public :: "ssl_object option \<Rightarrow> ssl_object \<Rightarrow> 'h \<Rightarrow> 'h"
  oh_BIO_read :: "ssl_object option \<Rightarrow> 'h \<Rightarrow> 'h"
  oh_free :: "deleter \<Rightarrow> ssl_object \<Rightarrow> 'h \<Rightarrow> 'h"

text \<open>Freeing what is not allocated, or not of the deleter's kind, is a use of freed memory.\<close>

definition delete_object :: "('h, 'm) openssl_scheme \<Rightarrow> deleter \<Rightarrow> ssl_object \<Rightarrow> 'h \<Rightarrow> 'h res" where
  "delete_object L d x h = (if x \<in> oh_live L h \<and> frees d x then Inr (oh_free L d x h) else Inl DanglingPointer)"

section \<open>Smart pointers\<close>

text \<open>A \<open>unique_ptr\<close> with a function pointer as its deleter.\<close>

record unique_ptr =
  up_get :: "ssl_object option"
  up_deleter :: deleter

definition make_bio_ptr :: "ssl_object option \<Rightarrow> unique_ptr" where
  "make_bio_ptr bio = \<lparr>up_get = bio, up_deleter = BIO_free_all\<rparr>"

definition make_rsa_ptr :: "ssl_object option \<Rightarrow> unique_ptr" where
  "make_rsa_ptr rsa = \<lparr>up_get = rsa, up_deleter = RSA_free\<rparr>"

definition destroy_ptr :: "('h, 'm) openssl_scheme \<Rightarrow> unique_ptr \<Rightarrow> 'h \<Rightarrow> 'h res" where
  "destroy_ptr L p h = (case up_get p of None \<Rightarrow> Inr h | Some x \<Rightarrow> delete_object L (up_deleter p) x h)"

text \<open>\<open>p = std::move(q)\<close> for two different pointers: both as they are afterwards.\<close>

definition assign_ptr ::
  "('h, 'm) openssl_scheme \<Rightarrow> unique_ptr \<Rightarrow> unique_ptr \<Rightarrow> 'h \<Rightarrow> (unique_ptr \<times> unique_ptr \<times> 'h) res" where
  "assign_ptr L p q h = andThen (destroy_ptr L p h) (\<lambda>h'. Inr (q, q\<lparr>up_get := None\<rparr>, h'))"

text \<open>The same from a temporary, which is destroyed behind it.\<close>

definition assign_temporary ::
  "('h, 'm) openssl_scheme \<Rightarrow> unique_ptr \<Rightarrow> unique_ptr \<Rightarrow> 'h \<Rightarrow> (unique_ptr \<times> 'h) res" where
  "assign_temporary L p q h =
     andThen (assign_ptr L p q h) (\<lambda>(p', q', h1). andThen (destroy_ptr L q' h1) (\<lambda>h2. Inr (p', h2)))"

section \<open>RSACrypto\<close>

record rsa_members =
  rm_keyPair :: unique_ptr
  rm_pubKeyBIO :: unique_ptr
  rm_priKeyBIO :: unique_ptr

text \<open>The three constructors; \<open>RSA_check_key\<close> and the writing of a key dereference it.\<close>

definition own_public :: "('h, 'm) openssl_scheme \<Rightarrow> string \<Rightarrow> 'h \<Rightarrow> (rsa_members \<times> 'h) res" where
  "own_public L publicKey h =
     (let keyPair = make_rsa_ptr None;
          (bio, h1) = oh_BIO_new_mem_buf L (c_str publicKey) h; pubKeyBIO = make_bio_ptr bio;
          priKeyBIO = make_bio_ptr None;
          (rsa, h2) = oh_PEM_read_public L (up_get pubKeyBIO) h1 in
      andThen (assign_temporary L keyPair (make_rsa_ptr rsa) h2) (\<lambda>(keyPair, h3).
      Inr (\<lparr>rm_keyPair = keyPair, rm_pubKeyBIO = pubKeyBIO, rm_priKeyBIO = priKeyBIO\<rparr>, h3)))"

definition own_pair :: "('h, 'm) openssl_scheme \<Rightarrow> string \<Rightarrow> string \<Rightarrow> 'h \<Rightarrow> (rsa_members \<times> 'h) res" where
  "own_pair L publicKey privateKey h =
     (let keyPair = make_rsa_ptr None;
          (pub, h1) = oh_BIO_new_mem_buf L publicKey h; pubKeyBIO = make_bio_ptr pub;
          (pri, h2) = oh_BIO_new_mem_buf L privateKey h1; priKeyBIO = make_bio_ptr pri;
          (rsa, h3) = oh_RSA_new L h2;
          (rsa, h4) = oh_PEM_read_private_into L (up_get priKeyBIO) rsa h3;
          (rsa, h5) = oh_PEM_read_public_into L (up_get pubKeyBIO) rsa h4 in
      andThen (deref NullDeref rsa) (\<lambda>_.
      andThen (assign_temporary L keyPair (make_rsa_ptr rsa) h5) (\<lambda>(keyPair, h6).
      Inr (\<lparr>rm_keyPair = keyPair, rm_pubKeyBIO = pubKeyBIO, rm_priKeyBIO = priKeyBIO\<rparr>, h6))))"

definition own_generate :: "('h, 'm) openssl_scheme \<Rightarrow> 'h \<Rightarrow> (rsa_members \<times> 'h) res" where
  "own_generate L h =
     (let keyPair = make_rsa_ptr None;
          (pub, h1) = oh_BIO_new L h; pubKeyBIO = make_bio_ptr pub;
          (pri, h2) = oh_BIO_new L h1; priKeyBIO = make_bio_ptr pri;
          (rsa, h3) = oh_RSA_generate_key L KEY_LENGTH KEY_EXPONENT h2 in
      andThen (assign_temporary L keyPair (make_rsa_ptr rsa) h3) (\<lambda>(keyPair, h4).
      andThen (deref NullDeref (up_get keyPair)) (\<lambda>key.
      let h5 = oh_PEM_write_private L (up_get priKeyBIO) key h4;
          h6 = oh_PEM_write_public L (up_get pubKeyBIO) key h5;
          h7 = oh_BIO_read L (up_get pubKeyBIO) (oh_BIO_read L (up_get priKeyBIO) h6) in
      Inr (\<lparr>rm_keyPair = keyPair, rm_pubKeyBIO = pubKeyBIO, rm_priKeyBIO = priKeyBIO\<rparr>, h7))))"

text \<open>The destructor: the members in reverse order.\<close>

definition destroy_members :: "('h, 'm) openssl_scheme \<Rightarrow> rsa_members \<Rightarrow> 'h \<Rightarrow> 'h res" where
  "destroy_members L m h =
     andThen (destroy_ptr L (rm_priKeyBIO m) h) (\<lambda>h1.
     andThen (destroy_ptr L (rm_pubKeyBIO m) h1) (\<lambda>h2.
     destroy_ptr L (rm_keyPair m) h2))"

text \<open>The moves, member by member: the object that was moved from owns nothing afterwards.\<close>

definition moved_from :: "rsa_members \<Rightarrow> rsa_members" where
  "moved_from m =
     \<lparr>rm_keyPair = (rm_keyPair m)\<lparr>up_get := None\<rparr>, rm_pubKeyBIO = (rm_pubKeyBIO m)\<lparr>up_get := None\<rparr>,
      rm_priKeyBIO = (rm_priKeyBIO m)\<lparr>up_get := None\<rparr>\<rparr>"

definition move_construct :: "rsa_members \<Rightarrow> rsa_members \<times> rsa_members" where
  "move_construct other = (other, moved_from other)"

definition move_assign ::
  "('h, 'm) openssl_scheme \<Rightarrow> rsa_members \<Rightarrow> rsa_members \<Rightarrow> 'h \<Rightarrow> (rsa_members \<times> rsa_members \<times> 'h) res" where
  "move_assign L m other h =
     andThen (assign_ptr L (rm_keyPair m) (rm_keyPair other) h) (\<lambda>(key, key', h1).
     andThen (assign_ptr L (rm_pubKeyBIO m) (rm_pubKeyBIO other) h1) (\<lambda>(pub, pub', h2).
     andThen (assign_ptr L (rm_priKeyBIO m) (rm_priKeyBIO other) h2) (\<lambda>(pri, pri', h3).
     Inr (\<lparr>rm_keyPair = key, rm_pubKeyBIO = pub, rm_priKeyBIO = pri\<rparr>,
          \<lparr>rm_keyPair = key', rm_pubKeyBIO = pub', rm_priKeyBIO = pri'\<rparr>, h3))))"

section \<open>Programs that use keys\<close>

text \<open>
  What a program does with pointers to \<open>RSACrypto\<close> objects: \<open>crypto = std::make_unique<RSACrypto>(...)\<close>, which
  makes the new object before it deletes the old one, moving from one object to a new or an existing one, and
  resetting a pointer. An existing object that is moved to itself keeps what it owns.
\<close>

datatype key_op =
    MakePublic nat string
  | MakePair nat string string
  | MakeGenerated nat
  | MoveNew nat nat
  | MoveInto nat nat
  | Reset nat

definition delete_key :: "('h, 'm) openssl_scheme \<Rightarrow> rsa_members option \<Rightarrow> 'h \<Rightarrow> 'h res" where
  "delete_key L k h = (case k of None \<Rightarrow> Inr h | Some m \<Rightarrow> destroy_members L m h)"

definition put_key ::
  "('h, 'm) openssl_scheme \<Rightarrow> nat \<Rightarrow> rsa_members option \<Rightarrow> rsa_members option list \<Rightarrow> 'h
     \<Rightarrow> (rsa_members option list \<times> 'h) res" where
  "put_key L i k ks h = andThen (delete_key L (ks ! i) h) (\<lambda>h'. Inr (ks[i := k], h'))"

fun key_step ::
  "('h, 'm) openssl_scheme \<Rightarrow> key_op \<Rightarrow> rsa_members option list \<times> 'h \<Rightarrow> (rsa_members option list \<times> 'h) res" where
  "key_step L (MakePublic i pub) (ks, h) = andThen (own_public L pub h) (\<lambda>(m, h1). put_key L i (Some m) ks h1)"
| "key_step L (MakePair i pub pri) (ks, h) = andThen (own_pair L pub pri h) (\<lambda>(m, h1). put_key L i (Some m) ks h1)"
| "key_step L (MakeGenerated i) (ks, h) = andThen (own_generate L h) (\<lambda>(m, h1). put_key L i (Some m) ks h1)"
| "key_step L (MoveNew i j) (ks, h) =
     andThen (deref NullDeref (ks ! j)) (\<lambda>other.
     let (m, other') = move_construct other in put_key L i (Some m) (ks[j := Some other']) h)"
| "key_step L (MoveInto i j) (ks, h) =
     andThen (deref NullDeref (ks ! i)) (\<lambda>m. andThen (deref NullDeref (ks ! j)) (\<lambda>other.
     if i = j then Inr (ks, h)
     else andThen (move_assign L m other h) (\<lambda>(m', other', h'). Inr (ks[i := Some m', j := Some other'], h'))))"
| "key_step L (Reset i) (ks, h) = put_key L i None ks h"

primrec op_slots :: "key_op \<Rightarrow> nat set" where
  "op_slots (MakePublic i pub) = {i}"
| "op_slots (MakePair i pub pri) = {i}"
| "op_slots (MakeGenerated i) = {i}"
| "op_slots (MoveNew i j) = {i, j}"
| "op_slots (MoveInto i j) = {i, j}"
| "op_slots (Reset i) = {i}"

section \<open>What OpenSSL promises\<close>

text \<open>
  A call that allocates gives a new object of its kind, or null and changes nothing; a call that reads a key into
  a pointer leaves in it what is to be freed in the place of what was in it; the others free nothing.
\<close>

definition hands_out :: "('h, 'm) openssl_scheme \<Rightarrow> deleter \<Rightarrow> ('h \<Rightarrow> ssl_object option \<times> 'h) \<Rightarrow> bool" where
  "hands_out L d call \<longleftrightarrow>
     (\<forall>h p h'. finite (oh_live L h) \<longrightarrow> call h = (p, h') \<longrightarrow>
        (\<forall>x \<in> set_option p. x \<notin> oh_live L h \<and> frees d x) \<and> oh_live L h' = oh_live L h \<union> set_option p)"

definition fills :: "('h, 'm) openssl_scheme \<Rightarrow> (ssl_object option \<Rightarrow> 'h \<Rightarrow> ssl_object option \<times> 'h) \<Rightarrow> bool" where
  "fills L call \<longleftrightarrow>
     (\<forall>p h p' h'. finite (oh_live L h) \<longrightarrow> set_option p \<subseteq> oh_live L h \<longrightarrow> call p h = (p', h') \<longrightarrow>
        (\<forall>x \<in> set_option p'. x \<notin> oh_live L h - set_option p \<and> frees RSA_free x)
        \<and> oh_live L h' = oh_live L h - set_option p \<union> set_option p')"

definition openssl_contract :: "('h, 'm) openssl_scheme \<Rightarrow> bool" where
  "openssl_contract L \<longleftrightarrow>
     (\<forall>text. hands_out L BIO_free_all (oh_BIO_new_mem_buf L text)) \<and> hands_out L BIO_free_all (oh_BIO_new L)
     \<and> hands_out L RSA_free (oh_RSA_new L) \<and> (\<forall>bits e. hands_out L RSA_free (oh_RSA_generate_key L bits e))
     \<and> (\<forall>bio. hands_out L RSA_free (oh_PEM_read_public L bio))
     \<and> (\<forall>bio. fills L (oh_PEM_read_private_into L bio)) \<and> (\<forall>bio. fills L (oh_PEM_read_public_into L bio))
     \<and> (\<forall>bio key h. oh_live L (oh_PEM_write_private L bio key h) = oh_live L h)
     \<and> (\<forall>bio key h. oh_live L (oh_PEM_write_public L bio key h) = oh_live L h)
     \<and> (\<forall>bio h. oh_live L (oh_BIO_read L bio h) = oh_live L h)
     \<and> (\<forall>d x h. x \<in> oh_live L h \<longrightarrow> frees d x \<longrightarrow> oh_live L (oh_free L d x h) = oh_live L h - {x})"

section \<open>Ownership\<close>

text \<open>What a pointer, an object and a program's pointers own, each object as often as it is owned.\<close>

definition opt_mset :: "'a option \<Rightarrow> 'a multiset" where
  "opt_mset p = (case p of None \<Rightarrow> {#} | Some x \<Rightarrow> {#x#})"

abbreviation ptr_owns :: "unique_ptr \<Rightarrow> ssl_object multiset" where
  "ptr_owns p \<equiv> opt_mset (up_get p)"

definition members_own :: "rsa_members \<Rightarrow> ssl_object multiset" where
  "members_own m = ptr_owns (rm_keyPair m) + ptr_owns (rm_pubKeyBIO m) + ptr_owns (rm_priKeyBIO m)"

definition key_owns :: "rsa_members option \<Rightarrow> ssl_object multiset" where
  "key_owns k = (case k of None \<Rightarrow> {#} | Some m \<Rightarrow> members_own m)"

definition keys_own :: "rsa_members option list \<Rightarrow> ssl_object multiset" where
  "keys_own ks = sum_list (map key_owns ks)"

text \<open>Every pointer's deleter fits its object.\<close>

definition ptr_ok :: "unique_ptr \<Rightarrow> bool" where
  "ptr_ok p = (case up_get p of None \<Rightarrow> True | Some x \<Rightarrow> frees (up_deleter p) x)"

definition members_ok :: "rsa_members \<Rightarrow> bool" where
  "members_ok m \<longleftrightarrow> ptr_ok (rm_keyPair m) \<and> ptr_ok (rm_pubKeyBIO m) \<and> ptr_ok (rm_priKeyBIO m)"

text \<open>The allocated objects are \<open>M\<close>, none of them twice.\<close>

definition holds :: "('h, 'm) openssl_scheme \<Rightarrow> 'h \<Rightarrow> ssl_object multiset \<Rightarrow> bool" where
  "holds L h M \<longleftrightarrow> finite (oh_live L h) \<and> mset_set (oh_live L h) = M"

lemma opt_mset_simps [simp]: "opt_mset None = {#}" "opt_mset (Some x) = {#x#}"
  by (simp_all add: opt_mset_def)

lemma ptr_simps [simp]:
  "up_get (make_bio_ptr p) = p" "up_get (make_rsa_ptr p) = p"
  "ptr_ok (make_bio_ptr p) = (\<forall>x \<in> set_option p. frees BIO_free_all x)"
  "ptr_ok (make_rsa_ptr p) = (\<forall>x \<in> set_option p. frees RSA_free x)"
  "ptr_ok (q\<lparr>up_get := None\<rparr>)"
  by (auto simp: make_bio_ptr_def make_rsa_ptr_def ptr_ok_def split: option.split)

lemma holds_subset: "holds L h (M + opt_mset p) \<Longrightarrow> set_option p \<subseteq> oh_live L h"
  by (cases p) (auto simp: holds_def mset_set_eq_iff dest: arg_cong [of _ _ set_mset])

lemma holds_without:
  assumes "holds L h (M + opt_mset p)" "oh_live L h' = oh_live L h - set_option p"
  shows "holds L h' M"
proof -
  have "set_option p \<subseteq> oh_live L h" using holds_subset [OF assms(1)] .
  then have "mset_set (oh_live L h') = mset_set (oh_live L h) - mset_set (set_option p)"
    using assms by (simp add: holds_def mset_set_Diff)
  moreover have "mset_set (set_option p) = opt_mset p" by (cases p) simp_all
  ultimately show ?thesis using assms by (simp add: holds_def)
qed

lemma holds_with:
  assumes "holds L h M" "oh_live L h' = oh_live L h \<union> set_option p" "\<forall>x \<in> set_option p. x \<notin> oh_live L h"
  shows "holds L h' (M + opt_mset p)"
  using assms by (cases p) (auto simp: holds_def)

lemma hands_out_holds:
  assumes "hands_out L d call" "holds L h M" "call h = (p, h')"
  shows "holds L h' (M + opt_mset p) \<and> (\<forall>x \<in> set_option p. frees d x)"
  using assms holds_with [OF assms(2), of h' p] unfolding hands_out_def holds_def by blast

lemma fills_holds:
  assumes "fills L call" "holds L h (M + opt_mset p)" "call p h = (p', h')"
  shows "holds L h' (M + opt_mset p') \<and> (\<forall>x \<in> set_option p'. frees RSA_free x)"
proof -
  have p: "set_option p \<subseteq> oh_live L h" "finite (oh_live L h)"
    using holds_subset [OF assms(2)] assms(2) by (simp_all add: holds_def)
  then have call: "\<forall>x \<in> set_option p'. x \<notin> oh_live L h - set_option p \<and> frees RSA_free x"
      "oh_live L h' = oh_live L h - set_option p \<union> set_option p'"
    using assms(1,3) unfolding fills_def by blast+
  have rest: "mset_set (oh_live L h - set_option p) = M"
    using assms(2) p mset_set_Diff [OF p(2,1)] by (cases p) (simp_all add: holds_def)
  have "mset_set (oh_live L h') = M + opt_mset p'"
    using call rest p by (cases p') simp_all
  then show ?thesis using call p by (auto simp: holds_def)
qed

text \<open>Destroying what is owned never fails.\<close>

lemma destroy_ptr_holds:
  assumes "openssl_contract L" "ptr_ok p" "holds L h (M + ptr_owns p)"
  obtains h' where "destroy_ptr L p h = Inr h'" "holds L h' M"
proof (cases "up_get p")
  case None
  then show thesis using that assms(3) by (simp add: destroy_ptr_def)
next
  case (Some x)
  have x: "x \<in> oh_live L h" "frees (up_deleter p) x"
    using holds_subset [of L h M "Some x"] assms(2,3) Some by (simp_all add: ptr_ok_def)
  then have "oh_live L (oh_free L (up_deleter p) x h) = oh_live L h - {x}"
    using assms(1) unfolding openssl_contract_def by blast
  then show thesis
    using that holds_without [of L h M "Some x"] assms(3) x Some by (simp add: destroy_ptr_def delete_object_def)
qed

lemma destroy_members_holds:
  assumes L: "openssl_contract L" and m: "members_ok m" "holds L h (M + members_own m)"
  obtains h' where "destroy_members L m h = Inr h'" "holds L h' M"
proof -
  have ok: "ptr_ok (rm_keyPair m)" "ptr_ok (rm_pubKeyBIO m)" "ptr_ok (rm_priKeyBIO m)"
    using m(1) by (simp_all add: members_ok_def)
  have "holds L h (M + ptr_owns (rm_keyPair m) + ptr_owns (rm_pubKeyBIO m) + ptr_owns (rm_priKeyBIO m))"
    using m(2) by (simp add: members_own_def ac_simps)
  then obtain h1 where 1: "destroy_ptr L (rm_priKeyBIO m) h = Inr h1"
      "holds L h1 (M + ptr_owns (rm_keyPair m) + ptr_owns (rm_pubKeyBIO m))"
    by (rule destroy_ptr_holds [OF L ok(3)])
  obtain h2 where 2: "destroy_ptr L (rm_pubKeyBIO m) h1 = Inr h2" "holds L h2 (M + ptr_owns (rm_keyPair m))"
    by (rule destroy_ptr_holds [OF L ok(2) 1(2)])
  obtain h3 where "destroy_ptr L (rm_keyPair m) h2 = Inr h3" "holds L h3 M"
    by (rule destroy_ptr_holds [OF L ok(1) 2(2)])
  then show thesis using that 1(1) 2(1) by (simp add: destroy_members_def)
qed

lemma move_assign_holds:
  assumes L: "openssl_contract L" and m: "members_ok m" "holds L h (M + members_own m)"
  obtains h' where "move_assign L m other h = Inr (other, moved_from other, h')" "holds L h' M"
proof -
  have ok: "ptr_ok (rm_keyPair m)" "ptr_ok (rm_pubKeyBIO m)" "ptr_ok (rm_priKeyBIO m)"
    using m(1) by (simp_all add: members_ok_def)
  have "holds L h (M + ptr_owns (rm_priKeyBIO m) + ptr_owns (rm_pubKeyBIO m) + ptr_owns (rm_keyPair m))"
    using m(2) by (simp add: members_own_def ac_simps)
  then obtain h1 where 1: "destroy_ptr L (rm_keyPair m) h = Inr h1"
      "holds L h1 (M + ptr_owns (rm_priKeyBIO m) + ptr_owns (rm_pubKeyBIO m))"
    by (rule destroy_ptr_holds [OF L ok(1)])
  obtain h2 where 2: "destroy_ptr L (rm_pubKeyBIO m) h1 = Inr h2" "holds L h2 (M + ptr_owns (rm_priKeyBIO m))"
    by (rule destroy_ptr_holds [OF L ok(2) 1(2)])
  obtain h3 where "destroy_ptr L (rm_priKeyBIO m) h2 = Inr h3" "holds L h3 M"
    by (rule destroy_ptr_holds [OF L ok(3) 2(2)])
  then show thesis using that 1(1) 2(1) by (simp add: move_assign_def assign_ptr_def moved_from_def)
qed

lemma assign_to_null: "up_get p = None \<Longrightarrow> assign_temporary L p q h = Inr (q, h)"
  by (simp add: assign_temporary_def assign_ptr_def destroy_ptr_def)

lemma openssl_calls:
  assumes "openssl_contract L"
  shows "hands_out L BIO_free_all (oh_BIO_new_mem_buf L t)" "hands_out L BIO_free_all (oh_BIO_new L)"
    "hands_out L RSA_free (oh_RSA_new L)" "hands_out L RSA_free (oh_RSA_generate_key L bits e)"
    "hands_out L RSA_free (oh_PEM_read_public L bio)" "fills L (oh_PEM_read_private_into L bio)"
    "fills L (oh_PEM_read_public_into L bio)"
  using assms by (simp_all add: openssl_contract_def)

text \<open>A constructor that gives an object gives it all that it has allocated, and fails only at a null pointer.\<close>

definition constructs :: "('h, 'm) openssl_scheme \<Rightarrow> ('h \<Rightarrow> (rsa_members \<times> 'h) res) \<Rightarrow> bool" where
  "constructs L new \<longleftrightarrow> (\<forall>h M. holds L h M \<longrightarrow>
     (case new h of Inl e \<Rightarrow> e = NullDeref | Inr (m, h') \<Rightarrow> members_ok m \<and> holds L h' (M + members_own m)))"

lemma constructs_public:
  assumes "openssl_contract L"
  shows "constructs L (own_public L pub)"
  unfolding constructs_def
proof (intro allI impI)
  fix h M assume h: "holds L h M"
  obtain bio h1 where 1: "oh_BIO_new_mem_buf L (c_str pub) h = (bio, h1)" by fastforce
  obtain rsa h2 where 2: "oh_PEM_read_public L bio h1 = (rsa, h2)" by fastforce
  have bio: "holds L h1 (M + opt_mset bio) \<and> (\<forall>x \<in> set_option bio. frees BIO_free_all x)"
    by (rule hands_out_holds [OF openssl_calls(1) [OF assms] h 1])
  have "holds L h2 (M + opt_mset bio + opt_mset rsa) \<and> (\<forall>x \<in> set_option rsa. frees RSA_free x)"
    by (rule hands_out_holds [OF openssl_calls(5) [OF assms] conjunct1 [OF bio] 2])
  then show "case own_public L pub h of Inl e \<Rightarrow> e = NullDeref
      | Inr (m, h') \<Rightarrow> members_ok m \<and> holds L h' (M + members_own m)"
    using bio by (simp add: own_public_def 1 2 assign_to_null members_ok_def members_own_def ac_simps)
qed

lemma constructs_pair:
  assumes "openssl_contract L"
  shows "constructs L (own_pair L pub pri)"
  unfolding constructs_def
proof (intro allI impI)
  fix h M assume h: "holds L h M"
  obtain b1 h1 where 1: "oh_BIO_new_mem_buf L pub h = (b1, h1)" by fastforce
  obtain b2 h2 where 2: "oh_BIO_new_mem_buf L pri h1 = (b2, h2)" by fastforce
  obtain k1 h3 where 3: "oh_RSA_new L h2 = (k1, h3)" by fastforce
  obtain k2 h4 where 4: "oh_PEM_read_private_into L b2 k1 h3 = (k2, h4)" by fastforce
  obtain k3 h5 where 5: "oh_PEM_read_public_into L b1 k2 h4 = (k3, h5)" by fastforce
  have b1: "holds L h1 (M + opt_mset b1) \<and> (\<forall>x \<in> set_option b1. frees BIO_free_all x)"
    by (rule hands_out_holds [OF openssl_calls(1) [OF assms] h 1])
  have b2: "holds L h2 (M + opt_mset b1 + opt_mset b2) \<and> (\<forall>x \<in> set_option b2. frees BIO_free_all x)"
    by (rule hands_out_holds [OF openssl_calls(1) [OF assms] conjunct1 [OF b1] 2])
  have k1: "holds L h3 (M + opt_mset b1 + opt_mset b2 + opt_mset k1) \<and> (\<forall>x \<in> set_option k1. frees RSA_free x)"
    by (rule hands_out_holds [OF openssl_calls(3) [OF assms] conjunct1 [OF b2] 3])
  have k2: "holds L h4 (M + opt_mset b1 + opt_mset b2 + opt_mset k2) \<and> (\<forall>x \<in> set_option k2. frees RSA_free x)"
    by (rule fills_holds [OF openssl_calls(6) [OF assms] conjunct1 [OF k1] 4])
  have "holds L h5 (M + opt_mset b1 + opt_mset b2 + opt_mset k3) \<and> (\<forall>x \<in> set_option k3. frees RSA_free x)"
    by (rule fills_holds [OF openssl_calls(7) [OF assms] conjunct1 [OF k2] 5])
  then show "case own_pair L pub pri h of Inl e \<Rightarrow> e = NullDeref
      | Inr (m, h') \<Rightarrow> members_ok m \<and> holds L h' (M + members_own m)"
    using b1 b2
    by (cases k3) (simp_all add: own_pair_def 1 2 3 4 5 assign_to_null members_ok_def members_own_def ac_simps)
qed

lemma constructs_generate:
  assumes "openssl_contract L"
  shows "constructs L (own_generate L)"
  unfolding constructs_def
proof (intro allI impI)
  fix h M assume h: "holds L h M"
  obtain b1 h1 where 1: "oh_BIO_new L h = (b1, h1)" by fastforce
  obtain b2 h2 where 2: "oh_BIO_new L h1 = (b2, h2)" by fastforce
  obtain k h3 where 3: "oh_RSA_generate_key L KEY_LENGTH KEY_EXPONENT h2 = (k, h3)" by fastforce
  have b1: "holds L h1 (M + opt_mset b1) \<and> (\<forall>x \<in> set_option b1. frees BIO_free_all x)"
    by (rule hands_out_holds [OF openssl_calls(2) [OF assms] h 1])
  have b2: "holds L h2 (M + opt_mset b1 + opt_mset b2) \<and> (\<forall>x \<in> set_option b2. frees BIO_free_all x)"
    by (rule hands_out_holds [OF openssl_calls(2) [OF assms] conjunct1 [OF b1] 2])
  have k: "holds L h3 (M + opt_mset b1 + opt_mset b2 + opt_mset k) \<and> (\<forall>x \<in> set_option k. frees RSA_free x)"
    by (rule hands_out_holds [OF openssl_calls(4) [OF assms] conjunct1 [OF b2] 3])
  have "holds L (oh_BIO_read L b1 (oh_BIO_read L b2 (oh_PEM_write_public L b1 x (oh_PEM_write_private L b2 x h3))))
      (M + opt_mset b1 + opt_mset b2 + opt_mset k)" for x
    using k assms by (simp add: holds_def openssl_contract_def)
  then show "case own_generate L h of Inl e \<Rightarrow> e = NullDeref
      | Inr (m, h') \<Rightarrow> members_ok m \<and> holds L h' (M + members_own m)"
    using b1 b2 k
    by (cases k) (simp_all add: own_generate_def 1 2 3 assign_to_null members_ok_def members_own_def Let_def ac_simps)
qed

section \<open>Programs\<close>

definition keys_ok :: "rsa_members option list \<Rightarrow> bool" where
  "keys_ok ks \<longleftrightarrow> (\<forall>m. Some m \<in> set ks \<longrightarrow> members_ok m)"

lemma keys_own_update:
  "i < length ks \<Longrightarrow> keys_own (ks[i := k]) + key_owns (ks ! i) = keys_own ks + key_owns k"
  by (induction ks arbitrary: i) (auto simp: keys_own_def ac_simps split: nat.split)

lemma keys_own_replicate [simp]: "keys_own (replicate n None) = {#}"
  by (induction n) (simp_all add: keys_own_def key_owns_def)

lemma key_owns_simps [simp]: "key_owns None = {#}" "key_owns (Some m) = members_own m"
  by (simp_all add: key_owns_def)

lemma keys_ok_update: "keys_ok ks \<Longrightarrow> (\<And>m. k = Some m \<Longrightarrow> members_ok m) \<Longrightarrow> keys_ok (ks[i := k])"
  unfolding keys_ok_def using set_update_subset_insert [of ks i k] by blast

lemma keys_ok_nth: "keys_ok ks \<Longrightarrow> i < length ks \<Longrightarrow> ks ! i = Some m \<Longrightarrow> members_ok m"
  unfolding keys_ok_def by (metis nth_mem)

lemma delete_key_holds:
  assumes "openssl_contract L" "\<And>m. k = Some m \<Longrightarrow> members_ok m" "holds L h (M + key_owns k)"
  obtains h' where "delete_key L k h = Inr h'" "holds L h' M"
proof (cases k)
  case None
  then show thesis using that assms(3) by (simp add: delete_key_def)
next
  case (Some m)
  then have "members_ok m" "holds L h (M + members_own m)" using assms(2,3) by simp_all
  then obtain h' where "destroy_members L m h = Inr h'" "holds L h' M" by (rule destroy_members_holds [OF assms(1)])
  then show thesis using that Some by (simp add: delete_key_def)
qed

lemma put_key_holds:
  assumes L: "openssl_contract L" and i: "i < length ks" and ok: "keys_ok ks" "\<And>m. k = Some m \<Longrightarrow> members_ok m"
    and h: "holds L h (M + keys_own ks + key_owns k)"
  obtains h' where "put_key L i k ks h = Inr (ks[i := k], h')" "holds L h' (M + keys_own (ks[i := k]))" "keys_ok (ks[i := k])"
proof -
  have "M + keys_own ks + key_owns k = M + keys_own (ks[i := k]) + key_owns (ks ! i)"
    using keys_own_update [OF i, of k] by (simp add: add.assoc)
  then obtain h' where "delete_key L (ks ! i) h = Inr h'" "holds L h' (M + keys_own (ks[i := k]))"
    using delete_key_holds [OF L, of "ks ! i" h "M + keys_own (ks[i := k])"] keys_ok_nth [OF ok(1) i] h by metis
  then show thesis using that keys_ok_update [OF ok] by (simp add: put_key_def)
qed

lemma moved_from_simps [simp]: "members_ok (moved_from m)" "members_own (moved_from m) = {#}"
  by (simp_all add: moved_from_def members_ok_def members_own_def)

text \<open>The invariant: what was allocated before, and what the pointers own.\<close>

definition key_inv :: "('h, 'm) openssl_scheme \<Rightarrow> nat \<Rightarrow> ssl_object multiset \<Rightarrow> rsa_members option list \<times> 'h \<Rightarrow> bool" where
  "key_inv L n M s \<longleftrightarrow> length (fst s) = n \<and> keys_ok (fst s) \<and> holds L (snd s) (M + keys_own (fst s))"

lemma make_key_inv:
  assumes L: "openssl_contract L" and make: "constructs L new" and i: "i < n" and inv: "key_inv L n M (ks, h)"
  shows "case andThen (new h) (\<lambda>(m, h1). put_key L i (Some m) ks h1) of Inl e \<Rightarrow> e = NullDeref | Inr s \<Rightarrow> key_inv L n M s"
proof (cases "new h")
  case (Inl e)
  then show ?thesis using make inv by (force simp: constructs_def key_inv_def)
next
  case (Inr r)
  obtain m h1 where r: "r = (m, h1)" by (cases r)
  have "members_ok m \<and> holds L h1 (M + keys_own ks + members_own m)"
    using make inv Inr by (force simp: constructs_def key_inv_def r)
  then obtain h' where "put_key L i (Some m) ks h1 = Inr (ks[i := Some m], h')"
      "holds L h' (M + keys_own (ks[i := Some m]))" "keys_ok (ks[i := Some m])"
    using put_key_holds [OF L, of i ks "Some m" h1 M] i inv by (auto simp: key_inv_def)
  then show ?thesis using inv by (simp add: Inr r key_inv_def)
qed

lemma moveNew_inv:
  assumes L: "openssl_contract L" and ij: "i < n" "j < n" and inv: "key_inv L n M (ks, h)" and m: "ks ! j = Some m"
  shows "\<exists>s. put_key L i (Some m) (ks[j := Some (moved_from m)]) h = Inr s \<and> key_inv L n M s"
proof -
  have len: "length ks = n" "keys_ok ks" "holds L h (M + keys_own ks)" using inv by (simp_all add: key_inv_def)
  have "keys_own (ks[j := Some (moved_from m)]) + members_own m = keys_own ks"
    using keys_own_update [of j ks "Some (moved_from m)"] ij m len by simp
  then have "holds L h (M + keys_own (ks[j := Some (moved_from m)]) + key_owns (Some m))"
    using len by (simp add: add.assoc)
  moreover have "keys_ok (ks[j := Some (moved_from m)])" "members_ok m"
    using keys_ok_nth [OF len(2) _ m] ij len(1) by (auto intro!: keys_ok_update len(2))
  ultimately obtain h' where "put_key L i (Some m) (ks[j := Some (moved_from m)]) h
        = Inr (ks[j := Some (moved_from m), i := Some m], h')"
      "holds L h' (M + keys_own (ks[j := Some (moved_from m), i := Some m]))"
      "keys_ok (ks[j := Some (moved_from m), i := Some m])"
    using put_key_holds [OF L, of i "ks[j := Some (moved_from m)]" "Some m" h M] ij len by auto
  then show ?thesis using len by (simp add: key_inv_def)
qed

lemma moveInto_inv:
  assumes L: "openssl_contract L" and ij: "i < n" "j < n" "i \<noteq> j" and inv: "key_inv L n M (ks, h)"
    and m: "ks ! i = Some m" "ks ! j = Some other"
  shows "\<exists>h'. move_assign L m other h = Inr (other, moved_from other, h')
    \<and> key_inv L n M (ks[i := Some other, j := Some (moved_from other)], h')"
proof -
  let ?ks = "ks[i := Some other, j := Some (moved_from other)]"
  have len: "length ks = n" "keys_ok ks" "holds L h (M + keys_own ks)" using inv by (simp_all add: key_inv_def)
  have ok: "members_ok m" "members_ok other"
    using keys_ok_nth [OF len(2)] ij len(1) m by auto
  have "keys_own ?ks + members_own other = keys_own (ks[i := Some other])"
    using keys_own_update [of j "ks[i := Some other]" "Some (moved_from other)"] ij len m by simp
  moreover have "keys_own (ks[i := Some other]) + members_own m = keys_own ks + members_own other"
    using keys_own_update [of i ks "Some other"] ij len m by simp
  ultimately have "keys_own ks + members_own other = keys_own ?ks + members_own m + members_own other"
    by (simp add: ac_simps)
  then have "keys_own ks = keys_own ?ks + members_own m" by (rule add_right_imp_eq)
  then have "holds L h (M + keys_own ?ks + members_own m)"
    using len by (simp add: add.assoc)
  then obtain h' where "move_assign L m other h = Inr (other, moved_from other, h')" "holds L h' (M + keys_own ?ks)"
    by (rule move_assign_holds [OF L ok(1)])
  moreover have "keys_ok ?ks"
    by (intro keys_ok_update len) (use ok in auto)
  ultimately show ?thesis using len by (simp add: key_inv_def)
qed

lemma key_step_inv:
  assumes L: "openssl_contract L" and i: "op_slots op \<subseteq> {..<n}" and inv: "key_inv L n M s"
  shows "case key_step L op s of Inl e \<Rightarrow> e = NullDeref | Inr s' \<Rightarrow> key_inv L n M s'"
proof -
  obtain ks h where s: "s = (ks, h)" by (cases s)
  note made = make_key_inv [OF L _ _ inv [unfolded s]]
  show ?thesis
  proof (cases op)
    case (MakePublic i pub)
    then show ?thesis using made [OF constructs_public [OF L]] i by (simp add: s)
  next
    case (MakePair i pub pri)
    then show ?thesis using made [OF constructs_pair [OF L]] i by (simp add: s)
  next
    case (MakeGenerated i)
    then show ?thesis using made [OF constructs_generate [OF L]] i by (simp add: s)
  next
    case (MoveNew i j)
    then show ?thesis
      using moveNew_inv [OF L _ _ inv [unfolded s], of i j] assms(2)
      by (cases "ks ! j") (auto simp: s move_construct_def)
  next
    case (MoveInto i j)
    show ?thesis
    proof (cases "ks ! i = None \<or> ks ! j = None \<or> i = j")
      case True
      then show ?thesis using inv by (cases "ks ! i"; cases "ks ! j") (simp_all add: MoveInto s)
    next
      case False
      then obtain m other where "ks ! i = Some m" "ks ! j = Some other" "i \<noteq> j" by auto
      then show ?thesis
        using moveInto_inv [OF L _ _ _ inv [unfolded s], of i j m other] assms(2) by (auto simp: MoveInto s)
    qed
  next
    case (Reset i)
    obtain h' where "put_key L i None ks h = Inr (ks[i := None], h')" "holds L h' (M + keys_own (ks[i := None]))"
        "keys_ok (ks[i := None])"
      using put_key_holds [OF L, of i ks None h M] assms(2) inv by (auto simp: Reset s key_inv_def)
    then show ?thesis using inv by (simp add: Reset s key_inv_def)
  qed
qed

lemma key_steps_inv:
  assumes L: "openssl_contract L" and "\<forall>op \<in> set ops. op_slots op \<subseteq> {..<n}" "key_inv L n M s"
  shows "case foldR (key_step L) ops s of Inl e \<Rightarrow> e = NullDeref | Inr s' \<Rightarrow> key_inv L n M s'"
  using assms(2,3)
proof (induction ops arbitrary: s)
  case (Cons op ops)
  have "case key_step L op s of Inl e \<Rightarrow> e = NullDeref | Inr s' \<Rightarrow> key_inv L n M s'"
    using key_step_inv [OF L _ Cons.prems(2), of op] Cons.prems(1) by simp
  then show ?case using Cons.IH Cons.prems(1) by (cases "key_step L op s") simp_all
qed simp

lemma delete_keys_holds:
  assumes L: "openssl_contract L" and "keys_ok ks" "holds L h (M + keys_own ks)"
  shows "\<exists>h'. foldR (delete_key L) ks h = Inr h' \<and> holds L h' M"
  using assms(2,3)
proof (induction ks arbitrary: h)
  case Nil
  then show ?case by (simp add: keys_own_def)
next
  case (Cons k ks)
  have "holds L h (M + keys_own ks + key_owns k)" using Cons.prems(2) by (simp add: keys_own_def ac_simps)
  then obtain h' where "delete_key L k h = Inr h'" "holds L h' (M + keys_own ks)"
    using Cons.prems(1) by (elim delete_key_holds [OF L, rotated]) (auto simp: keys_ok_def)
  then show ?case using Cons.IH [of h'] Cons.prems(1) by (auto simp: keys_ok_def)
qed

text \<open>C35: The objects of OpenSSL behind the keys of a program are freed exactly once, each by its own deleter: whatever keys
  it makes, moves and drops, nothing is freed that is not allocated, the only fault is the null pointer that an
  empty pointer or a key that OpenSSL could not make gives, every allocated object that was not there before has
  exactly one owner, and when the pointers that are left are destroyed just what was there before is left.\<close>

theorem keys_freed_once:
  assumes "openssl_contract L" "finite (oh_live L h)" "\<forall>op \<in> set ops. op_slots op \<subseteq> {..<n}"
  shows "case foldR (key_step L) ops (replicate n None, h) of
      Inl e \<Rightarrow> e = NullDeref
    | Inr (ks, h1) \<Rightarrow> mset_set (oh_live L h1) = mset_set (oh_live L h) + keys_own ks
        \<and> (\<exists>h2. foldR (delete_key L) ks h1 = Inr h2 \<and> oh_live L h2 = oh_live L h)"
proof -
  have "key_inv L n (mset_set (oh_live L h)) (replicate n None, h)"
    using assms(2) by (simp add: key_inv_def keys_ok_def holds_def)
  note run = key_steps_inv [OF assms(1,3) this]
  show ?thesis
  proof (cases "foldR (key_step L) ops (replicate n None, h)")
    case (Inl e)
    then show ?thesis using run by simp
  next
    case (Inr s)
    obtain ks h1 where s: "s = (ks, h1)" by (cases s)
    have inv: "keys_ok ks" "holds L h1 (mset_set (oh_live L h) + keys_own ks)" using run Inr by (simp_all add: key_inv_def s)
    obtain h2 where h2: "foldR (delete_key L) ks h1 = Inr h2" "holds L h2 (mset_set (oh_live L h))"
      using delete_keys_holds [OF assms(1) inv] by blast
    have "oh_live L h2 = oh_live L h"
      using h2(2) assms(2) by (metis holds_def finite_set_mset_mset_set)
    then show ?thesis using inv h2(1) by (simp add: Inr s holds_def)
  qed
qed

section \<open>Witness\<close>

text \<open>A heap that is the list of its objects, where a key that is read replaces the one in the pointer.\<close>

fun sample_address :: "ssl_object \<Rightarrow> nat" where
  "sample_address (BIO n) = n"
| "sample_address (RSA n) = n"

definition sample_allocate :: "(nat \<Rightarrow> ssl_object) \<Rightarrow> ssl_object list \<Rightarrow> ssl_object option \<times> ssl_object list" where
  "sample_allocate kind h = (let x = kind (Suc (sum_list (map sample_address h))) in (Some x, x # h))"

definition sample_openssl :: "ssl_object list openssl" where
  "sample_openssl =
     \<lparr>oh_live = set, oh_BIO_new_mem_buf = (\<lambda>_. sample_allocate BIO), oh_BIO_new = sample_allocate BIO,
      oh_RSA_new = sample_allocate RSA, oh_RSA_generate_key = (\<lambda>_ _. sample_allocate RSA),
      oh_PEM_read_public = (\<lambda>_. sample_allocate RSA),
      oh_PEM_read_private_into = (\<lambda>_ p h. sample_allocate RSA (filter (\<lambda>x. Some x \<noteq> p) h)),
      oh_PEM_read_public_into = (\<lambda>_ p h. sample_allocate RSA (filter (\<lambda>x. Some x \<noteq> p) h)),
      oh_PEM_write_private = (\<lambda>_ _ h. h), oh_PEM_write_public = (\<lambda>_ _ h. h), oh_BIO_read = (\<lambda>_ h. h),
      oh_free = (\<lambda>_ x h. filter (\<lambda>y. y \<noteq> x) h)\<rparr>"

lemma sample_fresh: "x \<in> set h \<Longrightarrow> sample_address x \<noteq> Suc (sum_list (map sample_address h))"
  using member_le_sum_list [of "sample_address x" "map sample_address h"] by auto

lemma sample_contract: "openssl_contract sample_openssl"
proof -
  have new: "BIO (Suc (sum_list (map sample_address h))) \<notin> set h" "RSA (Suc (sum_list (map sample_address h))) \<notin> set h" for h
    using sample_fresh [of _ h] by fastforce+
  have "hands_out sample_openssl BIO_free_all (sample_allocate BIO)" "hands_out sample_openssl RSA_free (sample_allocate RSA)"
    by (simp_all add: hands_out_def sample_openssl_def sample_allocate_def Let_def new)
  moreover have "fills sample_openssl (\<lambda>p h. sample_allocate RSA (filter (\<lambda>x. Some x \<noteq> p) h))"
  proof -
    have "RSA (Suc (sum_list (map sample_address (filter (\<lambda>x. Some x \<noteq> p) h)))) \<notin> set h - set_option p" for p h
      using new(2) [of "filter (\<lambda>x. Some x \<noteq> p) h"] by auto
    then show ?thesis
      unfolding fills_def by (auto simp: sample_openssl_def sample_allocate_def Let_def)
  qed
  ultimately show ?thesis
    unfolding openssl_contract_def by (simp add: sample_openssl_def set_diff_eq)
qed

lemma keys_freed_once_witness:
  "\<exists>ks h1 h2. foldR (key_step sample_openssl) [MakePublic 0 ''k'', MakePair 0 ''k'' ''p'', MoveNew 1 0, MakeGenerated 0, MoveInto 0 1]
       ([None, None], [BIO 7]) = Inr (ks, h1)
     \<and> foldR (delete_key sample_openssl) ks h1 = Inr h2 \<and> set h2 = {BIO 7}"
proof -
  let ?L = sample_openssl
  let ?ops = "[MakePublic 0 ''k'', MakePair 0 ''k'' ''p'', MoveNew 1 0, MakeGenerated 0, MoveInto 0 1]"
  obtain ks h1 where run: "foldR (key_step ?L) ?ops (replicate 2 None, [BIO 7]) = Inr (ks, h1)"
    by (simp add: numeral_2_eq_2 sample_openssl_def sample_allocate_def own_public_def own_pair_def own_generate_def
        put_key_def delete_key_def destroy_members_def destroy_ptr_def delete_object_def assign_temporary_def assign_ptr_def
        move_assign_def move_construct_def moved_from_def make_bio_ptr_def make_rsa_ptr_def Let_def)
  have live: "oh_live ?L h = set h" for h by (simp add: sample_openssl_def)
  have "\<exists>h2. foldR (delete_key ?L) ks h1 = Inr h2 \<and> oh_live ?L h2 = oh_live ?L [BIO 7]"
    using keys_freed_once [OF sample_contract, of "[BIO 7]" ?ops 2, unfolded run]
    by (simp add: live lessThan_def)
  then show ?thesis using run unfolding live by (auto simp: numeral_2_eq_2)
qed

end
