(* ===== verification/Spec2Isabelle.thy ===== *)
theory Spec2Isabelle
  imports ProtocolProperties HandshakeProperties AuthProperties LoginProperties ServiceProperties SetupProperties
    WorldProperties ClientProperties PacketProperties SpecProperties ProgramProperties JoinProperties KeyOwnership
begin

text \<open>
  PlayPG, a small online role playing game in C++: a login server, map servers and a client.

  The program. A login server loads the maps of the world, reconciles them with its database and
  waits for connections. It greets each with a challenge: its version, its name, its public key. A
  client answers with a user name and a password encrypted with that key; after at most three
  attempts the connection becomes a player session or ends. A map server answers with a
  registration request, offers its maps with their hashes, is asked for those that no other map
  server has, and acknowledges. A player asks for a list of characters and chooses one; the login
  server answers with the address of the map server that has the character's map. The client goes
  through the same protocol from the other side and then lets the player walk on a map of tiles.

  The theories, in the order of their imports, with the files of the repository they translate:

  \<^item> Prelude: results with faults (\<open>res\<close>, \<open>andThen\<close>, \<open>deref\<close>, folds that stop at a fault), C strings,
    the word types. CxxStd: what the code uses of the C++ library (hexadecimal output and input,
    \<open>unordered_map\<close>, a vector with its capacity, whose reallocation makes pointers dangle).
  \<^item> OdbTypes (ODB/), Tmx (what is read of tmxparser's maps), Platform (the libraries as parameters).
  \<^item> ByteUtil (src/util/Util.cpp and the texts of include/net/crypto/SHACrypto.hpp), Crypto
    (src/net/crypto), KeyOwnership (src/net/crypto/CryptoCommon.cpp and the constructors, moves and
    destructor of \<open>RSACrypto\<close>: which of OpenSSL's objects they own and free), Floats (single precision floats as rational numbers, and their conversion to
    \<open>uint32_t\<close>).
  \<^item> Packets (include/net/Opcodes.hpp, include/net/Packet.hpp), LoginPackets, CharacterPackets
    (include/net/packets, src/net/packets), PlayerSession (src/net/PlayerSession.cpp). The interface
    \<open>json_packet\<close> states what a packet's writer and reader owe each other; each packet interprets it.
  \<^item> TileMap (include/Map.hpp, src/Map.cpp, src/odb/Location.cpp).
  \<^item> ServerCommon (server/ServerCommon.cpp); LoginState (server-include/LoginServer.hpp);
    LoginIncoming (server/LoginServerIncomingHandler.cpp); LoginConnected
    (server/LoginServerConnectedHandler.cpp); LoginServer (server/LoginServer.cpp), with the steps of
    the threads as the relation \<open>login_step\<close> and their faults as \<open>login_fault\<close>. LoginInvariants,
    LoginHandlers, LoginSessions and LoginRun hold the invariant of the login server and show, through
    interfaces that all handlers meet, that every handler keeps it and which faults it can end with.
  \<^item> LoginSpec: what the login server promises, as an abstract server of connection states, players
    logged in and a directory of map servers, with its steps \<open>spec_step\<close>, and the abstraction \<open>abs_run\<close>.
    LoginSimulation shows that each step of the server is one of the abstract server or changes nothing
    of it; its interface \<open>simulation\<close>, interpreted on \<open>login_step\<close>, carries invariants of the
    specification over to runs. LoginOrigins: every session goes back to a verified login.
    LoginProgress: a measure of the turns a connection has left, and the relation \<open>life\<close>, which follows one connection
    through a run of all threads.
  \<^item> MapServer (server/MapServer.cpp), ServerMain and ServerProgram (server/servermain.cpp): the command
    line, and \<open>main\<close> from there to a server that runs.
  \<^item> ClientEntities (client-include/components, client/components, client/ClientMapUtil.cpp,
    client/systems/RenderSystem.cpp), ClientMovement (the other systems of client/systems and
    include/net/packets/GameplayPackets.hpp), Client (client/PlayPG.cpp), with a frame as the relation
    \<open>client_step\<close>. ClientRun holds the client's invariant and the interface of its systems, ClientScene
    what is on the screen and which layers lie behind the player and in front, ClientFaults what can stop a frame. ClientMain (client/main.cpp): the loop around the frames, as a partial
    function, since it may not end.
  \<^item> Sample, SampleRun, SampleLogin, SampleSession, SampleWorld: a platform, a small map and runs on it. They make hypotheses about
    the libraries come true (\<open>sample_fifo_put\<close>, \<open>sample_fifo_get\<close>, \<open>sample_reads_back\<close>) and are used by the
    witnesses only.

  How code and model correspond. A class is a record, an enumeration a datatype, a C++ function a
  definition of the same name that takes the state it changes and gives it back. An operation that
  can end in an assertion, an exception, a null or dangling pointer, a read outside a vector or an
  undefined conversion gives \<open>Inl\<close> of that fault. Pointers into vectors carry the generation of the
  vector's memory; sessions live on a heap with addresses. Unsigned and identifier types are words of
  their width, with the wrap around of the code: the 16-bit lengths of packets, the 32-bit index of
  a tile. \<open>int\<close>s are integers with an overflow fault where the code multiplies.

  The properties. AuthProperties: the verdict on a login, its effects, locked accounts, the limit of
  attempts, packets that stop the server. LoginProperties: in every state the login server reaches,
  for any interleaving of its threads, connections, sessions and the two indexes are well formed,
  and only the listed faults can occur; one of them, a pointer into the reallocated vector of map
  servers, is shown to occur. ServiceProperties: which maps are asked for, registration,
  acknowledgement, the choice of a character. SpecProperties: every step of the login server's runs is one of its
  specification, a map keeps its server, sessions stem from logins, and each connection, followed by itself, ends after four
  turns that heard from its peer. JoinProperties: a map server's whole
  way from its request to the players that are sent to it, and its own side of that exchange. SetupProperties: the
  tables of maps, the first account. ProtocolProperties: client and login server together, from the
  password that the client sends to the session and the client's success, and from the chosen
  character to the game. HandshakeProperties: map server and login server together, and
  key files. KeyOwnership: OpenSSL's objects are freed once each. ProgramProperties: what the server program comes to. PacketProperties: types of packets, round trips and losses of texts and frames. WorldProperties:
  the table of tiles against a description of the map, its edges, movement. ClientProperties: the
  state machine of the client, its reachable states, what can stop a frame, a key press in a frame, what a frame draws,
  layers, a repeated login and what it sends.

  What is assumed, and where. The libraries are fields of the platform record; a property that needs
  more of them than their type names it: \<open>fifo_put\<close> and \<open>fifo_get\<close> (buffers and sockets are first in,
  first out), \<open>reads_back\<close> (rapidjson's parser inverts its writer on a document), \<open>ashley_spec\<close> (systems
  run by ascending priority, each entity of a family is visited once), \<open>wire\<close> (on a connected
  socket, what is put and sent is what goes out), \<open>openssl_contract\<close> (what OpenSSL's calls allocate and free). A database operation
  is taken to succeed, but for loading a player who is not stored: an exception of ODB elsewhere, as for a lost
  connection, is not modelled. APG's constructors of sockets and acceptors and ODB's connection are
  the fields of \<open>net_api\<close>. A memory \<open>BIO\<close> that could not be made is taken to give what OpenSSL's calls on a
  null \<open>BIO\<close> give, an error and no text, and the product of a map's width and height, which only reserves memory, is not
  checked for overflow. A fatal log message is taken to
  return, as the code after each expects; with easylogging's default it would end the program there.
  A turn of the incoming thread on one connection, a pass of the other thread over the sessions and
  \<open>initDB\<close> are single steps of the run; the code guards the shared data they change with mutexes, but
  reads the index of map servers without one. \<open>playable\<close> bounds maps to sizes whose coordinates are exact
  in single precision and whose tile indexes fit 32 bits; larger maps are outside WorldProperties'
  statements about tiles. No definition of the program needs fuel: its loops run over lists, are steps
  of a relation, or, for the client's, a partial function; the parser of the sample platform has fuel, the length of its input.

  Not modelled: the drawing, input and window code of APG and SDL, the OpenGL calls, the animation of
  tiles, log messages, the parsing of the command line by boost, the start and the end of the socket
  library, the map server's loop that drops what it
  accepts, and the files without behaviour (include/net/WorldSession.hpp, the lists of includes, the marker component
  nothing uses, MSVC/). Their part in the program is either a parameter or has no effect on its state.
\<close>

end
